(* ===== verification/Gate_Prelude.thy ===== *)
theory Gate_Prelude
  imports Main "HOL-Library.Word"
begin

text \<open>
  Shared vocabulary of the development: machine integers, time, byte strings, the association-list
  and index lemmas that several components use, and the collections of simplification rules.

  Rust's fixed-width integers are words (\<open>u32\<close> is \<open>32 word\<close>), so that \<open>+\<close> is the wrapping
  addition of a release build and of the atomics' \<open>fetch_add\<close>. An \<open>Instant\<close> and a \<open>Duration\<close> are
  counts of nanoseconds; truncated subtraction on \<open>nat\<close> is exactly
  \<open>Instant::duration_since\<close>, which saturates at zero.
\<close>

named_theorems gate_simps \<open>unfolding rules of the small accessors of the model\<close>
named_theorems gate_frame \<open>what an operation leaves unchanged\<close>

type_synonym u8 = "8 word"
type_synonym u16 = "16 word"
type_synonym u32 = "32 word"
type_synonym u64 = "64 word"
type_synonym i64 = "64 word" \<comment> \<open>read with \<open>sint\<close>\<close>
type_synonym bytes = "8 word list"
type_synonym duration = nat
type_synonym instant = nat

subsection \<open>Time\<close>

definition nanos_per_sec :: nat where
  "nanos_per_sec = 1000000000"

definition from_secs :: "nat \<Rightarrow> duration" where
  "from_secs s = s * nanos_per_sec"

definition from_millis :: "nat \<Rightarrow> duration" where
  "from_millis ms = ms * 1000000"

text \<open>\<open>Instant + Duration\<close> panics when the seconds of the result do not fit the \<open>i64\<close> of the
  platform's \<open>timespec\<close>; \<open>None\<close> is that panic.\<close>

definition instant_add :: "instant \<Rightarrow> duration \<Rightarrow> instant option" where
  "instant_add t d = (if t + d < 2 ^ 63 * nanos_per_sec then Some (t + d) else None)"

lemma instant_add_SomeD: "instant_add t d = Some t' \<Longrightarrow> t' = t + d"
  by (simp add: instant_add_def split: if_splits)

lemma from_secs_eq_0 [simp]: "from_secs s = 0 \<longleftrightarrow> s = 0"
  by (simp add: from_secs_def nanos_per_sec_def)

subsection \<open>Results\<close>

text \<open>Rust's \<open>Result\<close> is a sum with the error on the left; \<open>try_then\<close> is the operator \<open>?\<close>, and
  \<open>for_each\<close> a loop whose body may return an error.\<close>

definition try_then :: "'e + 'a \<Rightarrow> ('a \<Rightarrow> 'e + 'b) \<Rightarrow> 'e + 'b" where
  "try_then r f = (case r of Inl e \<Rightarrow> Inl e | Inr a \<Rightarrow> f a)"

definition ensure :: "bool \<Rightarrow> 'e \<Rightarrow> 'e + unit" where
  "ensure c e = (if c then Inr () else Inl e)"

fun for_each :: "('a \<Rightarrow> 'e + unit) \<Rightarrow> 'a list \<Rightarrow> 'e + unit" where
  "for_each f [] = Inr ()"
| "for_each f (x # xs) = try_then (f x) (\<lambda>_. for_each f xs)"

lemma try_then_simps [simp]: "try_then (Inl e) f = Inl e" "try_then (Inr a) f = f a"
  by (simp_all add: try_then_def)

lemma ensure_True [simp]: "ensure True e = Inr ()"
  by (simp add: ensure_def)

lemma try_then_Inr_iff: "try_then r f = Inr b \<longleftrightarrow> (\<exists>a. r = Inr a \<and> f a = Inr b)"
  by (cases r) simp_all

lemma ensure_Inr_iff [simp]: "ensure c e = Inr u \<longleftrightarrow> c"
  by (simp add: ensure_def)

lemma for_each_Inr_iff: "for_each f xs = Inr u \<longleftrightarrow> (\<forall>x \<in> set xs. f x = Inr ())"
  by (induction xs) (auto simp: try_then_Inr_iff)

lemma for_each_cong_ensure: "(\<And>x. x \<in> set xs \<Longrightarrow> f x = Inr ()) \<Longrightarrow> for_each f xs = Inr ()"
  by (simp add: for_each_Inr_iff)

text \<open>The apostrophe, for messages that quote a name.\<close>

definition quoted :: "string \<Rightarrow> string" where
  "quoted s = [CHR 0x27] @ s @ [CHR 0x27]"

subsection \<open>Insertion loops over association data\<close>

text \<open>
  A Rust loop that inserts a value for each key of a list of rules into a \<open>HashMap\<close>: the last
  insertion of a key wins. \<open>insert_all\<close> is the body of the inner loop.
\<close>

fun insert_all :: "'k list \<Rightarrow> 'v \<Rightarrow> ('k \<rightharpoonup> 'v) \<Rightarrow> ('k \<rightharpoonup> 'v)" where
  "insert_all [] v m = m"
| "insert_all (k # ks) v m = insert_all ks v (m(k \<mapsto> v))"

lemma insert_all_apply: "insert_all ks v m k = (if k \<in> set ks then Some v else m k)"
  by (induction ks arbitrary: m) auto

lemma insert_all_dom [simp]: "dom (insert_all ks v m) = set ks \<union> dom m"
  by (auto simp: insert_all_apply dom_def split: if_splits)

text \<open>Two nested loops over a list of rules, each with its keys and its value.\<close>

fun insert_rules :: "('r \<Rightarrow> 'k list) \<Rightarrow> ('r \<Rightarrow> 'v) \<Rightarrow> 'r list \<Rightarrow> ('k \<rightharpoonup> 'v) \<Rightarrow> ('k \<rightharpoonup> 'v)" where
  "insert_rules ks v [] m = m"
| "insert_rules ks v (r # rs) m = insert_rules ks v rs (insert_all (ks r) (v r) m)"

text \<open>The reference reading: the value of the last rule that lists the key.\<close>

definition last_rule :: "('r \<Rightarrow> 'k list) \<Rightarrow> 'r list \<Rightarrow> 'k \<Rightarrow> 'r option" where
  "last_rule ks rs k = find (\<lambda>r. k \<in> set (ks r)) (rev rs)"

lemma find_append: "find P (xs @ ys) = (case find P xs of None \<Rightarrow> find P ys | Some x \<Rightarrow> Some x)"
  by (induction xs) auto

lemma find_SomeD: "find P xs = Some x \<Longrightarrow> x \<in> set xs \<and> P x"
  by (induction xs) (auto split: if_splits)

lemma insert_rules_apply:
  "insert_rules ks v rs m k = (case last_rule ks rs k of Some r \<Rightarrow> Some (v r) | None \<Rightarrow> m k)"
proof (induction rs arbitrary: m)
  case Nil
  then show ?case by (simp add: last_rule_def)
next
  case (Cons r rs)
  then show ?case
    by (auto simp: last_rule_def find_append insert_all_apply split: option.splits)
qed

lemma last_rule_SomeD: "last_rule ks rs k = Some r \<Longrightarrow> r \<in> set rs \<and> k \<in> set (ks r)"
  by (auto simp: last_rule_def dest: find_SomeD)

lemma last_rule_NoneD: "last_rule ks rs k = None \<Longrightarrow> r \<in> set rs \<Longrightarrow> k \<notin> set (ks r)"
  by (auto simp: last_rule_def find_None_iff)

lemma map_leD: "m \<subseteq>\<^sub>m n \<Longrightarrow> m x = Some y \<Longrightarrow> n x = Some y"
  by (metis domI map_le_def)

subsection \<open>Word facts\<close>

lemma unat_Suc_word:
  fixes w :: "'a::len word"
  assumes "Suc (unat w) < 2 ^ LENGTH('a)"
  shows "unat (w + 1) = Suc (unat w)"
  using assms by (simp add: unat_word_ariths)

lemma unat_lt_numeral_u32: "unat (w :: u32) < 2 ^ 32"
  using unsigned_less [of w] by simp

lemma unat_lt_numeral_u64: "unat (w :: u64) < 2 ^ 64"
  using unsigned_less [of w] by simp

end
