(* ===== verification/Circuit_Breaker.thy ===== *)
theory Circuit_Breaker
  imports Gate_Prelude
begin

text \<open>
  \<open>src/pool/circuit_breaker.rs\<close>: the state machine that guards one upstream. The struct is the
  record \<open>circuit_breaker\<close>; every method takes the instants it reads from the clock as
  arguments (\<open>Instant::now()\<close>), in the order the method reads them.
\<close>

datatype circuit_breaker_state = Closed | Open | HalfOpen

record circuit_breaker =
  cb_state :: circuit_breaker_state
  failure_count :: u32
  failure_threshold :: u32
  cooldown :: duration
  last_state_change :: instant

definition cb_new :: "instant \<Rightarrow> u32 \<Rightarrow> duration \<Rightarrow> circuit_breaker" where
  "cb_new now threshold cd =
     \<lparr>cb_state = Closed, failure_count = 0, failure_threshold = threshold,
      cooldown = cd, last_state_change = now\<rparr>"

fun state_available :: "circuit_breaker_state \<Rightarrow> bool" where
  "state_available Closed = True"
| "state_available Open = False"
| "state_available HalfOpen = True"

definition cb_is_available :: "circuit_breaker \<Rightarrow> bool" where
  "cb_is_available cb = state_available (cb_state cb)"

text \<open>\<open>elapsed()\<close> reads the clock, and so does the assignment below it.\<close>

definition try_half_open :: "instant \<Rightarrow> instant \<Rightarrow> circuit_breaker \<Rightarrow> circuit_breaker" where
  "try_half_open t_elapsed t_now cb =
     (if cb_state cb = Open \<and> cooldown cb \<le> t_elapsed - last_state_change cb
      then cb\<lparr>cb_state := HalfOpen, last_state_change := t_now\<rparr>
      else cb)"

definition record_success :: "instant \<Rightarrow> circuit_breaker \<Rightarrow> circuit_breaker" where
  "record_success now cb =
     (case cb_state cb of
        HalfOpen \<Rightarrow> cb\<lparr>cb_state := Closed, failure_count := 0, last_state_change := now\<rparr>
      | Closed \<Rightarrow> cb\<lparr>failure_count := 0\<rparr>
      | Open \<Rightarrow> cb)"

definition record_failure :: "instant \<Rightarrow> circuit_breaker \<Rightarrow> circuit_breaker" where
  "record_failure now cb =
     (case cb_state cb of
        Closed \<Rightarrow>
          (let cb1 = cb\<lparr>failure_count := failure_count cb + 1\<rparr>
           in if failure_threshold cb1 \<le> failure_count cb1
              then cb1\<lparr>cb_state := Open, last_state_change := now\<rparr>
              else cb1)
      | HalfOpen \<Rightarrow> cb\<lparr>cb_state := Open, last_state_change := now\<rparr>
      | Open \<Rightarrow> cb\<lparr>last_state_change := now\<rparr>)"

lemmas cb_defs = cb_new_def cb_is_available_def try_half_open_def record_success_def
  record_failure_def

text \<open>
  A breaker is driven by a sequence of method calls; each event carries the instants its call
  reads.
\<close>

datatype cb_event = Tick instant instant | Succ instant | Fail instant

fun cb_step :: "circuit_breaker \<Rightarrow> cb_event \<Rightarrow> circuit_breaker" where
  "cb_step cb (Tick t_elapsed t_now) = try_half_open t_elapsed t_now cb"
| "cb_step cb (Succ now) = record_success now cb"
| "cb_step cb (Fail now) = record_failure now cb"

definition cb_run :: "circuit_breaker \<Rightarrow> cb_event list \<Rightarrow> circuit_breaker" where
  "cb_run = foldl cb_step"

fun event_time :: "cb_event \<Rightarrow> instant" where
  "event_time (Tick t_elapsed t_now) = t_elapsed"
| "event_time (Succ now) = now"
| "event_time (Fail now) = now"

text \<open>The automaton of the three states, as the design describes it.\<close>

inductive cb_trans :: "circuit_breaker_state \<Rightarrow> circuit_breaker_state \<Rightarrow> bool" where
  trip: "cb_trans Closed Open"
| probe: "cb_trans Open HalfOpen"
| recover: "cb_trans HalfOpen Closed"
| reopen: "cb_trans HalfOpen Open"

inductive_simps cb_trans_from_Closed [simp]: "cb_trans Closed s"
inductive_simps cb_trans_from_Open [simp]: "cb_trans Open s"
inductive_simps cb_trans_from_HalfOpen [simp]: "cb_trans HalfOpen s"

definition cb_ok :: "circuit_breaker \<Rightarrow> bool" where
  "cb_ok cb \<longleftrightarrow> (cb_state cb = Closed \<longrightarrow> failure_count cb < failure_threshold cb)"

subsection \<open>One call\<close>

lemma cb_run_Nil [simp]: "cb_run cb [] = cb"
  by (simp add: cb_run_def)

lemma cb_run_Cons [simp]: "cb_run cb (e # es) = cb_run (cb_step cb e) es"
  by (simp add: cb_run_def)

lemma cb_run_append: "cb_run cb (es @ fs) = cb_run (cb_run cb es) fs"
  by (simp add: cb_run_def)

lemma cb_step_config [simp]:
  "failure_threshold (cb_step cb e) = failure_threshold cb"
  "cooldown (cb_step cb e) = cooldown cb"
  by (cases e; simp add: cb_defs Let_def split: circuit_breaker_state.splits)+

lemma cb_step_trans:
  "cb_state (cb_step cb e) = cb_state cb \<or> cb_trans (cb_state cb) (cb_state (cb_step cb e))"
  by (cases e; cases "cb_state cb") (auto simp: cb_defs Let_def)

lemma cb_ok_step: "0 < failure_threshold cb \<Longrightarrow> cb_ok cb \<Longrightarrow> cb_ok (cb_step cb e)"
  by (cases e; cases "cb_state cb") (auto simp: cb_ok_def cb_defs Let_def)

lemma cb_run_config [simp]:
  "failure_threshold (cb_run cb es) = failure_threshold cb"
  "cooldown (cb_run cb es) = cooldown cb"
  by (induction es arbitrary: cb) simp_all

lemma cb_ok_run: "0 < failure_threshold cb \<Longrightarrow> cb_ok cb \<Longrightarrow> cb_ok (cb_run cb es)"
  by (induction es arbitrary: cb) (simp_all add: cb_ok_step)

lemma cb_run_fail_closed:
  assumes "cb_state cb = Closed" and "unat (failure_count cb) + length ts < unat (failure_threshold cb)"
  shows "cb_state (cb_run cb (map Fail ts)) = Closed \<and>
         unat (failure_count (cb_run cb (map Fail ts))) = unat (failure_count cb) + length ts"
  using assms
proof (induction ts arbitrary: cb)
  case Nil
  then show ?case by simp
next
  case (Cons t ts)
  let ?cb1 = "record_failure t cb"
  have "Suc (unat (failure_count cb)) < 2 ^ 32"
    using Cons.prems(2) unat_lt_numeral_u32 [of "failure_threshold cb"] by simp
  then have cnt: "unat (failure_count cb + 1) = Suc (unat (failure_count cb))"
    by (intro unat_Suc_word) simp
  then have "\<not> failure_threshold cb \<le> failure_count cb + 1"
    using Cons.prems(2) by (simp add: word_le_nat_alt)
  then have "cb_state ?cb1 = Closed" "failure_count ?cb1 = failure_count cb + 1"
    using Cons.prems(1) by (simp_all add: record_failure_def Let_def)
  moreover have "failure_threshold ?cb1 = failure_threshold cb"
    using cb_step_config(1) [of cb "Fail t"] by simp
  ultimately show ?case
    using Cons.IH [of ?cb1] Cons.prems(2) cnt by simp
qed

lemma cb_run_fail_open:
  "cb_state cb = Open \<Longrightarrow> cb_state (cb_run cb (map Fail ts)) = Open"
  by (induction ts arbitrary: cb) (simp_all add: record_failure_def)

lemma cb_open_locked_step:
  assumes "cb_state cb = Open" and "last_state_change cb \<le> event_time e"
    and "event_time e < last_state_change cb + cooldown cb"
  shows "cb_state (cb_step cb e) = Open \<and> last_state_change cb \<le> last_state_change (cb_step cb e)
    \<and> last_state_change (cb_step cb e) \<le> event_time e"
  using assms by (cases e) (auto simp: cb_defs)

subsection \<open>Properties\<close>

text \<open>In every run from a new breaker with a positive threshold, a closed breaker has counted
  fewer failures than its threshold: the breaker never stays closed past the limit.\<close>

lemma cb_closed_below_threshold:
  assumes "0 < th"
  shows "cb_ok (cb_run (cb_new now th cd) es)"
  using assms by (intro cb_ok_run) (simp_all add: cb_new_def cb_ok_def)

text \<open>C16. From a new breaker, a run of uninterrupted failures leaves it closed, having counted each
  of them, as long as they are fewer than the threshold, and open from the threshold on.\<close>

theorem cb_opens_exactly_at_threshold:
  assumes "0 < th"
  shows "cb_state (cb_run (cb_new now th cd) (map Fail ts)) =
           (if length ts < unat th then Closed else Open)
    \<and> (length ts < unat th \<longrightarrow>
         unat (failure_count (cb_run (cb_new now th cd) (map Fail ts))) = length ts)"
proof (cases "length ts < unat th")
  case True
  then show ?thesis
    using cb_run_fail_closed [of "cb_new now th cd" ts] by (simp add: cb_new_def)
next
  case False
  let ?n = "unat th - 1"
  have pos: "0 < unat th" using assms by (simp add: word_less_nat_alt)
  let ?mid = "cb_run (cb_new now th cd) (map Fail (take ?n ts))"
  have mid: "cb_state ?mid = Closed" "unat (failure_count ?mid) = ?n" "failure_threshold ?mid = th"
    using cb_run_fail_closed [of "cb_new now th cd" "take ?n ts"] False pos
    by (simp_all add: cb_new_def)
  obtain t rest where split: "drop ?n ts = t # rest"
    using False pos by (cases "drop ?n ts") auto
  have "Suc (unat (failure_count ?mid)) = unat th" using mid(2) pos by simp
  then have "th \<le> failure_count ?mid + 1"
    using unat_lt_numeral_u32 [of th] by (simp add: word_le_nat_alt unat_Suc_word)
  then have "cb_state (record_failure t ?mid) = Open"
    using mid(1,3) by (simp add: record_failure_def Let_def)
  then have "cb_state (cb_run ?mid (map Fail (drop ?n ts))) = Open"
    using cb_run_fail_open [of "record_failure t ?mid" rest] split by simp
  moreover have "map Fail ts = map Fail (take ?n ts) @ map Fail (drop ?n ts)"
    by (metis append_take_drop_id map_append)
  ultimately show ?thesis using False by (simp add: cb_run_append)
qed

theorem cb_opens_exactly_at_threshold_witness:
  "cb_state (cb_run (cb_new 0 3 5) (map Fail [1, 2])) = Closed
   \<and> cb_state (cb_run (cb_new 0 3 5) (map Fail [1, 2, 3])) = Open"
  using cb_opens_exactly_at_threshold [of 3 0 5 "[1, 2]"]
    cb_opens_exactly_at_threshold [of 3 0 5 "[1, 2, 3]"] by simp

text \<open>C17. While every call reads a time before the end of the cooldown, an open breaker stays open
  and accepts no request, whatever the calls are; a failure in between restarts the cooldown.\<close>

theorem cb_open_until_cooldown:
  assumes "cb_state cb = Open"
    and "\<forall>e \<in> set es. last_state_change cb \<le> event_time e \<and>
                      event_time e < last_state_change cb + cooldown cb"
    and "sorted (map event_time es)"
  shows "cb_state (cb_run cb es) = Open \<and> \<not> cb_is_available (cb_run cb es)"
  using assms
proof (induction es arbitrary: cb)
  case Nil
  then show ?case by (simp add: cb_is_available_def)
next
  case (Cons e es)
  have st: "cb_state (cb_step cb e) = Open"
    "last_state_change cb \<le> last_state_change (cb_step cb e)"
    "last_state_change (cb_step cb e) \<le> event_time e"
    using cb_open_locked_step [of cb e] Cons.prems by auto
  then have "cb_state (cb_run (cb_step cb e) es) = Open
      \<and> \<not> cb_is_available (cb_run (cb_step cb e) es)"
    using Cons.prems by (intro Cons.IH) fastforce+
  then show ?case by simp
qed

theorem cb_open_until_cooldown_witness:
  "\<not> cb_is_available (cb_run ((cb_new 0 1 10)\<lparr>cb_state := Open\<rparr>) [Tick 5 5, Fail 6, Tick 9 9])"
  using cb_open_until_cooldown [of "(cb_new 0 1 10)\<lparr>cb_state := Open\<rparr>" "[Tick 5 5, Fail 6, Tick 9 9]"]
  by (simp add: cb_new_def)

text \<open>A run of calls that leads from an open breaker to a closed one has a prefix that ends
  half-open: there is no way back to normal operation around the probe.\<close>

lemma cb_closes_only_through_half_open:
  assumes "cb_state cb = Open" and "cb_state (cb_run cb es) = Closed"
  shows "\<exists>ds fs. es = ds @ fs \<and> cb_state (cb_run cb ds) = HalfOpen"
  using assms
proof (induction es arbitrary: cb)
  case Nil
  then show ?case by simp
next
  case (Cons e es)
  show ?case
  proof (cases "cb_state (cb_step cb e) = HalfOpen")
    case True
    then have "e # es = [e] @ es \<and> cb_state (cb_run cb [e]) = HalfOpen" by simp
    then show ?thesis by blast
  next
    case False
    then have "cb_state (cb_step cb e) = Open"
      using cb_step_trans [of cb e] Cons.prems(1) by auto
    moreover have "cb_state (cb_run (cb_step cb e) es) = Closed"
      using Cons.prems(2) by simp
    ultimately obtain ds fs where "es = ds @ fs" "cb_state (cb_run (cb_step cb e) ds) = HalfOpen"
      using Cons.IH by blast
    then have "e # es = (e # ds) @ fs \<and> cb_state (cb_run cb (e # ds)) = HalfOpen" by simp
    then show ?thesis by blast
  qed
qed

end
