(* ===== verification/Upstream.thy ===== *)
theory Upstream
  imports Circuit_Breaker
begin

text \<open>
  \<open>src/pool/mod.rs\<close>, first half: the state of one upstream and its methods. Upstreams are shared
  through \<open>Arc\<close>: a handle is an address (\<open>arc\<close>) into a store (\<open>heap\<close>), so that the pool, the health
  checker, the proxy and the admin API all update the same object. The mutex of the mutable part
  and the atomics make each method an atomic step on the store.
\<close>

datatype health_status = Healthy | Unhealthy

record upstream_mutable_state =
  health :: health_status
  breaker :: circuit_breaker
  consecutive_successes :: u32
  consecutive_failures :: u32

record upstream_state =
  us_pool_name :: string
  us_url :: string
  us_weight :: u32
  us_max_connections :: "u32 option"
  us_mutable :: upstream_mutable_state
  connection_count :: i64
  latency_ns :: u64

type_synonym arc = nat
type_synonym heap = "arc \<Rightarrow> upstream_state"

definition upstream_new ::
  "instant \<Rightarrow> string \<Rightarrow> string \<Rightarrow> u32 \<Rightarrow> u32 option \<Rightarrow> upstream_state" where
  "upstream_new now pool_name url weight max_connections =
     \<lparr>us_pool_name = pool_name, us_url = url, us_weight = weight,
      us_max_connections = max_connections,
      us_mutable =
        \<lparr>health = Unhealthy, breaker = cb_new now 5 (from_secs 30),
         consecutive_successes = 0, consecutive_failures = 0\<rparr>,
      connection_count = 0, latency_ns = 0\<rparr>"

definition is_available :: "upstream_state \<Rightarrow> bool" where
  "is_available u \<longleftrightarrow> health (us_mutable u) = Healthy \<and> cb_is_available (breaker (us_mutable u))"

definition get_health_status :: "upstream_state \<Rightarrow> health_status" where
  "get_health_status u = health (us_mutable u)"

definition get_circuit_breaker_state :: "upstream_state \<Rightarrow> circuit_breaker_state" where
  "get_circuit_breaker_state u = cb_state (breaker (us_mutable u))"

definition increment_connection_count :: "upstream_state \<Rightarrow> upstream_state" where
  "increment_connection_count u = u\<lparr>connection_count := connection_count u + 1\<rparr>"

definition decrement_connection_count :: "upstream_state \<Rightarrow> upstream_state" where
  "decrement_connection_count u = u\<lparr>connection_count := connection_count u - 1\<rparr>"

definition active_connections :: "upstream_state \<Rightarrow> int" where
  "active_connections u = sint (connection_count u)"

definition latency_us :: "upstream_state \<Rightarrow> u64" where
  "latency_us u = latency_ns u div 1000"

text \<open>Locking the mutable part and updating the breaker in place.\<close>

definition upd_mutable ::
  "(upstream_mutable_state \<Rightarrow> upstream_mutable_state) \<Rightarrow> upstream_state \<Rightarrow> upstream_state" where
  "upd_mutable f u = u\<lparr>us_mutable := f (us_mutable u)\<rparr>"

definition upd_breaker :: "(circuit_breaker \<Rightarrow> circuit_breaker) \<Rightarrow> upstream_state \<Rightarrow> upstream_state" where
  "upd_breaker f = upd_mutable (\<lambda>m. m\<lparr>breaker := f (breaker m)\<rparr>)"

definition upd_arc :: "arc \<Rightarrow> (upstream_state \<Rightarrow> upstream_state) \<Rightarrow> heap \<Rightarrow> heap" where
  "upd_arc a f h = h(a := f (h a))"

lemmas upstream_defs [gate_simps] = is_available_def increment_connection_count_def
  decrement_connection_count_def active_connections_def latency_us_def upd_mutable_def
  upd_breaker_def get_health_status_def get_circuit_breaker_state_def

lemma upd_arc_same [simp]: "upd_arc a f h a = f (h a)"
  by (simp add: upd_arc_def)

lemma upd_arc_other [simp]: "b \<noteq> a \<Longrightarrow> upd_arc a f h b = h b"
  by (simp add: upd_arc_def)

lemma upd_arc_commute: "a \<noteq> b \<Longrightarrow> upd_arc a f (upd_arc b g h) = upd_arc b g (upd_arc a f h)"
  by (auto simp: upd_arc_def)

lemma decrement_increment [simp]: "decrement_connection_count (increment_connection_count u) = u"
  by (simp add: gate_simps)

lemma is_available_increment [simp]:
  "is_available (increment_connection_count u) = is_available u"
  "is_available (decrement_connection_count u) = is_available u"
  by (simp_all add: gate_simps)

lemma new_upstream_unavailable [simp]: "\<not> is_available (upstream_new now p u w mc)"
  by (simp add: is_available_def upstream_new_def)

end
