(* ===== verification/Gate_Config.thy ===== *)
theory Gate_Config
  imports Gate_Prelude
begin

text \<open>
  \<open>src/config/mod.rs\<close> and \<open>src/config/validate.rs\<close>: the configuration structs with their default
  values, loading, and validation. Reading the file and the TOML deserializer (\<open>std::fs\<close>,
  \<open>toml\<close>) are parameters of \<open>config_load\<close>; the error value is the message of the \<open>anyhow\<close>
  error. Field names carry a prefix for their struct where two structs share a name.
\<close>

subsection \<open>Enums\<close>

datatype log_level = Trace | Debug | Info | Warn | Error
datatype log_format = Json | Pretty
datatype load_balancing_algorithm = Wrr | Lc | Random
datatype rate_limit_store = RateMemory | RateRedis
datatype key_store_kind = KeySqlite | KeyRedis
datatype cache_backend = CacheMemory | CacheRedis
datatype tls_version = Tls12 | Tls13

fun log_level_as_str :: "log_level \<Rightarrow> string" where
  "log_level_as_str Trace = ''trace''"
| "log_level_as_str Debug = ''debug''"
| "log_level_as_str Info = ''info''"
| "log_level_as_str Warn = ''warn''"
| "log_level_as_str Error = ''error''"

text \<open>\<open>std::net::SocketAddr\<close>: the octets (or segments) of an address, and a port.\<close>

datatype socket_addr = V4 "u8 list" u16 | V6 "u16 list" u16

subsection \<open>Default values\<close>

definition default_bind :: socket_addr where
  "default_bind = V4 [0, 0, 0, 0] 8080"

definition default_admin_bind :: socket_addr where
  "default_admin_bind = V4 [127, 0, 0, 1] 9000"

definition default_metrics_bind :: socket_addr where
  "default_metrics_bind = V4 [0, 0, 0, 0] 9090"

definition default_request_timeout_ms :: u64 where "default_request_timeout_ms = 30000"
definition default_max_connections :: u32 where "default_max_connections = 50000"
definition default_worker_threads :: u64 where "default_worker_threads = 0"
definition default_true :: bool where "default_true = True"
definition default_weight :: u32 where "default_weight = 1"
definition default_health_interval_ms :: u64 where "default_health_interval_ms = 5000"
definition default_health_timeout_ms :: u64 where "default_health_timeout_ms = 2000"
definition default_healthy_threshold :: u32 where "default_healthy_threshold = 2"
definition default_unhealthy_threshold :: u32 where "default_unhealthy_threshold = 3"
definition default_health_method :: string where "default_health_method = ''getHealth''"
definition default_warm_up_window_secs :: u64 where "default_warm_up_window_secs = 30"
definition default_default_pool :: string where "default_default_pool = ''default''"
definition default_ip_fallback_rps :: u32 where "default_ip_fallback_rps = 5"
definition default_ip_fallback_burst :: u32 where "default_ip_fallback_burst = 10"
definition default_db_path :: string where "default_db_path = ''./sorobangate.db''"
definition default_max_memory_mb :: u64 where "default_max_memory_mb = 512"
definition default_metrics_enabled :: bool where "default_metrics_enabled = True"

lemmas config_defaults = default_bind_def default_admin_bind_def default_metrics_bind_def
  default_request_timeout_ms_def default_max_connections_def default_worker_threads_def
  default_true_def default_weight_def default_health_interval_ms_def default_health_timeout_ms_def
  default_healthy_threshold_def default_unhealthy_threshold_def default_health_method_def
  default_warm_up_window_secs_def default_default_pool_def default_ip_fallback_rps_def
  default_ip_fallback_burst_def default_db_path_def default_max_memory_mb_def
  default_metrics_enabled_def

subsection \<open>Structs\<close>

record server_config =
  srv_bind :: socket_addr
  admin_bind :: socket_addr
  metrics_bind :: socket_addr
  srv_log_level :: log_level
  srv_log_format :: log_format
  request_timeout_ms :: u64
  server_max_connections :: u32
  worker_threads :: u64

definition server_config_default :: server_config where
  "server_config_default =
     \<lparr>srv_bind = default_bind, admin_bind = default_admin_bind, metrics_bind = default_metrics_bind,
      srv_log_level = Info, srv_log_format = Json, request_timeout_ms = default_request_timeout_ms,
      server_max_connections = default_max_connections, worker_threads = default_worker_threads\<rparr>"

record tls_config =
  tls_enabled :: bool
  cert_file :: string
  key_file :: string
  min_version :: tls_version

definition tls_config_default :: tls_config where
  "tls_config_default =
     \<lparr>tls_enabled = False, cert_file = '''', key_file = '''', min_version = Tls12\<rparr>"

record upstream_config =
  uc_url :: string
  uc_weight :: u32
  uc_max_connections :: "u32 option"

record pool_config =
  pc_name :: string
  pc_algorithm :: load_balancing_algorithm
  pc_upstreams :: "upstream_config list"

record health_check_config =
  interval_ms :: u64
  timeout_ms :: u64
  healthy_threshold :: u32
  unhealthy_threshold :: u32
  health_method :: string
  warm_up_window_secs :: u64

definition health_check_config_default :: health_check_config where
  "health_check_config_default =
     \<lparr>interval_ms = default_health_interval_ms, timeout_ms = default_health_timeout_ms,
      healthy_threshold = default_healthy_threshold,
      unhealthy_threshold = default_unhealthy_threshold,
      health_method = default_health_method, warm_up_window_secs = default_warm_up_window_secs\<rparr>"

record routing_rule =
  rr_methods :: "string list"
  rr_pool :: string

record routing_config =
  rc_default_pool :: string
  rc_rules :: "routing_rule list"

definition routing_config_default :: routing_config where
  "routing_config_default = \<lparr>rc_default_pool = default_default_pool, rc_rules = []\<rparr>"

record rate_limit_config =
  rl_enabled :: bool
  rl_store :: rate_limit_store
  ip_fallback_rps :: u32
  ip_fallback_burst :: u32

definition rate_limit_config_default :: rate_limit_config where
  "rate_limit_config_default =
     \<lparr>rl_enabled = True, rl_store = RateMemory, ip_fallback_rps = default_ip_fallback_rps,
      ip_fallback_burst = default_ip_fallback_burst\<rparr>"

record key_tier =
  kt_name :: string
  requests_per_second :: u32
  kt_burst :: u32
  daily_limit :: u64

record auth_config =
  auth_enabled :: bool
  allow_unauthenticated :: bool
  auth_key_store :: key_store_kind
  db_path :: string
  tiers :: "key_tier list"

definition auth_config_default :: auth_config where
  "auth_config_default =
     \<lparr>auth_enabled = True, allow_unauthenticated = True, auth_key_store = KeySqlite,
      db_path = default_db_path, tiers = []\<rparr>"

record cache_rule =
  cr_methods :: "string list"
  ttl_secs :: u64

record cache_config =
  cache_enabled :: bool
  cc_backend :: cache_backend
  max_memory_mb :: u64
  redis_url :: "string option"
  cc_rules :: "cache_rule list"

definition cache_config_default :: cache_config where
  "cache_config_default =
     \<lparr>cache_enabled = True, cc_backend = CacheMemory, max_memory_mb = default_max_memory_mb,
      redis_url = None, cc_rules = []\<rparr>"

record telemetry_config =
  metrics_enabled :: bool
  tracing_enabled :: bool
  otlp_endpoint :: "string option"

definition telemetry_config_default :: telemetry_config where
  "telemetry_config_default =
     \<lparr>metrics_enabled = True, tracing_enabled = False, otlp_endpoint = None\<rparr>"

record config =
  cfg_server :: server_config
  cfg_tls :: tls_config
  cfg_pools :: "pool_config list"
  cfg_health_check :: health_check_config
  cfg_routing :: routing_config
  cfg_rate_limit :: rate_limit_config
  cfg_auth :: auth_config
  cfg_cache :: cache_config
  cfg_telemetry :: telemetry_config

text \<open>\<open>Config\<close> has no \<open>Default\<close> of its own in the source. This is the record of the defaults of its sections, which
  the examples below start from; that an empty file is read as this configuration is shown in \<open>Gate_Toml\<close>.\<close>

definition config_default :: config where
  "config_default =
     \<lparr>cfg_server = server_config_default, cfg_tls = tls_config_default, cfg_pools = [],
      cfg_health_check = health_check_config_default, cfg_routing = routing_config_default,
      cfg_rate_limit = rate_limit_config_default, cfg_auth = auth_config_default,
      cfg_cache = cache_config_default, cfg_telemetry = telemetry_config_default\<rparr>"

lemmas config_struct_defaults = server_config_default_def tls_config_default_def
  health_check_config_default_def routing_config_default_def rate_limit_config_default_def
  auth_config_default_def cache_config_default_def telemetry_config_default_def config_default_def

subsection \<open>Loading\<close>

definition config_load ::
  "(string \<Rightarrow> string + string) \<Rightarrow> (string \<Rightarrow> string + config) \<Rightarrow> string \<Rightarrow> string + config" where
  "config_load read_to_string toml_from_str path =
     (case read_to_string path of
        Inl e \<Rightarrow> Inl (''Failed to read config file '' @ quoted path @ '': '' @ e)
      | Inr contents \<Rightarrow>
          (case toml_from_str contents of
             Inl e \<Rightarrow> Inl (''Failed to parse config file '' @ quoted path @ '': '' @ e)
           | Inr config \<Rightarrow> Inr config))"

subsection \<open>Validation\<close>

definition validate_upstream :: "pool_config \<Rightarrow> upstream_config \<Rightarrow> string + unit" where
  "validate_upstream pool upstream =
     ensure (0 < uc_weight upstream)
       (''Upstream '' @ quoted (uc_url upstream) @ '' in pool '' @ quoted (pc_name pool)
          @ '' must have weight > 0'')"

definition validate_pool :: "pool_config \<Rightarrow> string + unit" where
  "validate_pool pool =
     try_then (ensure (pc_upstreams pool \<noteq> [])
         (''Pool '' @ quoted (pc_name pool) @ '' has no upstreams defined''))
       (\<lambda>_. for_each (validate_upstream pool) (pc_upstreams pool))"

definition validate_rule :: "string list \<Rightarrow> routing_rule \<Rightarrow> string + unit" where
  "validate_rule pool_names rule =
     try_then (ensure (rr_methods rule \<noteq> [])
         (''Routing rule for pool '' @ quoted (rr_pool rule) @ '' has no methods defined''))
       (\<lambda>_. ensure (rr_pool rule \<in> set pool_names)
         (''Routing rule references unknown pool '' @ quoted (rr_pool rule)))"

definition validate :: "config \<Rightarrow> string + unit" where
  "validate config =
     try_then (ensure (cfg_pools config \<noteq> []) ''At least one upstream pool is required'') (\<lambda>_.
     try_then (for_each validate_pool (cfg_pools config)) (\<lambda>_.
     try_then (ensure (0 < healthy_threshold (cfg_health_check config))
       ''health_check.healthy_threshold must be > 0'') (\<lambda>_.
     try_then (ensure (0 < unhealthy_threshold (cfg_health_check config))
       ''health_check.unhealthy_threshold must be > 0'') (\<lambda>_.
     try_then (ensure (health_method (cfg_health_check config) \<noteq> [])
       ''health_check.method must not be empty'') (\<lambda>_.
     let pool_names = map pc_name (cfg_pools config) in
     try_then (ensure (rc_default_pool (cfg_routing config) \<in> set pool_names)
       (''routing.default_pool '' @ quoted (rc_default_pool (cfg_routing config))
          @ '' does not match any defined pool'')) (\<lambda>_.
     try_then (for_each (validate_rule pool_names) (rc_rules (cfg_routing config))) (\<lambda>_.
     try_then (if cache_enabled (cfg_cache config) \<and> cc_backend (cfg_cache config) = CacheRedis
       then ensure (redis_url (cfg_cache config) \<noteq> None)
         (''cache.redis_url is required when cache backend is '' @ quoted ''redis'') else Inr ()) (\<lambda>_.
     try_then (if rl_enabled (cfg_rate_limit config) \<and> rl_store (cfg_rate_limit config) = RateRedis
       then ensure (redis_url (cfg_cache config) \<noteq> None)
         (''cache.redis_url is required when rate_limit store is '' @ quoted ''redis'') else Inr ()) (\<lambda>_.
     if auth_enabled (cfg_auth config) \<and> auth_key_store (cfg_auth config) = KeyRedis
       then ensure (redis_url (cfg_cache config) \<noteq> None)
         (''cache.redis_url is required when auth key_store is '' @ quoted ''redis'') else Inr ())))))))))"

text \<open>What a valid configuration is, without an order of checks.\<close>

definition config_valid :: "config \<Rightarrow> bool" where
  "config_valid c \<longleftrightarrow>
     cfg_pools c \<noteq> []
   \<and> (\<forall>p \<in> set (cfg_pools c). pc_upstreams p \<noteq> [] \<and> (\<forall>u \<in> set (pc_upstreams p). 0 < uc_weight u))
   \<and> 0 < healthy_threshold (cfg_health_check c) \<and> 0 < unhealthy_threshold (cfg_health_check c)
   \<and> health_method (cfg_health_check c) \<noteq> []
   \<and> rc_default_pool (cfg_routing c) \<in> pc_name ` set (cfg_pools c)
   \<and> (\<forall>r \<in> set (rc_rules (cfg_routing c)).
        rr_methods r \<noteq> [] \<and> rr_pool r \<in> pc_name ` set (cfg_pools c))
   \<and> (redis_url (cfg_cache c) = None \<longrightarrow>
        \<not> (cache_enabled (cfg_cache c) \<and> cc_backend (cfg_cache c) = CacheRedis)
      \<and> \<not> (rl_enabled (cfg_rate_limit c) \<and> rl_store (cfg_rate_limit c) = RateRedis)
      \<and> \<not> (auth_enabled (cfg_auth c) \<and> auth_key_store (cfg_auth c) = KeyRedis))"

lemma validate_pool_ok:
  "validate_pool p = Inr () \<longleftrightarrow>
     pc_upstreams p \<noteq> [] \<and> (\<forall>u \<in> set (pc_upstreams p). 0 < uc_weight u)"
  by (simp add: validate_pool_def validate_upstream_def try_then_Inr_iff for_each_Inr_iff)

lemma validate_rule_ok:
  "validate_rule names r = Inr () \<longleftrightarrow> rr_methods r \<noteq> [] \<and> rr_pool r \<in> set names"
  by (simp add: validate_rule_def try_then_Inr_iff)

lemma validate_ok: "validate c = Inr () \<longleftrightarrow> config_valid c"
  unfolding validate_def config_valid_def Let_def
  by (auto simp: try_then_Inr_iff for_each_Inr_iff validate_pool_ok validate_rule_ok)

lemma config_valid_default_pool:
  "config_valid c \<Longrightarrow> rc_default_pool (cfg_routing c) \<in> pc_name ` set (cfg_pools c)"
  by (simp add: config_valid_def)

lemma config_valid_rule_pool:
  "config_valid c \<Longrightarrow> r \<in> set (rc_rules (cfg_routing c)) \<Longrightarrow> rr_pool r \<in> pc_name ` set (cfg_pools c)"
  by (simp add: config_valid_def)

text \<open>A gateway with one pool of one upstream, everything else at its default.\<close>

definition example_upstream :: upstream_config where
  "example_upstream = \<lparr>uc_url = ''http://rpc:8000'', uc_weight = 1, uc_max_connections = None\<rparr>"

definition example_pool :: pool_config where
  "example_pool = \<lparr>pc_name = ''default'', pc_algorithm = Wrr, pc_upstreams = [example_upstream]\<rparr>"

definition example_config :: config where
  "example_config = config_default\<lparr>cfg_pools := [example_pool]\<rparr>"

lemmas example_defs = example_upstream_def example_pool_def example_config_def

text \<open>Validation accepts a configuration exactly when it satisfies the declarative reading of
  the checks.\<close>

lemma validate_iff_config_valid: "validate c = Inr () \<longleftrightarrow> config_valid c"
  by (rule validate_ok)

lemma example_config_valid: "config_valid example_config"
  by (simp add: config_valid_def example_defs config_struct_defaults config_defaults)

end
