(* ===== verification/Balancer.thy ===== *)
theory Balancer
  imports Upstream Gate_Config "HOL-Library.Multiset"
begin

text \<open>
  \<open>src/pool/balancer.rs\<close>: the three load balancing algorithms. A random index from
  \<open>gen_range(0..n)\<close> is \<open>r mod n\<close> for an arbitrary number \<open>r\<close>: every index below \<open>n\<close> is possible
  and no other.
\<close>

subsection \<open>The algorithms\<close>

fun weighted_from :: "heap \<Rightarrow> nat \<Rightarrow> arc list \<Rightarrow> nat list" where
  "weighted_from h i [] = []"
| "weighted_from h i (u # us) =
     replicate (unat (max (us_weight (h u)) 1)) i @ weighted_from h (Suc i) us"

definition weighted_round_robin :: "heap \<Rightarrow> arc list \<Rightarrow> u64 \<Rightarrow> arc option \<times> u64" where
  "weighted_round_robin h healthy counter =
     (if healthy = [] then (None, counter)
      else let weighted = weighted_from h 0 healthy
           in if weighted = [] then (None, counter)
              else let idx = weighted ! (unat counter mod length weighted)
                   in (Some (healthy ! idx), counter + 1))"

text \<open>\<open>min_by_key\<close> keeps the earlier of two equal elements.\<close>

fun min_by_connections :: "heap \<Rightarrow> arc \<Rightarrow> arc list \<Rightarrow> arc" where
  "min_by_connections h best [] = best"
| "min_by_connections h best (u # us) =
     min_by_connections h
       (if active_connections (h u) < active_connections (h best) then u else best) us"

fun least_connections :: "heap \<Rightarrow> arc list \<Rightarrow> arc option" where
  "least_connections h [] = None"
| "least_connections h (u # us) = Some (min_by_connections h u us)"

definition random_choice :: "nat \<Rightarrow> arc list \<Rightarrow> arc option" where
  "random_choice r healthy =
     (if healthy = [] then None else Some (healthy ! (r mod length healthy)))"

definition select ::
  "heap \<Rightarrow> arc list \<Rightarrow> load_balancing_algorithm \<Rightarrow> nat \<Rightarrow> u64 \<Rightarrow> arc option \<times> u64" where
  "select h healthy algorithm r wrr_counter =
     (case algorithm of
        Wrr \<Rightarrow> weighted_round_robin h healthy wrr_counter
      | Lc \<Rightarrow> (least_connections h healthy, wrr_counter)
      | Random \<Rightarrow> (random_choice r healthy, wrr_counter))"

text \<open>The structs that implement the trait \<open>LoadBalancer\<close>; one of them owns its counter.\<close>

datatype load_balancer = WeightedRoundRobin u64 | LeastConnections | RandomBalancer

fun balancer_select :: "heap \<Rightarrow> arc list \<Rightarrow> nat \<Rightarrow> load_balancer \<Rightarrow> arc option \<times> load_balancer" where
  "balancer_select h healthy r (WeightedRoundRobin c) =
     (let (u, c') = weighted_round_robin h healthy c in (u, WeightedRoundRobin c'))"
| "balancer_select h healthy r LeastConnections = (least_connections h healthy, LeastConnections)"
| "balancer_select h healthy r RandomBalancer = (random_choice r healthy, RandomBalancer)"

text \<open>A sequence of selections from the same healthy set, sharing one counter.\<close>

fun wrr_run :: "heap \<Rightarrow> arc list \<Rightarrow> nat \<Rightarrow> u64 \<Rightarrow> arc option list" where
  "wrr_run h healthy 0 counter = []"
| "wrr_run h healthy (Suc n) counter =
     (let (u, c) = weighted_round_robin h healthy counter in u # wrr_run h healthy n c)"

subsection \<open>The contract of a balancer\<close>

locale balancer =
  fixes pick :: "heap \<Rightarrow> arc list \<Rightarrow> 's \<Rightarrow> arc option \<times> 's"
  assumes pick_None: "fst (pick h healthy s) = None \<longleftrightarrow> healthy = []"
    and pick_in: "fst (pick h healthy s) = Some a \<Longrightarrow> a \<in> set healthy"
begin

lemma pick_filter:
  "fst (pick h (filter P us) s) = Some a \<Longrightarrow> a \<in> set us \<and> P a"
  using pick_in [of h "filter P us" s a] by simp

lemma pick_filter_None:
  "fst (pick h (filter P us) s) = None \<longleftrightarrow> (\<forall>a \<in> set us. \<not> P a)"
  by (simp add: pick_None filter_empty_conv)

end

lemma unat_max_1_pos: "0 < unat (max (w :: u32) 1)"
proof -
  have "(0 :: u32) < max w 1" by (simp add: less_max_iff_disj)
  then show ?thesis by (simp add: word_less_nat_alt)
qed

lemma weighted_from_nonempty [simp]: "weighted_from h i us = [] \<longleftrightarrow> us = []"
  by (cases us) (simp_all add: unat_max_1_pos [THEN gr_implies_not0])

lemma weighted_from_range: "j \<in> set (weighted_from h i us) \<Longrightarrow> i \<le> j \<and> j < i + length us"
  by (induction us arbitrary: i) (fastforce split: if_splits)+

lemma wrr_nonempty:
  assumes "healthy \<noteq> []"
  shows "weighted_round_robin h healthy c =
    (Some (healthy ! (weighted_from h 0 healthy ! (unat c mod length (weighted_from h 0 healthy)))), c + 1)"
  using assms by (simp add: weighted_round_robin_def Let_def)

lemma wrr_index_in_range:
  assumes "healthy \<noteq> []"
  shows "weighted_from h 0 healthy ! (n mod length (weighted_from h 0 healthy)) < length healthy"
proof -
  have "weighted_from h 0 healthy ! (n mod length (weighted_from h 0 healthy)) \<in> set (weighted_from h 0 healthy)"
    using assms by (intro nth_mem) simp
  then show ?thesis using weighted_from_range [of _ h 0 healthy] by simp
qed

lemma min_by_connections_in: "min_by_connections h b us \<in> insert b (set us)"
  by (induction us arbitrary: b) (auto split: if_splits)

interpretation wrr: balancer weighted_round_robin
proof unfold_locales
  show "fst (weighted_round_robin h healthy s) = None \<longleftrightarrow> healthy = []" for h healthy s
    by (simp add: weighted_round_robin_def Let_def)
  show "a \<in> set healthy" if "fst (weighted_round_robin h healthy s) = Some a" for h healthy s a
  proof -
    have "healthy \<noteq> []" using that by (auto simp: weighted_round_robin_def)
    then show ?thesis using that wrr_index_in_range by (auto simp: wrr_nonempty)
  qed
qed

interpretation lc: balancer "\<lambda>h healthy s. (least_connections h healthy, s)"
proof unfold_locales
  show "fst (least_connections h healthy, s) = None \<longleftrightarrow> healthy = []" for h healthy and s :: 's
    by (cases healthy) simp_all
  show "a \<in> set healthy" if "fst (least_connections h healthy, s) = Some a" for h healthy a and s :: 's
    using that min_by_connections_in by (cases healthy) auto
qed

interpretation rnd: balancer "\<lambda>h healthy r. (random_choice r healthy, r)"
  by unfold_locales (auto simp: random_choice_def split: if_splits)

text \<open>The dispatch on the configured algorithm, with the algorithm and the random number carried
  along as state.\<close>

fun select_state :: "heap \<Rightarrow> arc list \<Rightarrow> load_balancing_algorithm \<times> nat \<times> u64
    \<Rightarrow> arc option \<times> load_balancing_algorithm \<times> nat \<times> u64" where
  "select_state h healthy (alg, r, c) = (let (u, c') = select h healthy alg r c in (u, alg, r, c'))"

lemma fst_select_state [simp]:
  "fst (select_state h healthy (alg, r, c)) = fst (select h healthy alg r c)"
  by (simp add: split_beta)

interpretation sel: balancer select_state
proof unfold_locales
  fix h healthy a and s :: "load_balancing_algorithm \<times> nat \<times> u64"
  obtain alg r c where s: "s = (alg, r, c)" by (cases s)
  show "fst (select_state h healthy s) = None \<longleftrightarrow> healthy = []"
    using wrr.pick_None [of h healthy c] lc.pick_None [of h healthy] rnd.pick_None [of r healthy]
    unfolding s fst_select_state by (cases alg) (simp_all add: select_def)
  show "a \<in> set healthy" if "fst (select_state h healthy s) = Some a"
    using that wrr.pick_in [of h healthy c a] lc.pick_in [of h healthy a] rnd.pick_in [of r healthy a]
    unfolding s fst_select_state by (cases alg) (simp_all add: select_def)
qed

subsection \<open>Weighted round robin\<close>

lemma map_nth_mod_rotate:
  "map (\<lambda>j. xs ! ((c + j) mod length xs)) [0..<length xs] = rotate c xs"
  by (rule nth_equalityI) (simp_all add: nth_rotate)

lemma mset_cycle:
  "mset (map (\<lambda>j. xs ! ((c + j) mod length xs)) [0..<length xs]) = mset xs"
proof -
  have "mset (rotate c xs) = mset (drop (c mod length xs) xs) + mset (take (c mod length xs) xs)"
    by (simp add: rotate_drop_take)
  also have "\<dots> = mset (take (c mod length xs) xs @ drop (c mod length xs) xs)"
    by (simp only: mset_append union_commute)
  finally show ?thesis by (simp only: map_nth_mod_rotate append_take_drop_id)
qed

lemma map_cycles:
  "map (\<lambda>j. xs ! ((c + j) mod length xs)) [0..<Suc k * length xs] =
   map (\<lambda>j. xs ! ((c + j) mod length xs)) [0..<length xs] @
   map (\<lambda>j. xs ! ((c + j) mod length xs)) [0..<k * length xs]"
proof -
  let ?n = "length xs"
  have "[0..<Suc k * ?n] = [0..<?n] @ map (\<lambda>j. j + ?n) [0..<k * ?n]"
    using upt_add_eq_append [of 0 ?n "k * ?n"] map_add_upt [of ?n "k * ?n"] by (simp add: add.commute)
  moreover have "(c + (j + ?n)) mod ?n = (c + j) mod ?n" for j
    by (simp flip: add.assoc)
  ultimately show ?thesis by simp
qed

lemma count_cycles:
  "count (mset (map (\<lambda>j. xs ! ((c + j) mod length xs)) [0..<k * length xs])) x = k * count (mset xs) x"
proof (induction k)
  case (Suc k)
  then show ?case
    using mset_cycle [of xs c] by (simp only: map_cycles mset_append count_union) simp
qed simp

lemma count_weighted_from:
  "count (mset (weighted_from h i us)) j =
     (if i \<le> j \<and> j < i + length us then unat (max (us_weight (h (us ! (j - i)))) 1) else 0)"
proof (induction us arbitrary: i)
  case (Cons u us)
  show ?case
  proof (cases "j = i")
    case True
    have "i \<notin> set (weighted_from h (Suc i) us)"
      using weighted_from_range [of i h "Suc i" us] by auto
    then show ?thesis using True by simp
  next
    case False
    then have c: "count (mset (weighted_from h i (u # us))) j = count (mset (weighted_from h (Suc i) us)) j"
      by simp
    have "(u # us) ! (j - i) = us ! (j - Suc i)" if "i < j"
      using that by (simp add: nth_Cons' Suc_diff_Suc [symmetric])
    then show ?thesis using False unfolding c Cons.IH by auto
  qed
qed simp

text \<open>The indices that a run reads while the counter does not wrap.\<close>

lemma wrr_run_indices:
  assumes "healthy \<noteq> []" and "unat c + n \<le> 2 ^ 64"
  shows "wrr_run h healthy n c =
    map (\<lambda>j. Some (healthy ! (weighted_from h 0 healthy ! ((unat c + j) mod length (weighted_from h 0 healthy)))))
      [0..<n]"
  using assms(2)
proof (induction n arbitrary: c)
  case (Suc n)
  show ?case
  proof (cases n)
    case 0
    then show ?thesis using assms(1) by (simp add: wrr_nonempty)
  next
    case (Suc m)
    then have "unat (c + 1) = Suc (unat c)" using Suc.prems by (intro unat_Suc_word) simp
    then show ?thesis
      using Suc.IH [of "c + 1"] Suc.prems assms(1) by (simp add: wrr_nonempty upt_conv_Cons map_Suc_upt [symmetric] del: upt_Suc)
  qed
qed simp

lemma wrr_run_picks:
  assumes "healthy \<noteq> []" and "unat c + n \<le> 2 ^ 64"
  shows "wrr_run h healthy n c =
    map (\<lambda>i. Some (healthy ! i))
      (map (\<lambda>j. weighted_from h 0 healthy ! ((unat c + j) mod length (weighted_from h 0 healthy))) [0..<n])"
  using wrr_run_indices [OF assms] by simp

lemma count_map_inj_on:
  assumes "inj_on f A" and "set xs \<subseteq> A" and "x \<in> A"
  shows "count (mset (map f xs)) (f x) = count (mset xs) x"
  using assms(2)
  by (induction xs) (use assms(1,3) in \<open>auto simp: inj_on_def\<close>)

subsection \<open>Properties\<close>

text \<open>C19. Weighted round robin is exactly fair: over any \<open>k\<close> full cycles, from any position of the
  counter that does not wrap on the way, each healthy upstream is selected \<open>k\<close> times its weight
  (a weight of zero counting as one).\<close>

theorem wrr_exactly_proportional:
  assumes "distinct healthy" and "i < length healthy"
    and "unat c + k * length (weighted_from h 0 healthy) \<le> 2 ^ 64"
  shows "count (mset (wrr_run h healthy (k * length (weighted_from h 0 healthy)) c)) (Some (healthy ! i))
    = k * unat (max (us_weight (h (healthy ! i))) 1)"
proof -
  let ?w = "weighted_from h 0 healthy" and ?f = "\<lambda>i. Some (healthy ! i)"
  let ?js = "map (\<lambda>j. ?w ! ((unat c + j) mod length ?w)) [0..<k * length ?w]"
  have ne: "healthy \<noteq> []" using assms(2) by auto
  have "inj_on ?f {..<length healthy}"
    using assms(1) by (auto simp: inj_on_def nth_eq_iff_index_eq)
  moreover have "set ?js \<subseteq> {..<length healthy}" using wrr_index_in_range [OF ne] by auto
  ultimately have "count (mset (map ?f ?js)) (?f i) = count (mset ?js) i"
    using assms(2) by (intro count_map_inj_on) auto
  also have "\<dots> = k * unat (max (us_weight (h (healthy ! i))) 1)"
    using assms(2) by (simp only: count_cycles count_weighted_from) simp
  finally show ?thesis using wrr_run_picks [OF ne assms(3)] by simp
qed

definition two_upstreams :: heap where
  "two_upstreams a = upstream_new 0 ''p'' ''u'' (if a = 0 then 3 else 1) None"

theorem wrr_exactly_proportional_witness:
  "count (mset (wrr_run two_upstreams [0, 1] (2 * length (weighted_from two_upstreams 0 [0, 1])) 7)) (Some ([0, 1] ! 0)) = 2 * 3"
proof -
  have m: "unat (max (us_weight (two_upstreams ([0, 1] ! 0))) 1) = 3"
    by (simp add: two_upstreams_def upstream_new_def max_def word_le_nat_alt)
  have "unat (7 :: u64) + 2 * length (weighted_from two_upstreams 0 [0, 1]) \<le> 2 ^ 64"
    by (simp add: two_upstreams_def upstream_new_def max_def word_le_nat_alt)
  then show ?thesis
    using wrr_exactly_proportional [of "[0, 1]" 0 7 2 two_upstreams] unfolding m by fastforce
qed

lemma min_by_connections_first:
  assumes "\<forall>x \<in> set ps. active_connections (h b) < active_connections (h x)"
    and "\<forall>x \<in> set qs. active_connections (h b) \<le> active_connections (h x)"
    and "m = min_by_connections h b us"
  shows "\<exists>xs ys. ps @ b # qs @ us = xs @ m # ys
    \<and> (\<forall>x \<in> set xs. active_connections (h m) < active_connections (h x))
    \<and> (\<forall>y \<in> set ys. active_connections (h m) \<le> active_connections (h y))"
  using assms
proof (induction us arbitrary: ps b qs)
  case Nil
  then show ?case by auto
next
  case (Cons u us)
  show ?case
  proof (cases "active_connections (h u) < active_connections (h b)")
    case True
    then have "\<forall>x \<in> set (ps @ b # qs). active_connections (h u) < active_connections (h x)"
      using Cons.prems(1,2) by fastforce
    then show ?thesis
      using Cons.IH [of "ps @ b # qs" u "[]"] Cons.prems(3) True by simp
  next
    case False
    then show ?thesis
      using Cons.IH [of ps b "qs @ [u]"] Cons.prems by simp
  qed
qed

text \<open>C20. Least connections selects an upstream with the fewest active connections, and the first
  such upstream of the list: every earlier one has strictly more.\<close>

theorem least_connections_first_minimum:
  assumes "least_connections h healthy = Some a"
  shows "\<exists>xs ys. healthy = xs @ a # ys
    \<and> (\<forall>x \<in> set xs. active_connections (h a) < active_connections (h x))
    \<and> (\<forall>y \<in> set ys. active_connections (h a) \<le> active_connections (h y))"
proof (cases healthy)
  case Nil
  then show ?thesis using assms by simp
next
  case (Cons u us)
  then show ?thesis using min_by_connections_first [of "[]" h u "[]" a us] assms by simp
qed

definition three_upstreams :: heap where
  "three_upstreams a = (upstream_new 0 ''p'' ''u'' 1 None)\<lparr>connection_count := (if a = 0 then 4 else 2)\<rparr>"

theorem least_connections_first_minimum_witness:
  "\<exists>xs ys. [0, 1, 2] = xs @ 1 # ys
    \<and> (\<forall>x \<in> set xs. active_connections (three_upstreams 1) < active_connections (three_upstreams x))
    \<and> (\<forall>y \<in> set ys. active_connections (three_upstreams 1) \<le> active_connections (three_upstreams y))"
proof -
  have "least_connections three_upstreams [0, 1, 2] = Some 1"
    by (simp add: active_connections_def three_upstreams_def)
  then show ?thesis by (rule least_connections_first_minimum)
qed

end
