(* ===== verification/Upstream_Pool.thy ===== *)
theory Upstream_Pool
  imports Balancer
begin

text \<open>
  \<open>src/pool/mod.rs\<close>, second half: a named pool of upstream handles, the filter of available
  upstreams, selection, and the construction of the pools from the configuration. Construction
  allocates one object per configured upstream; \<open>clock a\<close> is the instant that
  \<open>UpstreamState::new\<close> reads for the object at address \<open>a\<close>.
\<close>

record upstream_pool =
  up_name :: string
  up_upstreams :: "arc list"
  up_algorithm :: load_balancing_algorithm
  wrr_counter :: u64

definition healthy_upstreams :: "heap \<Rightarrow> upstream_pool \<Rightarrow> arc list" where
  "healthy_upstreams h pool = filter (\<lambda>a. is_available (h a)) (up_upstreams pool)"

definition all_upstreams :: "upstream_pool \<Rightarrow> arc list" where
  "all_upstreams pool = up_upstreams pool"

definition select_upstream :: "heap \<Rightarrow> nat \<Rightarrow> upstream_pool \<Rightarrow> arc option \<times> upstream_pool" where
  "select_upstream h r pool =
     (let healthy = healthy_upstreams h pool
      in if healthy = [] then (None, pool)
         else let (u, c) = select h healthy (up_algorithm pool) r (wrr_counter pool)
              in (u, pool\<lparr>wrr_counter := c\<rparr>))"

fun create_upstreams ::
  "(arc \<Rightarrow> instant) \<Rightarrow> string \<Rightarrow> upstream_config list \<Rightarrow> heap \<times> arc \<Rightarrow> arc list \<times> heap \<times> arc" where
  "create_upstreams clock name [] (h, next) = ([], h, next)"
| "create_upstreams clock name (u # us) (h, next) =
     (let h1 = h(next := upstream_new (clock next) name (uc_url u) (uc_weight u) (uc_max_connections u));
          (arcs, rest) = create_upstreams clock name us (h1, Suc next)
      in (next # arcs, rest))"

fun create_pool_list ::
  "(arc \<Rightarrow> instant) \<Rightarrow> pool_config list \<Rightarrow> heap \<times> arc \<Rightarrow> upstream_pool list \<times> heap \<times> arc" where
  "create_pool_list clock [] s = ([], s)"
| "create_pool_list clock (p # ps) s =
     (let (arcs, s1) = create_upstreams clock (pc_name p) (pc_upstreams p) s;
          (pools, s2) = create_pool_list clock ps s1
      in (\<lparr>up_name = pc_name p, up_upstreams = arcs, up_algorithm = pc_algorithm p, wrr_counter = 0\<rparr>
            # pools, s2))"

definition create_pools ::
  "(arc \<Rightarrow> instant) \<Rightarrow> config \<Rightarrow> heap \<times> arc \<Rightarrow> upstream_pool list \<times> heap \<times> arc" where
  "create_pools clock config s = create_pool_list clock (cfg_pools config) s"

subsection \<open>Selection\<close>

lemma set_healthy_upstreams:
  "a \<in> set (healthy_upstreams h pool) \<longleftrightarrow> a \<in> set (up_upstreams pool) \<and> is_available (h a)"
  by (auto simp: healthy_upstreams_def)

lemma fst_select_upstream:
  "fst (select_upstream h r pool)
     = fst (select_state h (healthy_upstreams h pool) (up_algorithm pool, r, wrr_counter pool))"
proof (cases "healthy_upstreams h pool = []")
  case True
  then show ?thesis
    using sel.pick_None [of h "[]" "(up_algorithm pool, r, wrr_counter pool)"]
    by (simp add: select_upstream_def del: select_state.simps)
next
  case False
  then show ?thesis by (simp add: select_upstream_def Let_def split_beta)
qed

lemma select_upstream_SomeD:
  "select_upstream h r pool = (Some a, pool') \<Longrightarrow> a \<in> set (up_upstreams pool) \<and> is_available (h a)"
  using fst_select_upstream [of h r pool] sel.pick_filter [of h "\<lambda>a. is_available (h a)" "up_upstreams pool"]
  unfolding healthy_upstreams_def by (metis fst_conv)

lemma select_upstream_None_iff:
  "fst (select_upstream h r pool) = None \<longleftrightarrow> (\<forall>a \<in> set (up_upstreams pool). \<not> is_available (h a))"
  using fst_select_upstream [of h r pool]
    sel.pick_filter_None [of h "\<lambda>a. is_available (h a)" "up_upstreams pool" "(up_algorithm pool, r, wrr_counter pool)"]
  unfolding healthy_upstreams_def by simp

lemma select_upstream_frame [gate_frame]:
  "up_name (snd (select_upstream h r pool)) = up_name pool"
  "up_upstreams (snd (select_upstream h r pool)) = up_upstreams pool"
  "up_algorithm (snd (select_upstream h r pool)) = up_algorithm pool"
  by (simp_all add: select_upstream_def Let_def split_beta)

subsection \<open>Construction\<close>

lemma create_upstreams_spec:
  assumes "create_upstreams clock name us (h, next) = (arcs, h', next')"
  shows "arcs = [next..<next + length us] \<and> next' = next + length us
    \<and> (\<forall>i < length us. h' (next + i) = upstream_new (clock (next + i)) name (uc_url (us ! i))
          (uc_weight (us ! i)) (uc_max_connections (us ! i)))
    \<and> (\<forall>a. a < next \<or> next' \<le> a \<longrightarrow> h' a = h a)"
  using assms
proof (induction us arbitrary: h "next" arcs)
  case Nil
  then show ?case by simp
next
  case (Cons u us)
  let ?h1 = "h(next := upstream_new (clock next) name (uc_url u) (uc_weight u) (uc_max_connections u))"
  obtain arcs1 where r: "create_upstreams clock name us (?h1, Suc next) = (arcs1, h', next')"
    and arcs: "arcs = next # arcs1"
    using Cons.prems by (auto split: prod.splits)
  note ih = Cons.IH [OF r]
  have "h' (next + i) = upstream_new (clock (next + i)) name (uc_url ((u # us) ! i))
      (uc_weight ((u # us) ! i)) (uc_max_connections ((u # us) ! i))" if "i < length (u # us)" for i
    using that ih by (cases i) auto
  moreover have "h' a = h a" if "a < next \<or> next' \<le> a" for a
  proof -
    have "a \<noteq> next" "a < Suc next \<or> next' \<le> a" using that ih by linarith+
    then show ?thesis using ih by (metis fun_upd_apply)
  qed
  moreover have "arcs = [next..<next + length (u # us)]" "next' = next + length (u # us)"
    using ih arcs by (simp_all add: upt_conv_Cons del: upt_Suc)
  ultimately show ?case by blast
qed

text \<open>What the list of pools looks like after construction.\<close>

fun pools_built :: "(arc \<Rightarrow> instant) \<Rightarrow> heap \<Rightarrow> pool_config list \<Rightarrow> upstream_pool list \<Rightarrow> bool" where
  "pools_built clock h [] ps = (ps = [])"
| "pools_built clock h (c # cs) ps =
     (case ps of [] \<Rightarrow> False
      | p # ps' \<Rightarrow>
          up_name p = pc_name c \<and> up_algorithm p = pc_algorithm c \<and> wrr_counter p = 0
        \<and> map h (up_upstreams p)
            = map2 (\<lambda>a u. upstream_new (clock a) (pc_name c) (uc_url u) (uc_weight u) (uc_max_connections u))
                (up_upstreams p) (pc_upstreams c)
        \<and> length (up_upstreams p) = length (pc_upstreams c)
        \<and> pools_built clock h cs ps')"

lemma create_pool_list_frame:
  "create_pool_list clock cs (h, next) = (pools, h', next') \<Longrightarrow>
     next \<le> next' \<and> concat (map up_upstreams pools) = [next..<next'] \<and> (\<forall>a < next. h' a = h a)"
proof (induction cs arbitrary: h "next" pools)
  case Nil
  then show ?case by simp
next
  case (Cons c cs)
  obtain arcs h1 next1 where c1: "create_upstreams clock (pc_name c) (pc_upstreams c) (h, next) = (arcs, h1, next1)"
    by (metis prod_cases3)
  obtain ps where c2: "create_pool_list clock cs (h1, next1) = (ps, h', next')"
    and pools: "pools = \<lparr>up_name = pc_name c, up_upstreams = arcs, up_algorithm = pc_algorithm c, wrr_counter = 0\<rparr> # ps"
    using Cons.prems c1 by (auto split: prod.splits)
  note u = create_upstreams_spec [OF c1] and ih = Cons.IH [OF c2]
  have "[next..<next'] = [next..<next1] @ [next1..<next']"
    using u ih upt_add_eq_append [of "next" next1 "next' - next1"] by simp
  then show ?case using u ih pools by auto
qed

lemma create_pool_list_spec:
  "create_pool_list clock cs (h, next) = (pools, h', next') \<Longrightarrow> pools_built clock h' cs pools"
proof (induction cs arbitrary: h "next" pools)
  case Nil
  then show ?case by simp
next
  case (Cons c cs)
  obtain arcs h1 next1 where c1: "create_upstreams clock (pc_name c) (pc_upstreams c) (h, next) = (arcs, h1, next1)"
    by (metis prod_cases3)
  obtain ps where c2: "create_pool_list clock cs (h1, next1) = (ps, h', next')"
    and pools: "pools = \<lparr>up_name = pc_name c, up_upstreams = arcs, up_algorithm = pc_algorithm c, wrr_counter = 0\<rparr> # ps"
    using Cons.prems c1 by (auto split: prod.splits)
  note u = create_upstreams_spec [OF c1] and fr = create_pool_list_frame [OF c2] and ih = Cons.IH [OF c2]
  have "map h' arcs = map2 (\<lambda>a u. upstream_new (clock a) (pc_name c) (uc_url u) (uc_weight u) (uc_max_connections u))
      arcs (pc_upstreams c)"
    using u fr by (intro nth_equalityI) auto
  then show ?case using u ih pools by auto
qed

lemma pools_built_names: "pools_built clock h cs ps \<Longrightarrow> map up_name ps = map pc_name cs"
  by (induction cs arbitrary: ps) (auto split: list.splits)

lemma pools_built_urls:
  "pools_built clock h cs ps \<Longrightarrow>
   map (\<lambda>p. map (\<lambda>a. us_url (h a)) (up_upstreams p)) ps = map (\<lambda>c. map uc_url (pc_upstreams c)) cs"
proof (induction cs arbitrary: ps)
  case (Cons c cs)
  then obtain p ps' where ps: "ps = p # ps'" by (auto split: list.splits)
  have "map (\<lambda>a. us_url (h a)) (up_upstreams p) = map us_url (map h (up_upstreams p))" by simp
  also have "\<dots> = map us_url (map2 (\<lambda>a u. upstream_new (clock a) (pc_name c) (uc_url u) (uc_weight u)
      (uc_max_connections u)) (up_upstreams p) (pc_upstreams c))"
    using Cons.prems ps by simp
  also have "\<dots> = map uc_url (pc_upstreams c)"
    using Cons.prems ps by (intro nth_equalityI) (simp_all add: upstream_new_def)
  finally show ?case using Cons ps by simp
qed simp

lemma pools_built_new:
  "pools_built clock h cs ps \<Longrightarrow> p \<in> set ps \<Longrightarrow> a \<in> set (up_upstreams p) \<Longrightarrow>
   \<exists>t n url w mc. h a = upstream_new t n url w mc"
proof (induction cs arbitrary: ps)
  case (Cons c cs)
  then obtain q ps' where ps: "ps = q # ps'" by (auto split: list.splits)
  let ?f = "\<lambda>a u. upstream_new (clock a) (pc_name c) (uc_url u) (uc_weight u) (uc_max_connections u)"
  have q: "map h (up_upstreams q) = map2 ?f (up_upstreams q) (pc_upstreams c)"
    and rest: "pools_built clock h cs ps'"
    using Cons.prems(1) by (simp_all add: ps)
  have "\<exists>t n url w mc. h b = upstream_new t n url w mc" if "b \<in> set (up_upstreams q)" for b
  proof -
    have "h b \<in> set (map2 ?f (up_upstreams q) (pc_upstreams c))" using that by (simp flip: q)
    then obtain z :: "arc \<times> upstream_config" where "h b = (case z of (x, u) \<Rightarrow> ?f x u)" unfolding set_map by (rule imageE)
    then show ?thesis by (cases z) (simp, blast)
  qed
  then show ?case using Cons.IH [OF rest] Cons.prems(2,3) ps by auto
qed simp

lemma pools_built_unavailable:
  "pools_built clock h cs ps \<Longrightarrow> p \<in> set ps \<Longrightarrow> a \<in> set (up_upstreams p) \<Longrightarrow> \<not> is_available (h a)"
  using pools_built_new by fastforce

lemma pools_built_nonempty:
  "pools_built clock h cs ps \<Longrightarrow> p \<in> set ps \<Longrightarrow> (\<forall>c \<in> set cs. pc_upstreams c \<noteq> []) \<Longrightarrow> up_upstreams p \<noteq> []"
  by (induction cs arbitrary: ps) (fastforce split: list.splits)+

subsection \<open>Properties\<close>

text \<open>C21. Selection returns an upstream of the pool that was healthy with an accepting breaker, under
  every algorithm and random draw, and fails only when the pool has no such upstream.\<close>

theorem select_upstream_sound_and_complete:
  "(\<forall>a. fst (select_upstream h r pool) = Some a \<longrightarrow>
        a \<in> set (up_upstreams pool) \<and> health (us_mutable (h a)) = Healthy
      \<and> cb_state (breaker (us_mutable (h a))) \<noteq> Open)
   \<and> (fst (select_upstream h r pool) = None \<longleftrightarrow> (\<forall>a \<in> set (up_upstreams pool). \<not> is_available (h a)))"
proof -
  have "a \<in> set (up_upstreams pool) \<and> is_available (h a)" if "fst (select_upstream h r pool) = Some a" for a
    using that by (metis select_upstream_SomeD prod.collapse)
  then show ?thesis
    using select_upstream_None_iff [of h r pool]
    by (auto simp: is_available_def cb_is_available_def)
qed

theorem select_upstream_sound_and_complete_witness:
  "fst (select_upstream two_upstreams 0 \<lparr>up_name = ''p'', up_upstreams = [0, 1], up_algorithm = Wrr, wrr_counter = 0\<rparr>) = None"
  using select_upstream_sound_and_complete [of two_upstreams 0
      "\<lparr>up_name = ''p'', up_upstreams = [0, 1], up_algorithm = Wrr, wrr_counter = 0\<rparr>"]
  by (simp add: two_upstreams_def)

text \<open>The pools built at startup mirror the configuration (names and URLs, in order), every
  configured upstream gets an object of its own, and none of them can be selected before a health
  check or an operator marks it healthy.\<close>

lemma startup_pools_mirror_config:
  assumes "create_pools clock c (h, n) = (pools, h', n')"
  shows "map up_name pools = map pc_name (cfg_pools c)
    \<and> map (\<lambda>p. map (\<lambda>a. us_url (h' a)) (up_upstreams p)) pools
        = map (\<lambda>p. map uc_url (pc_upstreams p)) (cfg_pools c)
    \<and> distinct (concat (map up_upstreams pools))
    \<and> (\<forall>p \<in> set pools. \<forall>r. fst (select_upstream h' r p) = None)"
proof -
  have b: "pools_built clock h' (cfg_pools c) pools"
    using assms unfolding create_pools_def by (rule create_pool_list_spec)
  have "concat (map up_upstreams pools) = [n..<n']"
    using create_pool_list_frame assms unfolding create_pools_def by blast
  then show ?thesis
    using pools_built_names [OF b] pools_built_urls [OF b] pools_built_unavailable [OF b]
    by (simp add: select_upstream_None_iff)
qed

end
