(* ===== verification/F64.thy ===== *)
theory F64
  imports Complex_Main Gate_Prelude "HOL-Library.Log_Nat"
begin

text \<open>
  The \<open>f64\<close> arithmetic of the rate limiter: a value is a rational number, and every operation
  rounds its exact result to the nearest number with a 53-bit significand, ties to even
  (IEEE 754 binary64). Subnormal numbers and infinities are left out: the operands that occur
  (seconds of a \<open>Duration\<close>, a \<open>u32\<close> rate, a token count between 0 and a \<open>u32\<close>) keep every
  non-zero result between \<open>2 ^ - 60\<close> and \<open>2 ^ 100\<close>.

  The clients use the laws of locale \<open>rounding\<close> only; \<open>f64_round\<close> is shown to obey them.
\<close>

declare of_nat_unat [simp del] \<comment> \<open>keep \<open>of_nat (unat w)\<close>, a rational, readable\<close>

subsection \<open>Rounding\<close>

definition round_half_even :: "rat \<Rightarrow> int" where
  "round_half_even x =
     (let f = \<lfloor>x\<rfloor>; r = x - of_int f
      in if r < 1 / 2 then f else if 1 / 2 < r then f + 1 else if even f then f else f + 1)"

definition exp2 :: "int \<Rightarrow> rat" where
  "exp2 e = (if 0 \<le> e then 2 ^ nat e else 1 / 2 ^ nat (- e))"

text \<open>The binary exponent of a positive rational: \<open>exp2 (binexp x) \<le> x < exp2 (binexp x + 1)\<close>.\<close>

definition binexp :: "rat \<Rightarrow> int" where
  "binexp x =
     (let (p, q) = quotient_of x; e = int (floorlog 2 (nat p)) - int (floorlog 2 (nat q))
      in if exp2 e \<le> x then e else e - 1)"

definition f64_round_pos :: "rat \<Rightarrow> rat" where
  "f64_round_pos x = (let u = exp2 (binexp x - 52) in of_int (round_half_even (x / u)) * u)"

definition f64_round :: "rat \<Rightarrow> rat" where
  "f64_round x = (if x = 0 then 0 else if 0 < x then f64_round_pos x else - f64_round_pos (- x))"

subsection \<open>Powers of two\<close>

lemma exp2_pos [simp]: "0 < exp2 e"
  by (simp add: exp2_def)

lemma exp2_nonneg [simp]: "0 \<le> exp2 e"
  by (simp add: less_imp_le)

lemma exp2_neq_0 [simp]: "exp2 e \<noteq> 0"
  using exp2_pos [of e] by linarith

lemma exp2_powi: "exp2 e = 2 powi e"
  by (simp add: exp2_def power_int_def divide_simps)

lemma exp2_add: "exp2 (a + b) = exp2 a * exp2 b"
  by (simp add: exp2_powi power_int_add)

lemma exp2_diff: "exp2 (a - b) = exp2 a / exp2 b"
  by (simp add: exp2_powi power_int_diff)

lemma exp2_nat [simp]: "exp2 (int n) = 2 ^ n"
  by (simp add: exp2_def)

lemma exp2_mono: "a \<le> b \<Longrightarrow> exp2 a \<le> exp2 b"
  by (simp add: exp2_powi power_int_increasing)

lemma exp2_less_iff [simp]: "exp2 a < exp2 b \<longleftrightarrow> a < b"
  by (metis exp2_mono exp2_powi linorder_not_less nle_le one_less_numeral_iff
      power_int_strict_increasing semiring_norm(76))

lemma exp2_0 [simp]: "exp2 0 = 1"
  by (simp add: exp2_def)

lemma exp2_ulp: "exp2 e = 2 ^ 52 * exp2 (e - 52)" "exp2 (e + 1) = 2 ^ 53 * exp2 (e - 52)"
proof -
  have "exp2 e = exp2 (int 52 + (e - 52))" by simp
  then show "exp2 e = 2 ^ 52 * exp2 (e - 52)" by (simp only: exp2_add exp2_nat)
  have "exp2 (e + 1) = exp2 (int 53 + (e - 52))" by (rule arg_cong [of _ _ exp2]) simp
  then show "exp2 (e + 1) = 2 ^ 53 * exp2 (e - 52)" by (simp only: exp2_add exp2_nat)
qed

subsection \<open>The exponent\<close>

lemma floorlog_bounds_rat:
  assumes "0 < n"
  shows "exp2 (int (floorlog 2 n) - 1) \<le> of_nat n" and "of_nat n < exp2 (int (floorlog 2 n))"
proof -
  have b: "2 ^ (floorlog 2 n - 1) \<le> n \<and> n < 2 ^ floorlog 2 n"
    using assms by (intro floorlog_bounds) simp_all
  have "0 < floorlog 2 n" using assms by (simp add: floorlog_def)
  then have e: "exp2 (int (floorlog 2 n) - 1) = 2 ^ (floorlog 2 n - 1)"
    using exp2_nat [of "floorlog 2 n - 1"] by (simp add: of_nat_diff)
  have "(of_nat (2 ^ (floorlog 2 n - 1)) :: rat) \<le> of_nat n" using b by linarith
  then show "exp2 (int (floorlog 2 n) - 1) \<le> of_nat n" by (simp add: e)
  have "(of_nat n :: rat) < of_nat (2 ^ floorlog 2 n)" using b by (simp only: of_nat_less_iff)
  then show "of_nat n < exp2 (int (floorlog 2 n))" by simp
qed

lemma binexp_bounds:
  assumes "0 < x"
  shows "exp2 (binexp x) \<le> x" and "x < exp2 (binexp x + 1)"
proof -
  obtain p q where pq: "quotient_of x = (p, q)" by (cases "quotient_of x")
  have q: "0 < q" and x: "x = of_int p / of_int q"
    using quotient_of_denom_pos [OF pq] quotient_of_div [OF pq] by auto
  have p: "0 < p" using assms q by (simp add: x zero_less_divide_iff)
  let ?a = "int (floorlog 2 (nat p))" and ?b = "int (floorlog 2 (nat q))"
  have bp: "exp2 (?a - 1) \<le> of_int p" "of_int p < exp2 ?a"
    using floorlog_bounds_rat [of "nat p"] p by simp_all
  have bq: "exp2 (?b - 1) \<le> of_int q" "of_int q < exp2 ?b"
    using floorlog_bounds_rat [of "nat q"] q by simp_all
  have "exp2 (?a - ?b - 1) = exp2 ((?a - 1) - ?b)"
    by (rule arg_cong [of _ _ exp2]) simp
  also have "\<dots> = exp2 (?a - 1) / exp2 ?b" by (rule exp2_diff)
  also have "\<dots> \<le> x" unfolding x
    using bp bq p q by (intro frac_le) (simp_all add: less_imp_le)
  finally have lo: "exp2 (?a - ?b - 1) \<le> x" .
  have "x < exp2 ?a / exp2 (?b - 1)" unfolding x
    using bp bq p q by (intro frac_less) (simp_all add: less_imp_le)
  also have "\<dots> = exp2 (?a - (?b - 1))" by (rule exp2_diff [symmetric])
  also have "\<dots> = exp2 (?a - ?b + 1)" by (rule arg_cong [of _ _ exp2]) simp
  finally have hi: "x < exp2 (?a - ?b + 1)" .
  show "exp2 (binexp x) \<le> x" and "x < exp2 (binexp x + 1)"
    using lo hi by (auto simp: binexp_def pq Let_def)
qed

lemma binexp_unique:
  assumes "0 < x" and "exp2 e \<le> x" and "x < exp2 (e + 1)"
  shows "binexp x = e"
proof -
  have "exp2 e < exp2 (binexp x + 1)" "exp2 (binexp x) < exp2 (e + 1)"
    using assms binexp_bounds [OF assms(1)] by linarith+
  then show ?thesis by simp
qed

lemma binexp_mono: "0 < x \<Longrightarrow> x \<le> y \<Longrightarrow> binexp x \<le> binexp y"
proof -
  assume "0 < x" "x \<le> y"
  then have "exp2 (binexp x) < exp2 (binexp y + 1)"
    using binexp_bounds(1) [of x] binexp_bounds(2) [of y] by linarith
  then show ?thesis by simp
qed

subsection \<open>Rounding to an integer\<close>

lemma round_half_even_of_int [simp]: "round_half_even (of_int n) = n"
  by (simp add: round_half_even_def)

lemma round_half_even_error: "\<bar>of_int (round_half_even x) - x\<bar> \<le> 1 / 2"
proof -
  have "of_int \<lfloor>x\<rfloor> \<le> x" "x < of_int \<lfloor>x\<rfloor> + 1" by linarith+
  then show ?thesis unfolding round_half_even_def Let_def by (simp add: abs_le_iff)
qed

lemma round_half_even_mono: "x \<le> y \<Longrightarrow> round_half_even x \<le> round_half_even y"
proof -
  assume xy: "x \<le> y"
  then have f: "\<lfloor>x\<rfloor> \<le> \<lfloor>y\<rfloor>" by (rule floor_mono)
  have b: "\<lfloor>z\<rfloor> \<le> round_half_even z" "round_half_even z \<le> \<lfloor>z\<rfloor> + 1" for z :: rat
    by (auto simp: round_half_even_def Let_def)
  show ?thesis
  proof (cases "\<lfloor>x\<rfloor> = \<lfloor>y\<rfloor>")
    case True
    then show ?thesis using xy by (auto simp: round_half_even_def Let_def)
  next
    case False
    then show ?thesis using f b(2) [of x] b(1) [of y] by linarith
  qed
qed

subsection \<open>Rounding to binary64\<close>

lemma f64_round_pos_range:
  assumes "0 < x"
  shows "exp2 (binexp x) \<le> f64_round_pos x" and "f64_round_pos x \<le> exp2 (binexp x + 1)"
proof -
  let ?u = "exp2 (binexp x - 52)"
  have lo: "(of_int (2 ^ 52) :: rat) \<le> x / ?u" and hi: "x / ?u \<le> (of_int (2 ^ 53) :: rat)"
    using binexp_bounds [OF assms] exp2_ulp [of "binexp x"] by (simp_all add: pos_le_divide_eq pos_divide_le_eq)
  have "2 ^ 52 \<le> round_half_even (x / ?u)" "round_half_even (x / ?u) \<le> 2 ^ 53"
    using round_half_even_mono [OF lo] round_half_even_mono [OF hi] by (simp_all only: round_half_even_of_int)
  then have "(of_int (2 ^ 52) :: rat) \<le> of_int (round_half_even (x / ?u))"
    "of_int (round_half_even (x / ?u)) \<le> (of_int (2 ^ 53) :: rat)"
    by (simp_all only: of_int_le_iff)
  then have "of_int (2 ^ 52) * ?u \<le> of_int (round_half_even (x / ?u)) * ?u"
    "of_int (round_half_even (x / ?u)) * ?u \<le> of_int (2 ^ 53) * ?u"
    by (simp_all only: mult_right_mono exp2_nonneg)
  then show "exp2 (binexp x) \<le> f64_round_pos x" and "f64_round_pos x \<le> exp2 (binexp x + 1)"
    using exp2_ulp [of "binexp x"] by (simp_all add: f64_round_pos_def Let_def)
qed

lemma f64_round_pos_mono:
  assumes "0 < x" and "x \<le> y"
  shows "f64_round_pos x \<le> f64_round_pos y"
proof (cases "binexp x = binexp y")
  case True
  then have "round_half_even (x / exp2 (binexp x - 52)) \<le> round_half_even (y / exp2 (binexp y - 52))"
    using assms by (intro round_half_even_mono) (simp add: divide_right_mono)
  then show ?thesis using True by (simp add: f64_round_pos_def Let_def)
next
  case False
  then have "exp2 (binexp x + 1) \<le> exp2 (binexp y)"
    using binexp_mono [OF assms] by (intro exp2_mono) simp
  then show ?thesis
    using f64_round_pos_range(2) [of x] f64_round_pos_range(1) [of y] assms by linarith
qed

lemma f64_round_pos_error:
  assumes "0 < x"
  shows "\<bar>f64_round_pos x - x\<bar> \<le> x / 2 ^ 53"
proof -
  let ?u = "exp2 (binexp x - 52)" and ?r = "round_half_even (x / exp2 (binexp x - 52))"
  have "f64_round_pos x - x = (of_int ?r - x / ?u) * ?u"
    by (simp add: f64_round_pos_def Let_def left_diff_distrib)
  then have "\<bar>f64_round_pos x - x\<bar> = \<bar>of_int ?r - x / ?u\<bar> * ?u"
    by (simp add: abs_mult)
  also have "\<dots> \<le> 1 / 2 * ?u"
    using round_half_even_error by (intro mult_right_mono) simp_all
  also have "\<dots> = exp2 (binexp x) / 2 ^ 53"
    using exp2_ulp(1) [of "binexp x"] by simp
  also have "\<dots> \<le> x / 2 ^ 53"
    using binexp_bounds(1) [OF assms] by (simp add: divide_right_mono)
  finally show ?thesis .
qed

subsection \<open>Representable numbers\<close>

definition is_f64 :: "rat \<Rightarrow> bool" where
  "is_f64 x \<longleftrightarrow> (\<exists>m e. x = of_int m * exp2 e \<and> \<bar>m\<bar> \<le> 2 ^ 53)"

lemma is_f64E:
  assumes "is_f64 x"
  obtains m e where "x = of_int m * exp2 e" and "\<bar>m\<bar> \<le> 2 ^ 53"
  using assms unfolding is_f64_def by blast

lemma exp2_not_neg [simp]: "\<not> exp2 e < 0"
  by (simp add: not_less)

lemma is_f64I: "\<bar>m\<bar> \<le> 2 ^ 53 \<Longrightarrow> is_f64 (of_int m * exp2 e)"
  by (auto simp: is_f64_def)

lemma is_f64_of_int: "\<bar>m\<bar> \<le> 2 ^ 53 \<Longrightarrow> is_f64 (of_int m)"
  using is_f64I [of m 0] by simp

lemma is_f64_of_nat: "n \<le> 2 ^ 53 \<Longrightarrow> is_f64 (of_nat n)"
  using is_f64_of_int [of "int n"] by simp

lemma is_f64_uminus: "is_f64 (- x) \<longleftrightarrow> is_f64 x"
proof -
  have "is_f64 (- y)" if "is_f64 y" for y
  proof -
    obtain m e where "y = of_int m * exp2 e" "\<bar>m\<bar> \<le> 2 ^ 53" using \<open>is_f64 y\<close> by (rule is_f64E)
    then show ?thesis using is_f64I [of "- m" e] by simp
  qed
  from this [of x] this [of "- x"] show ?thesis by auto
qed

lemma is_f64_round_pos: "0 < x \<Longrightarrow> is_f64 (f64_round_pos x)"
proof -
  assume x: "0 < x"
  let ?u = "exp2 (binexp x - 52)" and ?r = "round_half_even (x / exp2 (binexp x - 52))"
  have "of_int ?r * ?u \<le> of_int (2 ^ 53) * ?u" "0 < of_int ?r * ?u"
    using f64_round_pos_range [OF x] exp2_ulp [of "binexp x"] exp2_pos [of "binexp x"]
    by (simp_all add: f64_round_pos_def Let_def)
  then have "(of_int ?r :: rat) \<le> of_int (2 ^ 53)" "(0 :: rat) < of_int ?r"
    by (simp_all add: mult_le_cancel_right zero_less_mult_iff)
  then have "\<bar>?r\<bar> \<le> 2 ^ 53" by (simp only: of_int_le_iff of_int_0_less_iff)
  then show ?thesis by (simp add: f64_round_pos_def Let_def is_f64I)
qed

lemma f64_round_pos_exact:
  assumes "0 < x" and "is_f64 x"
  shows "f64_round_pos x = x"
proof -
  obtain m e where me: "x = of_int m * exp2 e" "\<bar>m\<bar> \<le> 2 ^ 53" using assms(2) by (rule is_f64E)
  have m: "0 < m" using assms(1) me(1) by (simp add: zero_less_mult_iff)
  have "\<exists>m' e'. x = of_int m' * exp2 e' \<and> m' < 2 ^ 53"
  proof (cases "m = 2 ^ 53")
    case True
    then have "x = of_int (2 ^ 52) * exp2 (e + 1)" using me(1) by (simp add: exp2_add exp2_def [of 1])
    then show ?thesis by (intro exI [of _ "2 ^ 52"] exI [of _ "e + 1"]) simp
  next
    case False
    then show ?thesis using me m by (intro exI [of _ m] exI [of _ e]) simp
  qed
  then obtain m' e' where x: "x = of_int m' * exp2 e'" and m': "m' < 2 ^ 53" by blast
  have "(of_int m' :: rat) < of_int (2 ^ 53)" using m' by (simp only: of_int_less_iff)
  then have "x < 2 ^ 53 * exp2 e'" unfolding x by (simp add: mult_strict_right_mono)
  also have "\<dots> = exp2 (int 53 + e')" by (simp only: exp2_add exp2_nat)
  finally have "exp2 (binexp x) < exp2 (int 53 + e')"
    using binexp_bounds(1) [OF assms(1)] by linarith
  then have le: "binexp x - 52 \<le> e'" by simp
  have "x / exp2 (binexp x - 52) = of_int m' * exp2 (e' - (binexp x - 52))"
    by (simp add: x exp2_diff)
  also have "\<dots> = of_int (m' * 2 ^ nat (e' - (binexp x - 52)))"
    using le by (simp add: exp2_def)
  finally show ?thesis by (simp add: f64_round_pos_def Let_def del: of_int_mult) (simp add: field_simps)
qed

lemma f64_round_mono: "x \<le> y \<Longrightarrow> f64_round x \<le> f64_round y"
proof -
  assume xy: "x \<le> y"
  have pos: "0 < f64_round_pos z" if "0 < z" for z
    using f64_round_pos_range(1) [OF that] exp2_pos [of "binexp z"] by linarith
  consider "y < 0" | "x < 0" "0 \<le> y" | "0 \<le> x" by linarith
  then show ?thesis
  proof cases
    case 1
    then show ?thesis using xy f64_round_pos_mono [of "- y" "- x"] by (simp add: f64_round_def)
  next
    case 2
    then show ?thesis using pos [of "- x"] pos [of y] by (auto simp: f64_round_def)
  next
    case 3
    then show ?thesis using xy pos [of y] f64_round_pos_mono [of x y] by (auto simp: f64_round_def)
  qed
qed

subsection \<open>The contract of rounding\<close>

text \<open>\<open>eps\<close> is the unit roundoff of binary64.\<close>

definition eps :: rat where
  "eps = 1 / 2 ^ 53"

lemma eps_nonneg [simp]: "0 \<le> eps"
  by (simp add: eps_def)

locale rounding =
  fixes rnd :: "rat \<Rightarrow> rat"
  assumes rnd_mono: "x \<le> y \<Longrightarrow> rnd x \<le> rnd y"
    and rnd_exact: "is_f64 x \<Longrightarrow> rnd x = x"
    and rnd_f64: "is_f64 (rnd x)"
    and rnd_upper: "0 \<le> x \<Longrightarrow> rnd x \<le> x * (1 + eps)"
begin

lemma rnd_nat: "n \<le> 2 ^ 53 \<Longrightarrow> rnd (of_nat n) = of_nat n"
  by (simp add: rnd_exact is_f64_of_nat)

lemma rnd_nonneg: "0 \<le> x \<Longrightarrow> 0 \<le> rnd x"
  using rnd_mono [of 0 x] rnd_nat [of 0] by simp

lemma rnd_ge_nat: "n \<le> 2 ^ 53 \<Longrightarrow> of_nat n \<le> x \<Longrightarrow> of_nat n \<le> rnd x"
  using rnd_mono [of "of_nat n" x] rnd_nat [of n] by simp

text \<open>Taking one token is exact: the difference lies on the grid of the minuend.\<close>

lemma rnd_minus_one:
  assumes "is_f64 t" and "1 \<le> t" and "t \<le> 2 ^ 53"
  shows "rnd (t - 1) = t - 1"
proof -
  obtain m e where t: "t = of_int m * exp2 e" and m: "\<bar>m\<bar> \<le> 2 ^ 53"
    using assms(1) by (rule is_f64E)
  show ?thesis
  proof (cases "0 \<le> e")
    case True
    then have i: "t = of_int (m * 2 ^ nat e)" by (simp add: t exp2_def)
    have "(1 :: int) \<le> m * 2 ^ nat e" "m * 2 ^ nat e \<le> 2 ^ 53"
    proof -
      have "(of_int 1 :: rat) \<le> of_int (m * 2 ^ nat e)" "of_int (m * 2 ^ nat e) \<le> (of_int (2 ^ 53) :: rat)"
        using assms(2,3) unfolding i by simp_all
      then show "(1 :: int) \<le> m * 2 ^ nat e" "m * 2 ^ nat e \<le> 2 ^ 53"
        by (simp_all only: of_int_le_iff)
    qed
    then have "is_f64 (of_int (m * 2 ^ nat e - 1))" by (intro is_f64_of_int) simp
    then show ?thesis by (simp add: rnd_exact i del: of_int_mult)
  next
    case False
    define k :: int where "k = 2 ^ nat (- e)"
    have one: "(1 :: rat) = of_int k * exp2 e" using False by (simp add: k_def exp2_def)
    then have "t - 1 = of_int (m - k) * exp2 e" by (simp add: t left_diff_distrib)
    moreover have "0 \<le> m - k"
    proof -
      have "of_int k * exp2 e \<le> of_int m * exp2 e" using assms(2) one t by simp
      then have "(of_int k :: rat) \<le> of_int m" by (simp add: mult_le_cancel_right)
      then show ?thesis by simp
    qed
    moreover have "0 \<le> k" by (simp add: k_def)
    ultimately show ?thesis using m is_f64I [of "m - k" e] by (simp add: rnd_exact)
  qed
qed

lemma rnd_upper_pow:
  assumes "0 \<le> x" and "x \<le> y * (1 + eps) ^ k"
  shows "rnd x \<le> y * (1 + eps) ^ Suc k"
proof -
  have "rnd x \<le> x * (1 + eps)" using assms(1) by (rule rnd_upper)
  also have "\<dots> \<le> y * (1 + eps) ^ k * (1 + eps)"
    using assms(2) by (intro mult_right_mono) simp_all
  finally show ?thesis by (simp add: mult_ac)
qed

end

interpretation f64: rounding f64_round
proof unfold_locales
  show "f64_round x \<le> f64_round y" if "x \<le> y" for x y
    using that by (rule f64_round_mono)
  show "f64_round x = x" if "is_f64 x" for x
    using that f64_round_pos_exact [of x] f64_round_pos_exact [of "- x"]
    by (auto simp: f64_round_def is_f64_uminus)
  show "is_f64 (f64_round x)" for x
    using is_f64_round_pos [of x] is_f64_round_pos [of "- x"] is_f64_of_int [of 0]
    by (auto simp: f64_round_def is_f64_uminus)
  show "f64_round x \<le> x * (1 + eps)" if "0 \<le> x" for x
  proof (cases "x = 0")
    case False
    then have "f64_round_pos x - x \<le> x / 2 ^ 53"
      using that f64_round_pos_error [of x] by (simp only: abs_le_iff)
    then show ?thesis using False that by (simp add: f64_round_def eps_def algebra_simps)
  qed (simp add: f64_round_def)
qed

subsection \<open>The operations the program uses\<close>

definition f64_of_nat :: "nat \<Rightarrow> rat" where
  "f64_of_nat n = f64_round (of_nat n)"

definition f64_add :: "rat \<Rightarrow> rat \<Rightarrow> rat" where
  "f64_add x y = f64_round (x + y)"

definition f64_sub :: "rat \<Rightarrow> rat \<Rightarrow> rat" where
  "f64_sub x y = f64_round (x - y)"

definition f64_mul :: "rat \<Rightarrow> rat \<Rightarrow> rat" where
  "f64_mul x y = f64_round (x * y)"

definition f64_div :: "rat \<Rightarrow> rat \<Rightarrow> rat" where
  "f64_div x y = f64_round (x / y)"

text \<open>\<open>Duration::as_secs_f64\<close>: whole seconds plus nanoseconds over \<open>10 ^ 9\<close>.\<close>

definition as_secs_f64 :: "duration \<Rightarrow> rat" where
  "as_secs_f64 d =
     f64_add (f64_of_nat (d div nanos_per_sec))
       (f64_div (f64_of_nat (d mod nanos_per_sec)) (of_nat nanos_per_sec))"

lemmas f64_ops = f64_of_nat_def f64_add_def f64_sub_def f64_mul_def f64_div_def as_secs_f64_def

lemma f64_of_u32: "f64_of_nat (unat (w :: u32)) = of_nat (unat w)"
  unfolding f64_of_nat_def using unat_lt_numeral_u32 [of w] by (intro f64.rnd_nat) simp

lemma is_f64_of_u32: "is_f64 (f64_of_nat (unat (w :: u32)))"
  by (simp add: f64_of_nat_def f64.rnd_f64)

lemma duration_secs:
  "of_nat (d div nanos_per_sec) + of_nat (d mod nanos_per_sec) / of_nat nanos_per_sec
     = (of_nat d / of_nat nanos_per_sec :: rat)"
proof -
  have "(of_nat d :: rat) = of_nat (d div nanos_per_sec * nanos_per_sec + d mod nanos_per_sec)" by simp
  also have "\<dots> = of_nat (d div nanos_per_sec) * of_nat nanos_per_sec + of_nat (d mod nanos_per_sec)"
    by (simp only: of_nat_add of_nat_mult)
  finally show ?thesis by (simp add: nanos_per_sec_def field_simps)
qed

lemma as_secs_f64_nonneg [simp]: "0 \<le> as_secs_f64 d"
  by (simp add: f64_ops f64.rnd_nonneg)

text \<open>An elapsed time of at least \<open>n\<close> seconds is at least \<open>n\<close> after conversion.\<close>

lemma as_secs_f64_ge:
  assumes "n * nanos_per_sec \<le> d" and "n \<le> 2 ^ 53"
  shows "of_nat n \<le> as_secs_f64 d"
proof -
  have "n \<le> d div nanos_per_sec"
    using assms(1) by (simp add: nanos_per_sec_def less_eq_div_iff_mult_less_eq)
  then have "of_nat n \<le> f64_of_nat (d div nanos_per_sec)"
    using assms(2) by (simp add: f64_of_nat_def f64.rnd_ge_nat)
  moreover have "0 \<le> f64_div (f64_of_nat (d mod nanos_per_sec)) (of_nat nanos_per_sec)"
    by (simp add: f64_ops f64.rnd_nonneg)
  ultimately show ?thesis
    unfolding as_secs_f64_def f64_add_def by (intro f64.rnd_ge_nat assms(2)) linarith
qed

lemma as_secs_f64_upper:
  "as_secs_f64 d \<le> of_nat d / of_nat nanos_per_sec * (1 + eps) ^ 3"
proof -
  let ?s = "of_nat (d div nanos_per_sec) :: rat" and ?n = "of_nat (d mod nanos_per_sec) :: rat"
    and ?k = "of_nat nanos_per_sec :: rat"
  have "f64_round ?n \<le> ?n * (1 + eps)" by (rule f64.rnd_upper) simp
  then have "f64_round ?n / ?k \<le> (?n / ?k) * (1 + eps) ^ 1"
    by (simp add: divide_right_mono)
  then have n: "f64_round (f64_round ?n / ?k) \<le> (?n / ?k) * (1 + eps) ^ 2"
    using f64.rnd_upper_pow [of "f64_round ?n / ?k" "?n / ?k" 1]
    by (simp add: f64.rnd_nonneg numeral_2_eq_2)
  have "f64_round ?s \<le> ?s * (1 + eps)" by (rule f64.rnd_upper) simp
  also have "\<dots> \<le> ?s * (1 + eps) ^ 2"
    using self_le_power [of "1 + eps" 2] by (intro mult_left_mono) simp_all
  finally have "f64_round ?s + f64_round (f64_round ?n / ?k) \<le> (?s + ?n / ?k) * (1 + eps) ^ 2"
    using n by (simp add: distrib_right)
  then have "f64_round (f64_round ?s + f64_round (f64_round ?n / ?k))
      \<le> (?s + ?n / ?k) * (1 + eps) ^ Suc 2"
    by (intro f64.rnd_upper_pow) (simp_all add: f64.rnd_nonneg)
  then show ?thesis by (simp add: f64_ops duration_secs)
qed

end
