(* ===== verification/Gate_Http.thy ===== *)
theory Gate_Http
  imports F64
begin

text \<open>
  The values the handlers exchange with the libraries: JSON values, header maps, requests and
  responses, and the few string operations of the standard library that the source calls.

  \<open>json\<close> has the constructors of \<open>serde_json::Value\<close>; \<open>json_get\<close>, \<open>json_as_str\<close> and
  \<open>json_remove\<close> are its methods \<open>get\<close>, \<open>as_str\<close> and \<open>Map::remove\<close>. Parsing and printing JSON are
  never defined here: they are parameters of the operations that call them.
\<close>

datatype json =
    JNull
  | JBool bool
  | JInt int
  | JFloat rat
  | JString string
  | JArray "json list"
  | JObject "(string \<times> json) list"

fun json_get :: "string \<Rightarrow> json \<Rightarrow> json option" where
  "json_get k (JObject kvs) = map_of kvs k"
| "json_get k _ = None"

fun json_as_str :: "json \<Rightarrow> string option" where
  "json_as_str (JString s) = Some s"
| "json_as_str _ = None"

fun json_remove :: "string \<Rightarrow> json \<Rightarrow> json" where
  "json_remove k (JObject kvs) = JObject (filter (\<lambda>kv. fst kv \<noteq> k) kvs)"
| "json_remove k v = v"

definition json_get_str :: "string \<Rightarrow> json \<Rightarrow> string option" where
  "json_get_str k v = Option.bind (json_get k v) json_as_str"

lemma map_of_filter_key: "map_of (filter (\<lambda>kv. fst kv \<noteq> k) kvs) k' = (if k' = k then None else map_of kvs k')"
  by (induction kvs) auto

lemma json_get_remove [simp]:
  "json_get k' (json_remove k v) = (if k' = k then None else json_get k' v)"
  by (cases v) (simp_all add: map_of_filter_key)

lemma json_get_str_remove [simp]:
  "k' \<noteq> k \<Longrightarrow> json_get_str k' (json_remove k v) = json_get_str k' v"
  by (simp add: json_get_str_def)

lemma json_remove_remove: "json_remove k (json_remove k v) = json_remove k v"
  by (cases v) simp_all

subsection \<open>Strings\<close>

definition ascii_lower :: "char \<Rightarrow> char" where
  "ascii_lower c =
     (if 65 \<le> (of_char c :: nat) \<and> (of_char c :: nat) \<le> 90 then char_of (of_char c + 32 :: nat) else c)"

definition is_space :: "char \<Rightarrow> bool" where
  "is_space c \<longleftrightarrow> c \<in> {CHR '' '', CHR 0x09, CHR 0x0A, CHR 0x0B, CHR 0x0C, CHR 0x0D}"

text \<open>\<open>str::trim\<close> on the ASCII strings that header values convert to.\<close>

definition trim :: "string \<Rightarrow> string" where
  "trim s = rev (dropWhile is_space (rev (dropWhile is_space s)))"

text \<open>\<open>s.split(',').next()\<close>: the text before the first comma, which always exists.\<close>

definition split_first :: "char \<Rightarrow> string \<Rightarrow> string" where
  "split_first c s = takeWhile (\<lambda>x. x \<noteq> c) s"

definition strip_prefix :: "string \<Rightarrow> string \<Rightarrow> string option" where
  "strip_prefix p s = (if take (length p) s = p then Some (drop (length p) s) else None)"

fun str_contains :: "string \<Rightarrow> string \<Rightarrow> bool" where
  "str_contains p [] = (p = [])"
| "str_contains p (c # cs) = (take (length p) (c # cs) = p \<or> str_contains p cs)"

fun nat_to_string :: "nat \<Rightarrow> string" where
  "nat_to_string n =
     (if n < 10 then [char_of (48 + n)] else nat_to_string (n div 10) @ [char_of (48 + n mod 10)])"

declare nat_to_string.simps [simp del]

lemma strip_prefix_Some_iff: "strip_prefix p s = Some r \<longleftrightarrow> s = p @ r"
  by (auto simp: strip_prefix_def) (metis append_take_drop_id)

lemma str_contains_append: "str_contains p (xs @ p @ ys)"
proof (induction xs)
  case Nil
  have "take (length p) (p @ ys) = p" by simp
  then show ?case by (cases "p @ ys") (auto simp del: take_append)
qed simp

lemma str_contains_iff: "str_contains p s \<longleftrightarrow> (\<exists>xs ys. s = xs @ p @ ys)"
proof
  show "str_contains p s \<Longrightarrow> \<exists>xs ys. s = xs @ p @ ys"
  proof (induction s)
    case (Cons c cs)
    then consider "take (length p) (c # cs) = p" | "str_contains p cs" by auto
    then show ?case
    proof cases
      case 1
      then have "c # cs = [] @ p @ drop (length p) (c # cs)" by (metis append_Nil append_take_drop_id)
      then show ?thesis by blast
    next
      case 2
      then obtain xs ys where "cs = xs @ p @ ys" using Cons.IH by blast
      then have "c # cs = (c # xs) @ p @ ys" by simp
      then show ?thesis by blast
    qed
  qed simp
qed (auto simp: str_contains_append)

subsection \<open>HTTP\<close>

text \<open>
  A \<open>HeaderMap\<close> is the list of its entries; names are stored in lower case by the \<open>http\<close> crate,
  and \<open>get\<close> returns the first value of a name. Values are bytes.
\<close>

definition as_bytes :: "string \<Rightarrow> bytes" where
  "as_bytes s = map (\<lambda>c. word_of_nat (of_char c)) s"

type_synonym header_map = "(string \<times> bytes) list"

definition header_get :: "header_map \<Rightarrow> string \<Rightarrow> bytes option" where
  "header_get hs name = map_of hs (map ascii_lower name)"

lemma header_names [simp]:
  "map ascii_lower ''Authorization'' = ''authorization''"
  "map ascii_lower ''X-API-Key'' = ''x-api-key''"
  "map ascii_lower ''X-Forwarded-For'' = ''x-forwarded-for''"
  "map ascii_lower ''X-Real-IP'' = ''x-real-ip''"
  by code_simp+

type_synonym status = nat

definition is_success :: "status \<Rightarrow> bool" where
  "is_success s \<longleftrightarrow> 200 \<le> s \<and> s < 300"

datatype body = JsonBody json | RawBody bytes | TextBody string | EmptyBody

record response =
  resp_status :: status
  resp_headers :: header_map
  resp_body :: body

record request =
  req_method :: string
  req_path :: string
  req_query :: "string option"
  req_headers :: header_map
  req_body :: "string + bytes" \<comment> \<open>what collecting the body yields: an error, or its bytes\<close>
  ext_tier :: "string option" \<comment> \<open>the extension \<open>AuthTier\<close>\<close>
  ext_key_id :: "string option" \<comment> \<open>the extension \<open>AuthKeyId\<close>\<close>

text \<open>A handler returns a response, or the task that runs it panics.\<close>

datatype outcome = Respond response | Panicked

text \<open>\<open>(StatusCode, Json(v)).into_response()\<close>.\<close>

definition json_response :: "status \<Rightarrow> json \<Rightarrow> response" where
  "json_response s v =
     \<lparr>resp_status = s, resp_headers = [(''content-type'', as_bytes ''application/json'')], resp_body = JsonBody v\<rparr>"

definition json_rpc_error :: "int \<Rightarrow> string \<Rightarrow> json" where
  "json_rpc_error code message =
     JObject [(''jsonrpc'', JString ''2.0''), (''id'', JNull),
       (''error'', JObject [(''code'', JInt code), (''message'', JString message)])]"

lemma json_response_simps [simp]:
  "resp_status (json_response s v) = s" "resp_body (json_response s v) = JsonBody v"
  by (simp_all add: json_response_def)

end
