(* ===== verification/Gate_Routing.thy ===== *)
theory Gate_Routing
  imports Gate_Http Gate_Config
begin

text \<open>
  \<open>src/routing/mod.rs\<close>: the table from JSON-RPC method to pool name, and the extraction of the
  method from a request body.
\<close>

record router =
  router_rules :: "string \<rightharpoonup> string"
  router_default_pool :: string

definition router_new :: "routing_config \<Rightarrow> router" where
  "router_new config =
     \<lparr>router_rules = insert_rules rr_methods rr_pool (rc_rules config) Map.empty,
      router_default_pool = rc_default_pool config\<rparr>"

definition route :: "router \<Rightarrow> string \<Rightarrow> string" where
  "route r m = (case router_rules r m of Some p \<Rightarrow> p | None \<Rightarrow> router_default_pool r)"

definition extract_json_rpc_method :: "(bytes \<Rightarrow> json option) \<Rightarrow> bytes \<Rightarrow> string option" where
  "extract_json_rpc_method from_slice body =
     (case from_slice body of
        None \<Rightarrow> None
      | Some value \<Rightarrow>
          (case json_get ''method'' value of
             None \<Rightarrow> None
           | Some m \<Rightarrow> json_as_str m))"

lemma extract_json_rpc_method_alt:
  "extract_json_rpc_method from_slice body = Option.bind (from_slice body) (json_get_str ''method'')"
  by (simp add: extract_json_rpc_method_def json_get_str_def bind_eq_Some_conv split: option.splits)

lemma route_new:
  "route (router_new config) m =
     (case last_rule rr_methods (rc_rules config) m of Some r \<Rightarrow> rr_pool r | None \<Rightarrow> rc_default_pool config)"
  by (simp add: route_def router_new_def insert_rules_apply split: option.splits)

text \<open>A method is routed to the pool of the last rule that lists it, and to the default pool
  when no rule does: later rules override earlier ones.\<close>

lemma route_last_rule_wins:
  "route (router_new config) m =
     (case filter (\<lambda>r. m \<in> set (rr_methods r)) (rc_rules config) of
        [] \<Rightarrow> rc_default_pool config
      | r # rs \<Rightarrow> rr_pool (last (r # rs)))"
proof -
  have "last_rule rr_methods rs m =
      (case filter (\<lambda>r. m \<in> set (rr_methods r)) rs of [] \<Rightarrow> None | x # xs \<Rightarrow> Some (last (x # xs)))"
    for rs :: "routing_rule list"
    unfolding last_rule_def
    by (induction rs rule: rev_induct) (auto split: list.splits)
  then show ?thesis by (auto simp: route_new split: list.splits)
qed

text \<open>Under a validated configuration every method, known or not, is routed to a pool that the
  configuration defines.\<close>

lemma validated_routes_reach_defined_pool:
  assumes "validate c = Inr ()"
  shows "\<exists>p \<in> set (cfg_pools c). pc_name p = route (router_new (cfg_routing c)) m"
proof -
  have v: "config_valid c" using assms by (simp add: validate_ok)
  have "route (router_new (cfg_routing c)) m \<in> pc_name ` set (cfg_pools c)"
    using config_valid_default_pool [OF v] config_valid_rule_pool [OF v] last_rule_SomeD
    by (fastforce simp: route_new split: option.splits)
  then show ?thesis by auto
qed

end
