(* ===== verification/Memory_Cache.thy ===== *)
theory Memory_Cache
  imports Gate_Http Gate_Config
begin

text \<open>
  \<open>src/cache/mod.rs\<close> and \<open>src/cache/memory.rs\<close>: the TTL table, the cache key, and the in-memory
  response cache. The concurrent map of the \<open>moka\<close> crate is a parameter: \<open>moka_ops\<close> holds its
  operations, and locale \<open>moka\<close> what its documentation promises. It is a bounded cache, so any of
  its operations may drop entries, but no operation makes up or changes one. \<open>serde_json\<close> and
  \<open>sha2\<close> are parameters of \<open>compute_cache_key\<close>.
\<close>

subsection \<open>TTL table and cache key\<close>

definition ttl_table_new :: "cache_rule list \<Rightarrow> string \<rightharpoonup> u64" where
  "ttl_table_new rules = insert_rules cr_methods ttl_secs rules Map.empty"

definition ttl_for :: "(string \<rightharpoonup> u64) \<Rightarrow> string \<Rightarrow> duration" where
  "ttl_for rules m =
     (case rules m of
        None \<Rightarrow> 0
      | Some secs \<Rightarrow> if secs = 0 then 0 else from_secs (unat secs))"

definition compute_cache_key ::
  "(bytes \<Rightarrow> json option) \<Rightarrow> (json \<Rightarrow> bytes option) \<Rightarrow> (bytes \<Rightarrow> bytes) \<Rightarrow> bytes \<Rightarrow> bytes" where
  "compute_cache_key from_slice to_vec sha256 body =
     (let value = (case from_slice body of Some v \<Rightarrow> v | None \<Rightarrow> JNull);
          value = json_remove ''jsonrpc'' (json_remove ''id'' value);
          canonical = (case to_vec value of Some b \<Rightarrow> b | None \<Rightarrow> body)
      in sha256 canonical)"

subsection \<open>The memory cache\<close>

record cached_value =
  cv_data :: bytes
  expires_at :: instant

record 'm moka_ops =
  moka_new :: "u64 \<Rightarrow> 'm"
  moka_get :: "u64 \<Rightarrow> 'm \<Rightarrow> cached_value option \<times> 'm"
  moka_insert :: "u64 \<Rightarrow> cached_value \<Rightarrow> 'm \<Rightarrow> 'm"
  moka_invalidate :: "u64 \<Rightarrow> 'm \<Rightarrow> 'm"
  moka_invalidate_all :: "'m \<Rightarrow> 'm"
  moka_entry_count :: "'m \<Rightarrow> u64"

record 'm memory_cache =
  mc_cache :: 'm
  hit_count :: u64
  miss_count :: u64
  eviction_count :: u64

record cache_stats =
  cs_hit_count :: u64
  cs_miss_count :: u64
  cs_size :: u64
  cs_eviction_count :: u64

definition memory_cache_new :: "'m moka_ops \<Rightarrow> u64 \<Rightarrow> 'm memory_cache" where
  "memory_cache_new ops max_mb =
     (let max_entries = (max_mb * 1024 * 1024) div 1024
      in \<lparr>mc_cache = moka_new ops max_entries, hit_count = 0, miss_count = 0, eviction_count = 0\<rparr>)"

text \<open>\<open>u64::from_ne_bytes\<close> of an 8-byte buffer, on a little-endian target.\<close>

fun le_nat :: "bytes \<Rightarrow> nat" where
  "le_nat [] = 0"
| "le_nat (b # bs) = unat b + 256 * le_nat bs"

definition hash_to_u64 :: "bytes \<Rightarrow> u64" where
  "hash_to_u64 key =
     (let len = min (length key) 8; buf = take len key @ replicate (8 - len) 0
      in word_of_nat (le_nat buf))"

definition cache_get :: "'m moka_ops \<Rightarrow> instant \<Rightarrow> bytes \<Rightarrow> 'm memory_cache \<Rightarrow> bytes option \<times> 'm memory_cache" where
  "cache_get ops now key mc =
     (let k = hash_to_u64 key; (r, m1) = moka_get ops k (mc_cache mc)
      in case r of
           Some entry \<Rightarrow>
             if now < expires_at entry
             then (Some (cv_data entry), mc\<lparr>mc_cache := m1, hit_count := hit_count mc + 1\<rparr>)
             else (None, mc\<lparr>mc_cache := moka_invalidate ops k m1, miss_count := miss_count mc + 1\<rparr>)
         | None \<Rightarrow> (None, mc\<lparr>mc_cache := m1, miss_count := miss_count mc + 1\<rparr>))"

text \<open>\<open>None\<close> when \<open>Instant::now() + ttl\<close> panics, before anything is inserted.\<close>

definition cache_set ::
  "'m moka_ops \<Rightarrow> instant \<Rightarrow> bytes \<Rightarrow> bytes \<Rightarrow> duration \<Rightarrow> 'm memory_cache \<Rightarrow> 'm memory_cache option" where
  "cache_set ops now key value ttl mc =
     (case instant_add now ttl of
        None \<Rightarrow> None
      | Some t \<Rightarrow>
          Some (mc\<lparr>mc_cache := moka_insert ops (hash_to_u64 key)
                      \<lparr>cv_data = value, expires_at = t\<rparr> (mc_cache mc)\<rparr>))"

definition cache_delete :: "'m moka_ops \<Rightarrow> bytes \<Rightarrow> 'm memory_cache \<Rightarrow> bool \<times> 'm memory_cache" where
  "cache_delete ops key mc =
     (let k = hash_to_u64 key; (r, m1) = moka_get ops k (mc_cache mc)
      in (r \<noteq> None, mc\<lparr>mc_cache := moka_invalidate ops k m1\<rparr>))"

definition cache_flush :: "'m moka_ops \<Rightarrow> 'm memory_cache \<Rightarrow> 'm memory_cache" where
  "cache_flush ops mc =
     mc\<lparr>mc_cache := moka_invalidate_all ops (mc_cache mc), hit_count := 0, miss_count := 0, eviction_count := 0\<rparr>"

definition get_cache_stats :: "'m moka_ops \<Rightarrow> 'm memory_cache \<Rightarrow> cache_stats" where
  "get_cache_stats ops mc =
     \<lparr>cs_hit_count = hit_count mc, cs_miss_count = miss_count mc,
      cs_size = moka_entry_count ops (mc_cache mc), cs_eviction_count = eviction_count mc\<rparr>"

text \<open>Sequences of calls, with the answers of the reads; a panicking insertion changes nothing.\<close>

datatype cache_op = Get instant bytes | Set instant bytes bytes duration | Delete bytes | Flush

fun cache_step :: "'m moka_ops \<Rightarrow> cache_op \<Rightarrow> 'm memory_cache \<Rightarrow> bytes option \<times> 'm memory_cache" where
  "cache_step ops (Get now k) mc = cache_get ops now k mc"
| "cache_step ops (Set now k v ttl) mc =
     (None, case cache_set ops now k v ttl mc of None \<Rightarrow> mc | Some mc' \<Rightarrow> mc')"
| "cache_step ops (Delete k) mc = (None, snd (cache_delete ops k mc))"
| "cache_step ops Flush mc = (None, cache_flush ops mc)"

fun cache_run :: "'m moka_ops \<Rightarrow> cache_op list \<Rightarrow> 'm memory_cache \<Rightarrow> bytes option list \<times> 'm memory_cache" where
  "cache_run ops [] mc = ([], mc)"
| "cache_run ops (c # cs) mc =
     (let (r, mc1) = cache_step ops c mc; (rs, mc2) = cache_run ops cs mc1 in (r # rs, mc2))"

text \<open>
  The specification of the cache: an unbounded map from keys to values with an expiry, in which a
  key is identified by its first eight bytes and reads have no effect.
\<close>

type_synonym ideal_cache = "u64 \<rightharpoonup> cached_value"

fun ideal_step :: "cache_op \<Rightarrow> ideal_cache \<Rightarrow> bytes option \<times> ideal_cache" where
  "ideal_step (Get now k) c =
     (case c (hash_to_u64 k) of
        Some e \<Rightarrow> if now < expires_at e then (Some (cv_data e), c) else (None, c)
      | None \<Rightarrow> (None, c))"
| "ideal_step (Set now k v ttl) c =
     (None, case instant_add now ttl of None \<Rightarrow> c
            | Some t \<Rightarrow> c(hash_to_u64 k \<mapsto> \<lparr>cv_data = v, expires_at = t\<rparr>))"
| "ideal_step (Delete k) c = (None, c(hash_to_u64 k := None))"
| "ideal_step Flush c = (None, Map.empty)"

fun ideal_run :: "cache_op list \<Rightarrow> ideal_cache \<Rightarrow> bytes option list \<times> ideal_cache" where
  "ideal_run [] c = ([], c)"
| "ideal_run (x # xs) c =
     (let (r, c1) = ideal_step x c; (rs, c2) = ideal_run xs c1 in (r # rs, c2))"

subsection \<open>What the cache promises its clients\<close>

locale response_cache =
  fixes get :: "instant \<Rightarrow> bytes \<Rightarrow> 'c \<Rightarrow> bytes option \<times> 'c"
    and set :: "instant \<Rightarrow> bytes \<Rightarrow> bytes \<Rightarrow> duration \<Rightarrow> 'c \<Rightarrow> 'c option"
    and flush :: "'c \<Rightarrow> 'c"
    and stored :: "'c \<Rightarrow> u64 \<rightharpoonup> cached_value"
  assumes get_hit: "fst (get now k c) = Some d \<Longrightarrow>
      \<exists>e. stored c (hash_to_u64 k) = Some e \<and> cv_data e = d \<and> now < expires_at e"
    and get_stored: "stored (snd (get now k c)) \<subseteq>\<^sub>m stored c"
    and set_panics: "set now k v ttl c = None \<longleftrightarrow> instant_add now ttl = None"
    and set_stored: "set now k v ttl c = Some c' \<Longrightarrow>
      stored c' \<subseteq>\<^sub>m (stored c)(hash_to_u64 k \<mapsto> \<lparr>cv_data = v, expires_at = now + ttl\<rparr>)"
    and flush_stored: "stored (flush c) = Map.empty"
begin

text \<open>A cache refines an ideal one when it stores a part of it. Each operation keeps this, and a hit is
  the answer of the ideal cache.\<close>

definition inside :: "'c \<Rightarrow> ideal_cache \<Rightarrow> bool" where
  "inside c i \<longleftrightarrow> stored c \<subseteq>\<^sub>m i"

lemma inside_get:
  assumes "inside c i" and "get now k c = (r, c')"
  shows "inside c' i"
    and "r = Some d \<Longrightarrow> \<exists>e. i (hash_to_u64 k) = Some e \<and> now < expires_at e \<and> d = cv_data e"
proof -
  show "inside c' i" using get_stored [of now k c] assms map_le_trans by (fastforce simp: inside_def)
  show "\<exists>e. i (hash_to_u64 k) = Some e \<and> now < expires_at e \<and> d = cv_data e" if "r = Some d"
    using get_hit [of now k c d] assms that map_leD by (fastforce simp: inside_def)
qed

lemma inside_set:
  assumes "inside c i"
  shows "inside (case set now k v ttl c of None \<Rightarrow> c | Some c' \<Rightarrow> c') (snd (ideal_step (Set now k v ttl) i))"
proof (cases "set now k v ttl c")
  case None
  moreover have "instant_add now ttl = None" using None set_panics by blast
  ultimately show ?thesis using assms by simp
next
  case (Some c')
  then have t: "instant_add now ttl = Some (now + ttl)"
    using set_panics [of now k v ttl c] instant_add_SomeD by (cases "instant_add now ttl") auto
  have "(stored c)(hash_to_u64 k \<mapsto> e) \<subseteq>\<^sub>m i(hash_to_u64 k \<mapsto> e)" for e
    using assms by (simp add: inside_def map_le_def)
  then show ?thesis using Some t set_stored [OF Some] map_le_trans by (fastforce simp: inside_def)
qed

lemma inside_flush: "inside (flush c) (snd (ideal_step Flush i))"
  by (simp add: inside_def flush_stored)

end

locale moka =
  fixes ops :: "'m moka_ops"
  assumes new_empty: "fst (moka_get ops k (moka_new ops n)) = None"
    and get_drops: "(\<lambda>x. fst (moka_get ops x (snd (moka_get ops k m)))) \<subseteq>\<^sub>m (\<lambda>x. fst (moka_get ops x m))"
    and insert_drops: "(\<lambda>x. fst (moka_get ops x (moka_insert ops k v m)))
        \<subseteq>\<^sub>m (\<lambda>x. fst (moka_get ops x m))(k \<mapsto> v)"
    and invalidate_drops: "(\<lambda>x. fst (moka_get ops x (moka_invalidate ops k m)))
        \<subseteq>\<^sub>m (\<lambda>x. fst (moka_get ops x m))(k := None)"
    and invalidate_all_empty: "fst (moka_get ops k (moka_invalidate_all ops m)) = None"
begin

definition content :: "'m memory_cache \<Rightarrow> u64 \<rightharpoonup> cached_value" where
  "content mc = (\<lambda>x. fst (moka_get ops x (mc_cache mc)))"

lemma content_invalidate:
  "(\<lambda>x. fst (moka_get ops x (moka_invalidate ops k (snd (moka_get ops j m)))))
     \<subseteq>\<^sub>m (\<lambda>x. fst (moka_get ops x m))(k := None)"
proof -
  have "(\<lambda>x. fst (moka_get ops x (snd (moka_get ops j m))))(k := None)
      \<subseteq>\<^sub>m (\<lambda>x. fst (moka_get ops x m))(k := None)"
    using get_drops [of j m] by (auto simp: map_le_def)
  then show ?thesis using invalidate_drops map_le_trans by blast
qed

lemma content_get: "content (snd (cache_get ops now k mc)) \<subseteq>\<^sub>m content mc"
proof -
  have "m(x := None) \<subseteq>\<^sub>m m" for m :: "u64 \<rightharpoonup> cached_value" and x by (simp add: map_le_def)
  then have "(\<lambda>x. fst (moka_get ops x (moka_invalidate ops (hash_to_u64 k)
        (snd (moka_get ops (hash_to_u64 k) (mc_cache mc)))))) \<subseteq>\<^sub>m (\<lambda>x. fst (moka_get ops x (mc_cache mc)))"
    using content_invalidate map_le_trans by blast
  then show ?thesis
    using get_drops by (auto simp: content_def cache_get_def Let_def split_beta split: option.splits)
qed

lemma content_set:
  "cache_set ops now k v ttl mc = Some mc' \<Longrightarrow>
     content mc' \<subseteq>\<^sub>m (content mc)(hash_to_u64 k \<mapsto> \<lparr>cv_data = v, expires_at = now + ttl\<rparr>)"
  using insert_drops by (auto simp: content_def cache_set_def dest: instant_add_SomeD split: option.splits)

lemma get_answer:
  "fst (cache_get ops now k mc) =
     (case content mc (hash_to_u64 k) of
        Some e \<Rightarrow> if now < expires_at e then Some (cv_data e) else None | None \<Rightarrow> None)"
  by (auto simp: content_def cache_get_def Let_def split_beta split: option.splits)

end

sublocale moka \<subseteq> mem: response_cache "cache_get ops" "cache_set ops" "cache_flush ops" content
proof
  show "content (cache_flush ops c) = Map.empty" for c
    by (simp add: content_def cache_flush_def invalidate_all_empty)
  show "cache_set ops now k v ttl c = None \<longleftrightarrow> instant_add now ttl = None" for now k v ttl c
    by (simp add: cache_set_def split: option.split)
qed (auto simp: get_answer content_get content_set split: option.splits if_splits)

text \<open>The memory cache refines the ideal cache: it holds a part of what the ideal cache holds.\<close>

context moka
begin

definition refines :: "'m memory_cache \<Rightarrow> ideal_cache \<Rightarrow> bool" where
  "refines mc c \<longleftrightarrow> mem.inside mc c"

lemma refines_new: "refines (memory_cache_new ops mb) Map.empty"
  by (simp add: refines_def mem.inside_def content_def memory_cache_new_def Let_def new_empty map_le_def)

lemma refines_get:
  assumes "refines mc c" and "cache_get ops now k mc = (r, mc')"
  shows "refines mc' c \<and> (\<forall>d. r = Some d \<longrightarrow> (\<exists>v. c (hash_to_u64 k) = Some v \<and> now < expires_at v \<and> d = cv_data v))"
  using mem.inside_get assms unfolding refines_def by blast

lemma refines_set:
  "refines mc c \<Longrightarrow> refines (case cache_set ops now k v ttl mc of None \<Rightarrow> mc | Some mc' \<Rightarrow> mc') (snd (ideal_step (Set now k v ttl) c))"
  using mem.inside_set unfolding refines_def .

lemma refines_flush: "refines (cache_flush ops mc) Map.empty"
  using mem.inside_flush unfolding refines_def by simp

lemma refines_delete:
  assumes "refines mc c"
  shows "refines (snd (cache_delete ops k mc)) (c(hash_to_u64 k := None))"
proof -
  have "(content mc)(hash_to_u64 k := None) \<subseteq>\<^sub>m c(hash_to_u64 k := None)"
    using assms by (simp add: refines_def mem.inside_def map_le_def)
  then show ?thesis
    using content_invalidate map_le_trans
    by (fastforce simp: refines_def mem.inside_def content_def cache_delete_def Let_def split_beta)
qed

lemma refines_step:
  assumes "refines mc c"
  shows "refines (snd (cache_step ops x mc)) (snd (ideal_step x c))
    \<and> (fst (cache_step ops x mc) = None \<or> fst (cache_step ops x mc) = fst (ideal_step x c))"
proof (cases x)
  case (Get now k)
  obtain r mc' where g: "cache_get ops now k mc = (r, mc')" by fastforce
  then show ?thesis using refines_get [OF assms g] by (cases r) (auto simp: Get split: option.split)
qed (use assms refines_set refines_delete refines_flush in auto)

lemma refines_run:
  "refines mc c \<Longrightarrow>
   list_all2 (\<lambda>r i. r = None \<or> r = i) (fst (cache_run ops xs mc)) (fst (ideal_run xs c))"
proof (induction xs arbitrary: mc c)
  case (Cons x xs)
  then show ?case using refines_step [OF Cons.prems, of x] by (simp add: split_beta)
qed simp

end

subsection \<open>An instance\<close>

text \<open>A store that obeys the promises of \<open>moka\<close>: at most \<open>n\<close> entries, the oldest insertion evicted
  first.\<close>

definition fifo_ops :: "(nat \<times> (u64 \<times> cached_value) list) moka_ops" where
  "fifo_ops =
     \<lparr>moka_new = (\<lambda>n. (unat n, [])),
      moka_get = (\<lambda>k (n, es). (map_of es k, (n, es))),
      moka_insert = (\<lambda>k v (n, es). (n, take n ((k, v) # filter (\<lambda>e. fst e \<noteq> k) es))),
      moka_invalidate = (\<lambda>k (n, es). (n, filter (\<lambda>e. fst e \<noteq> k) es)),
      moka_invalidate_all = (\<lambda>(n, es). (n, [])),
      moka_entry_count = (\<lambda>(n, es). word_of_nat (length es))\<rparr>"

lemma map_of_take_le: "map_of (take n es) \<subseteq>\<^sub>m map_of es"
proof -
  have "map_of (take n es) x = map_of (take n es @ drop n es) x" if "x \<in> dom (map_of (take n es))" for x
    using that by (auto simp only: map_of_append map_add_def dom_def split: option.splits)
  then show ?thesis by (simp add: map_le_def)
qed

lemma map_of_filter_neq: "map_of (filter (\<lambda>e. fst e \<noteq> k) es) = (map_of es)(k := None)"
  by (induction es) (auto simp: fun_eq_iff)

interpretation fifo: moka fifo_ops
proof
  show "(\<lambda>x. fst (moka_get fifo_ops x (moka_insert fifo_ops k v m)))
      \<subseteq>\<^sub>m (\<lambda>x. fst (moka_get fifo_ops x m))(k \<mapsto> v)" for k v m
  proof (cases m)
    case (Pair n es)
    have "map_of ((k, v) # filter (\<lambda>e. fst e \<noteq> k) es) = (map_of es)(k \<mapsto> v)"
      by (simp add: map_of_filter_neq)
    then show ?thesis
      using map_of_take_le [of n "(k, v) # filter (\<lambda>e. fst e \<noteq> k) es"] by (simp add: fifo_ops_def Pair)
  qed
qed (auto simp: fifo_ops_def map_of_filter_neq map_le_def)

subsection \<open>Keys\<close>

lemma le_nat_bound: "le_nat bs < 256 ^ length bs"
proof (induction bs)
  case (Cons b bs)
  have "unat b < 256" using unsigned_less [of b] by simp
  then show ?case using Cons.IH by simp
qed simp

lemma base256_inj:
  fixes a b x y :: nat
  assumes "a < 256" and "b < 256" and eq: "a + 256 * x = b + 256 * y"
  shows "a = b \<and> x = y"
proof -
  have "(a + 256 * x) mod 256 = a" "(b + 256 * y) mod 256 = b" using assms(1,2) by simp_all
  then have "a = b" using eq by metis
  then show ?thesis using eq by simp
qed

lemma le_nat_inj: "length as = length bs \<Longrightarrow> le_nat as = le_nat bs \<Longrightarrow> as = bs"
proof (induction as bs rule: list_induct2)
  case (Cons a as b bs)
  have "unat a < 256" "unat b < 256" using unsigned_less [of a] unsigned_less [of b] by simp_all
  then have "unat a = unat b \<and> le_nat as = le_nat bs"
    using base256_inj [of "unat a" "unat b"] Cons.prems by simp
  then show ?case using Cons.IH by (simp add: word_unat_eq_iff)
qed simp

lemma unat_hash_to_u64:
  assumes "8 \<le> length k"
  shows "unat (hash_to_u64 k) = le_nat (take 8 k)"
proof -
  have "min (length k) 8 = 8" using assms by simp
  moreover have "le_nat (take 8 k) < 256 ^ 8" using le_nat_bound [of "take 8 k"] assms by simp
  ultimately show ?thesis by (simp add: hash_to_u64_def Let_def unat_of_nat)
qed

subsection \<open>Counters\<close>

text \<open>The number of hits and misses among the answers since the last flush.\<close>

fun tally :: "cache_op list \<Rightarrow> bytes option list \<Rightarrow> nat \<times> nat \<Rightarrow> nat \<times> nat" where
  "tally (Get now k # xs) (r # rs) (h, m) = tally xs rs (if r = None then (h, Suc m) else (Suc h, m))"
| "tally (Flush # xs) (r # rs) hm = tally xs rs (0, 0)"
| "tally (_ # xs) (r # rs) hm = tally xs rs hm"
| "tally _ _ hm = hm"

definition counted :: "'m memory_cache \<Rightarrow> nat \<times> nat \<Rightarrow> bool" where
  "counted mc hm \<longleftrightarrow> hit_count mc = word_of_nat (fst hm) \<and> miss_count mc = word_of_nat (snd hm) \<and> eviction_count mc = 0"

lemma counted_get:
  "counted mc (h, m) \<Longrightarrow>
   counted (snd (cache_get ops now k mc)) (if fst (cache_get ops now k mc) = None then (h, Suc m) else (Suc h, m))"
  by (simp add: counted_def cache_get_def Let_def split_beta add.commute split: option.splits)

lemma counted_other:
  "counted mc hm \<Longrightarrow> cache_set ops now k v ttl mc = Some mc' \<Longrightarrow> counted mc' hm"
  "counted mc hm \<Longrightarrow> counted (snd (cache_delete ops k mc)) hm"
  "counted (cache_flush ops mc) (0, 0)"
  by (auto simp: counted_def cache_set_def cache_delete_def cache_flush_def Let_def split_beta split: option.splits)

lemma counted_run:
  "counted mc hm \<Longrightarrow> counted (snd (cache_run ops xs mc)) (tally xs (fst (cache_run ops xs mc)) hm)"
proof (induction xs arbitrary: mc hm)
  case (Cons x xs)
  show ?case
  proof (cases x)
    case (Get now k)
    obtain h m where hm: "hm = (h, m)" by fastforce
    show ?thesis using Cons.IH [OF counted_get [of mc h m ops now k]] Cons.prems
      by (simp add: Get hm split_beta split: if_splits)
  next
    case (Set now k v ttl)
    have "counted (case cache_set ops now k v ttl mc of None \<Rightarrow> mc | Some mc' \<Rightarrow> mc') hm"
      using Cons.prems counted_other(1) by (metis option.case_eq_if option.collapse)
    then show ?thesis using Cons.IH by (simp add: Set split_beta)
  next
    case (Delete k)
    then show ?thesis using Cons.IH [OF counted_other(2) [OF Cons.prems, of ops k]] by (simp add: split_beta)
  next
    case Flush
    then show ?thesis using Cons.IH [OF counted_other(3) [of ops mc]] by (simp add: split_beta)
  qed
qed simp

subsection \<open>Properties\<close>

text \<open>C4. Whatever the eviction policy of the underlying store, every answer of the cache in any
  sequence of reads, insertions, deletions and flushes is either a miss or the answer of an
  unbounded cache that keeps every value until its expiry: nothing stale, expired, deleted or
  flushed is ever served.\<close>

theorem cache_refines_ideal:
  assumes "moka ops"
  shows "list_all2 (\<lambda>r i. r = None \<or> r = i)
    (fst (cache_run ops xs (memory_cache_new ops mb))) (fst (ideal_run xs Map.empty))"
proof -
  have "moka.refines ops (memory_cache_new ops mb) Map.empty"
    by (rule moka.refines_new [OF assms])
  then show ?thesis by (rule moka.refines_run [OF assms])
qed

theorem cache_refines_ideal_witness:
  "let xs = [Set 0 [1] [7] 10, Get 5 [1], Get 10 [1]]
   in fst (cache_run fifo_ops xs (memory_cache_new fifo_ops 1)) = [None, Some [7], None]
    \<and> list_all2 (\<lambda>r i. r = None \<or> r = i)
        (fst (cache_run fifo_ops xs (memory_cache_new fifo_ops 1))) (fst (ideal_run xs Map.empty))"
  using cache_refines_ideal [OF fifo.moka_axioms, of "[Set 0 [1] [7] 10, Get 5 [1], Get 10 [1]]" 1]
  by (simp add: fifo_ops_def cache_get_def cache_set_def memory_cache_new_def hash_to_u64_def Let_def
      instant_add_def nanos_per_sec_def)

text \<open>The statistics are exact: the hit and miss counters are the numbers of hits and misses
  answered since the last flush, modulo \<open>2 ^ 64\<close>; evictions are never counted.\<close>

lemma cache_stats_count_answers:
  "let (answers, mc) = cache_run ops xs (memory_cache_new ops mb); (hits, misses) = tally xs answers (0, 0)
   in cs_hit_count (get_cache_stats ops mc) = word_of_nat hits
    \<and> cs_miss_count (get_cache_stats ops mc) = word_of_nat misses
    \<and> cs_eviction_count (get_cache_stats ops mc) = 0"
  using counted_run [of "memory_cache_new ops mb" "(0, 0)" ops xs]
  by (simp add: counted_def memory_cache_new_def get_cache_stats_def Let_def split_beta)

text \<open>Two digests share a cache slot exactly when their first eight bytes agree; the other 24
  bytes of a SHA-256 digest take no part in the lookup.\<close>

lemma cache_slot_is_digest_prefix:
  assumes "length a = 32" and "length b = 32"
  shows "hash_to_u64 a = hash_to_u64 b \<longleftrightarrow> take 8 a = take 8 b"
proof
  assume "hash_to_u64 a = hash_to_u64 b"
  then have "le_nat (take 8 a) = le_nat (take 8 b)"
    using assms unat_hash_to_u64 [of a] unat_hash_to_u64 [of b] by simp
  then show "take 8 a = take 8 b" using assms le_nat_inj by simp
next
  assume "take 8 a = take 8 b"
  then show "hash_to_u64 a = hash_to_u64 b" using assms by (simp add: hash_to_u64_def min_def)
qed

text \<open>The TTL of a method is that of the last cache rule that lists it, and zero (do not cache)
  when no rule does.\<close>

lemma ttl_of_last_rule:
  "ttl_for (ttl_table_new rules) m =
     (case last_rule cr_methods rules m of Some r \<Rightarrow> from_secs (unat (ttl_secs r)) | None \<Rightarrow> 0)"
  by (simp add: ttl_for_def ttl_table_new_def insert_rules_apply from_secs_def split: option.splits)

text \<open>The cache key of a JSON-RPC request depends on its body only through the JSON value without
  the fields \<open>id\<close> and \<open>jsonrpc\<close>: requests that differ only there share a key, while the method and
  the parameters reach the digest unchanged.\<close>

lemma cache_key_ignores_id:
  assumes "from_slice b1 = Some (JObject o1)" and "from_slice b2 = Some (JObject o2)"
    and "filter (\<lambda>kv. fst kv \<noteq> ''id'' \<and> fst kv \<noteq> ''jsonrpc'') o1
       = filter (\<lambda>kv. fst kv \<noteq> ''id'' \<and> fst kv \<noteq> ''jsonrpc'') o2"
    and "to_vec (JObject (filter (\<lambda>kv. fst kv \<noteq> ''id'' \<and> fst kv \<noteq> ''jsonrpc'') o1)) = Some v"
  shows "compute_cache_key from_slice to_vec sha256 b1 = sha256 v
    \<and> compute_cache_key from_slice to_vec sha256 b2 = sha256 v"
  using assms by (simp add: compute_cache_key_def conj_commute)

end
