(* ===== verification/Token_Bucket.thy ===== *)
theory Token_Bucket
  imports F64
begin

text \<open>
  \<open>src/rate_limit/mod.rs\<close> and \<open>src/rate_limit/token_bucket.rs\<close>: the in-memory token buckets,
  one per rate key. The mutex around the map makes a call of \<open>check_rate\<close> atomic, so the
  limiter is a state that each call takes and returns; the call reads the clock once (\<open>now\<close>).
  The bodies compute in \<open>f64\<close>, modelled by the rounded operations of theory \<open>F64\<close>.
\<close>

datatype rate_limited = RateLimited

record bucket =
  tokens :: rat
  last_refill :: instant

type_synonym limiter = "string \<rightharpoonup> bucket"

definition limiter_new :: limiter where
  "limiter_new = Map.empty"

definition fresh_bucket :: "instant \<Rightarrow> u32 \<Rightarrow> bucket" where
  "fresh_bucket now burst = \<lparr>tokens = f64_of_nat (unat burst), last_refill = now\<rparr>"

definition refill :: "instant \<Rightarrow> u32 \<Rightarrow> u32 \<Rightarrow> bucket \<Rightarrow> bucket" where
  "refill now rps burst b =
     (let elapsed = as_secs_f64 (now - last_refill b)
      in b\<lparr>tokens := min (f64_add (tokens b) (f64_mul elapsed (f64_of_nat (unat rps))))
                        (f64_of_nat (unat burst)),
           last_refill := now\<rparr>)"

definition take_token :: "bucket \<Rightarrow> bool \<times> bucket" where
  "take_token b =
     (if 1 \<le> tokens b then (True, b\<lparr>tokens := f64_sub (tokens b) 1\<rparr>) else (False, b))"

definition bucket_check :: "u32 \<Rightarrow> u32 \<Rightarrow> instant \<Rightarrow> bucket \<Rightarrow> bool \<times> bucket" where
  "bucket_check rps burst now b = take_token (refill now rps burst b)"

definition check_rate ::
  "instant \<Rightarrow> string \<Rightarrow> u32 \<Rightarrow> u32 \<Rightarrow> limiter \<Rightarrow> (rate_limited + unit) \<times> limiter" where
  "check_rate now key rps burst buckets =
     (let b = (case buckets key of Some b \<Rightarrow> b | None \<Rightarrow> fresh_bucket now burst);
          (ok, b') = bucket_check rps burst now b
      in (if ok then Inr () else Inl RateLimited, buckets(key \<mapsto> b')))"

datatype rate_limiter_dispatch = MemoryLimiter limiter

fun dispatch_check_rate ::
  "instant \<Rightarrow> string \<Rightarrow> u32 \<Rightarrow> u32 \<Rightarrow> rate_limiter_dispatch
     \<Rightarrow> (rate_limited + unit) \<times> rate_limiter_dispatch" where
  "dispatch_check_rate now key rps burst (MemoryLimiter l) =
     (let (r, l') = check_rate now key rps burst l in (r, MemoryLimiter l'))"

text \<open>
  Runs. \<open>serve\<close> feeds a limiter with a sequence of requests (time and key) under a fixed table of
  rates, the way the server uses it; \<open>bucket_run\<close> is one bucket alone.
\<close>

fun serve :: "(string \<Rightarrow> u32 \<times> u32) \<Rightarrow> limiter \<Rightarrow> (instant \<times> string) list
    \<Rightarrow> bool list \<times> limiter" where
  "serve rates l [] = ([], l)"
| "serve rates l ((now, k) # rs) =
     (let (r, l1) = check_rate now k (fst (rates k)) (snd (rates k)) l;
          (oks, l2) = serve rates l1 rs
      in ((r = Inr ()) # oks, l2))"

fun bucket_run :: "u32 \<Rightarrow> u32 \<Rightarrow> bucket \<Rightarrow> instant list \<Rightarrow> bool list \<times> bucket" where
  "bucket_run rps burst b [] = ([], b)"
| "bucket_run rps burst b (t # ts) =
     (let (ok, b1) = bucket_check rps burst t b; (oks, b2) = bucket_run rps burst b1 ts
      in (ok # oks, b2))"

definition bucket_ok :: "u32 \<Rightarrow> bucket \<Rightarrow> bool" where
  "bucket_ok burst b \<longleftrightarrow> is_f64 (tokens b) \<and> 0 \<le> tokens b \<and> tokens b \<le> of_nat (unat burst)"

subsection \<open>One bucket\<close>

lemma last_refill_check [simp]: "last_refill (snd (bucket_check rps burst t b)) = t"
  by (simp add: bucket_check_def take_token_def refill_def Let_def)

lemma bucket_ok_fresh: "bucket_ok burst (fresh_bucket now burst)"
  by (simp add: bucket_ok_def fresh_bucket_def is_f64_of_u32) (simp add: f64_of_u32)

lemma bucket_ok_refill:
  assumes "bucket_ok burst b"
  shows "bucket_ok burst (refill now rps burst b)"
proof -
  have "0 \<le> f64_add (tokens b) (f64_mul (as_secs_f64 d) (f64_of_nat (unat rps)))" for d
    using assms unfolding f64_add_def f64_mul_def f64_of_nat_def bucket_ok_def
    by (intro f64.rnd_nonneg add_nonneg_nonneg mult_nonneg_nonneg) simp_all
  moreover have "is_f64 (f64_add x y)" for x y by (simp add: f64_add_def f64.rnd_f64)
  ultimately show ?thesis
    using is_f64_of_u32 [of burst]
    by (simp add: bucket_ok_def refill_def Let_def min_def) (simp add: f64_of_u32)
qed

lemma take_token_exact:
  assumes "bucket_ok burst b" and "1 \<le> tokens b"
  shows "take_token b = (True, b\<lparr>tokens := tokens b - 1\<rparr>)"
proof -
  have "of_nat (unat burst) \<le> (2 ^ 53 :: rat)"
  proof -
    have "(of_nat (unat burst) :: rat) \<le> of_nat (2 ^ 53)"
      using unat_lt_numeral_u32 [of burst] by (subst of_nat_le_iff) simp
    then show ?thesis by simp
  qed
  then have "f64_sub (tokens b) 1 = tokens b - 1"
    using assms unfolding f64_sub_def bucket_ok_def by (intro f64.rnd_minus_one) linarith+
  then show ?thesis using assms(2) by (simp add: take_token_def)
qed

lemma bucket_ok_take: "bucket_ok burst b \<Longrightarrow> bucket_ok burst (snd (take_token b))"
proof (cases "1 \<le> tokens b")
  case True
  assume b: "bucket_ok burst b"
  have "tokens (snd (take_token b)) = f64_sub (tokens b) 1" using True by (simp add: take_token_def)
  then have "is_f64 (tokens b - 1)"
    using take_token_exact [OF b True] f64.rnd_f64 [of "tokens b - 1"] by (simp add: f64_sub_def)
  then show ?thesis using b True by (simp add: take_token_exact [OF b True] bucket_ok_def)
qed (simp add: take_token_def)

lemma bucket_ok_check: "bucket_ok burst b \<Longrightarrow> bucket_ok burst (snd (bucket_check rps burst t b))"
  by (simp add: bucket_check_def bucket_ok_take bucket_ok_refill)

text \<open>
  The tokens a span of time can grant, with the relative error of the five roundings on the way,
  and the number of admitted requests of a run.
\<close>

definition grant :: "u32 \<Rightarrow> duration \<Rightarrow> rat" where
  "grant rps d = of_nat (unat rps) * (of_nat d / of_nat nanos_per_sec) * (1 + eps) ^ 5"

definition admitted :: "bool list \<Rightarrow> nat" where
  "admitted oks = count_list oks True"

lemma grant_0 [simp]: "grant rps 0 = 0"
  by (simp add: grant_def)

lemma grant_add: "grant rps (c + d) = grant rps c + grant rps d"
  by (simp add: grant_def add_divide_distrib distrib_left distrib_right)

lemma admitted_simps [simp]:
  "admitted [] = 0" "admitted (ok # oks) = of_bool ok + admitted oks"
  by (simp_all add: admitted_def)

lemma refill_upper:
  assumes "bucket_ok burst b"
  shows "tokens (refill now rps burst b)
    \<le> tokens b + grant rps (now - last_refill b) + eps * of_nat (unat burst)"
proof -
  let ?d = "of_nat (now - last_refill b) / of_nat nanos_per_sec :: rat"
  let ?r = "of_nat (unat rps) :: rat"
  let ?a = "f64_mul (as_secs_f64 (now - last_refill b)) ?r"
  have "as_secs_f64 (now - last_refill b) * ?r \<le> (?d * (1 + eps) ^ 3) * ?r"
    by (intro mult_right_mono as_secs_f64_upper) simp
  then have "as_secs_f64 (now - last_refill b) * ?r \<le> (?r * ?d) * (1 + eps) ^ 3"
    by (simp add: mult_ac)
  then have a: "?a \<le> (?r * ?d) * (1 + eps) ^ Suc 3" and a0: "0 \<le> ?a"
    unfolding f64_mul_def by (intro f64.rnd_upper_pow f64.rnd_nonneg mult_nonneg_nonneg; simp)+
  have t: "0 \<le> tokens b" "tokens b \<le> of_nat (unat burst)" using assms by (simp_all add: bucket_ok_def)
  have "f64_add (tokens b) ?a \<le> (tokens b + ?a) * (1 + eps)"
    unfolding f64_add_def using t a0 by (intro f64.rnd_upper) simp
  also have "\<dots> = tokens b + ?a * (1 + eps) + eps * tokens b" by (simp add: algebra_simps)
  also have "\<dots> \<le> tokens b + (?r * ?d) * (1 + eps) ^ Suc 3 * (1 + eps) + eps * of_nat (unat burst)"
    using a t by (intro add_mono mult_mono) (simp_all add: a0)
  also have "(?r * ?d) * (1 + eps) ^ Suc 3 * (1 + eps) = grant rps (now - last_refill b)"
    by (simp add: grant_def mult_ac eval_nat_numeral)
  finally show ?thesis by (simp add: refill_def Let_def f64_of_u32)
qed

lemma bucket_check_upper:
  assumes "bucket_ok burst b" and "bucket_check rps burst now b = (ok, b1)"
  shows "tokens b1 + of_bool ok
    \<le> tokens b + grant rps (now - last_refill b) + eps * of_nat (unat burst)"
proof -
  let ?b = "refill now rps burst b"
  have "tokens b1 + of_bool ok = tokens ?b"
  proof (cases "1 \<le> tokens ?b")
    case True
    then show ?thesis
      using take_token_exact [OF bucket_ok_refill [OF assms(1)], of now rps] assms(2)
      by (auto simp: bucket_check_def)
  next
    case False
    then show ?thesis using assms(2) by (auto simp: take_token_def bucket_check_def)
  qed
  then show ?thesis using refill_upper [OF assms(1), of now rps] by simp
qed

lemma bucket_run_envelope:
  assumes "bucket_ok burst b" and "sorted (last_refill b # ts)"
    and "bucket_run rps burst b ts = (oks, b')"
  shows "of_nat (admitted oks) + tokens b'
    \<le> tokens b + grant rps (last (last_refill b # ts) - last_refill b)
       + of_nat (length ts) * (eps * of_nat (unat burst))"
  using assms
proof (induction ts arbitrary: b oks)
  case Nil
  then show ?case by simp
next
  case (Cons t ts)
  obtain ok b1 where ch: "bucket_check rps burst t b = (ok, b1)" by (cases "bucket_check rps burst t b")
  obtain oks1 where run: "bucket_run rps burst b1 ts = (oks1, b')" and oks: "oks = ok # oks1"
    using Cons.prems(3) ch by (auto split: prod.splits)
  have b1: "bucket_ok burst b1" "last_refill b1 = t"
    using bucket_ok_check [OF Cons.prems(1), of rps t] last_refill_check [of rps burst t b] ch by simp_all
  have srt: "sorted (t # ts)" using Cons.prems(2) by simp
  have "last_refill b \<le> t" "t \<le> last (t # ts)"
    using Cons.prems(2) srt last_in_set [of "t # ts"] by auto
  then have "last (t # ts) - last_refill b = (t - last_refill b) + (last (t # ts) - t)" by simp
  then have "grant rps (last (t # ts) - last_refill b)
      = grant rps (t - last_refill b) + grant rps (last (t # ts) - t)" by (simp only: grant_add)
  moreover have "of_nat (admitted oks1) + tokens b'
    \<le> tokens b1 + grant rps (last (t # ts) - t) + of_nat (length ts) * (eps * of_nat (unat burst))"
    using Cons.IH [OF b1(1) _ run] srt b1(2) by simp
  moreover note bucket_check_upper [OF Cons.prems(1) ch]
  moreover have "of_nat (length (t # ts)) * (eps * of_nat (unat burst))
      = of_nat (length ts) * (eps * of_nat (unat burst)) + eps * of_nat (unat burst)"
    by (simp add: distrib_right)
  moreover have "(of_nat (admitted oks) :: rat) = of_bool ok + of_nat (admitted oks1)" by (simp add: oks)
  moreover have "last (last_refill b # t # ts) = last (t # ts)" by simp
  ultimately show ?case by (simp only:)
qed

text \<open>At one instant nothing is refilled, and \<open>m\<close> stored tokens admit \<open>m\<close> requests.\<close>

lemma as_secs_f64_0 [simp]: "as_secs_f64 0 = 0"
  using f64.rnd_nat [of 0] by (simp add: f64_ops)

lemma refill_same_instant:
  assumes "bucket_ok burst b" and "last_refill b = t"
  shows "refill t rps burst b = b"
proof -
  have "f64_add (tokens b) (f64_mul 0 (f64_of_nat (unat rps))) = tokens b"
    using assms(1) f64.rnd_nat [of 0] by (simp add: f64_add_def f64_mul_def f64.rnd_exact bucket_ok_def)
  then show ?thesis
    using assms by (simp add: refill_def f64_of_u32 min_absorb1 bucket_ok_def)
qed

lemma bucket_run_same_instant:
  assumes "bucket_ok burst b" and "last_refill b = t" and "of_nat m \<le> tokens b"
  shows "fst (bucket_run rps burst b (replicate m t)) = replicate m True
    \<and> snd (bucket_run rps burst b (replicate m t)) = b\<lparr>tokens := tokens b - of_nat m\<rparr>"
  using assms
proof (induction m arbitrary: b)
  case 0
  then show ?case by simp
next
  case (Suc m)
  have one: "1 \<le> tokens b" using Suc.prems(3) by simp
  have "bucket_check rps burst t b = (True, b\<lparr>tokens := tokens b - 1\<rparr>)"
    using Suc.prems take_token_exact [OF Suc.prems(1) one]
    by (simp add: bucket_check_def refill_same_instant)
  moreover have "bucket_ok burst (b\<lparr>tokens := tokens b - 1\<rparr>)"
    using bucket_ok_take [OF Suc.prems(1)] take_token_exact [OF Suc.prems(1) one] by simp
  ultimately show ?case
    using Suc.IH [of "b\<lparr>tokens := tokens b - 1\<rparr>"] Suc.prems
    by (simp add: split_beta algebra_simps)
qed

lemma bucket_run_empty_same_instant:
  assumes "bucket_ok burst b" and "last_refill b = t" and "tokens b < 1"
  shows "bucket_run rps burst b (replicate n t) = (replicate n False, b)"
  using assms
  by (induction n) (simp_all add: bucket_check_def take_token_def refill_same_instant)

lemma bucket_run_append:
  "bucket_run rps burst b (ts @ us) =
    (fst (bucket_run rps burst b ts) @ fst (bucket_run rps burst (snd (bucket_run rps burst b ts)) us),
     snd (bucket_run rps burst (snd (bucket_run rps burst b ts)) us))"
  by (induction ts arbitrary: b) (simp_all add: split_beta)

lemma bucket_run_split_at_burst:
  "fst (bucket_run rps burst (fresh_bucket t burst) (replicate n t))
     = replicate (min n (unat burst)) True @ replicate (n - unat burst) False"
proof -
  let ?m = "min n (unat burst)" and ?b = "fresh_bucket t burst"
  have b: "bucket_ok burst ?b" "last_refill ?b = t" "tokens ?b = of_nat (unat burst)"
    by (simp_all add: bucket_ok_fresh) (simp_all add: fresh_bucket_def f64_of_u32)
  have run: "fst (bucket_run rps burst ?b (replicate ?m t)) = replicate ?m True"
    "snd (bucket_run rps burst ?b (replicate ?m t)) = ?b\<lparr>tokens := of_nat (unat burst) - of_nat ?m\<rparr>"
    using bucket_run_same_instant [OF b(1,2), of ?m rps] b(3) by simp_all
  show ?thesis
  proof (cases "n \<le> unat burst")
    case True
    then show ?thesis using run by simp
  next
    case False
    then have n: "replicate n t = replicate ?m t @ replicate (n - unat burst) t"
      by (simp flip: replicate_add)
    have "bucket_ok burst (?b\<lparr>tokens := 0\<rparr>)" using is_f64_of_nat [of 0] by (simp add: bucket_ok_def)
    then have "bucket_run rps burst (?b\<lparr>tokens := 0\<rparr>) (replicate (n - unat burst) t)
        = (replicate (n - unat burst) False, ?b\<lparr>tokens := 0\<rparr>)"
      using b(2) by (intro bucket_run_empty_same_instant) simp_all
    then show ?thesis using run False by (subst n, subst bucket_run_append) simp
  qed
qed

text \<open>After \<open>n\<close> idle seconds the bucket holds \<open>n * rps\<close> tokens, or is full.\<close>

lemma refill_lower:
  assumes "bucket_ok burst b" and "last_refill b + n * nanos_per_sec \<le> now"
    and "m \<le> unat burst" and "m \<le> n * unat rps" and "n * unat rps \<le> 2 ^ 53"
  shows "of_nat m \<le> tokens (refill now rps burst b)"
proof (cases "m = 0")
  case True
  then show ?thesis using bucket_ok_refill [OF assms(1)] by (simp add: bucket_ok_def)
next
  case False
  let ?e = "as_secs_f64 (now - last_refill b)"
  have "n \<le> 2 ^ 53"
    using False assms(4,5) by (metis gr0I le_trans mult_0_right mult_le_mono2 nat_mult_1_right
        One_nat_def Suc_leI not_less0 not_less)
  moreover have "n * nanos_per_sec \<le> now - last_refill b" using assms(2) by simp
  ultimately have e: "of_nat n \<le> ?e" by (intro as_secs_f64_ge)
  then have "of_nat n * of_nat (unat rps) \<le> ?e * of_nat (unat rps)" by (simp add: mult_right_mono)
  then have "of_nat m \<le> ?e * of_nat (unat rps)"
    using assms(4) by (metis of_nat_le_iff of_nat_mult order_trans)
  then have "of_nat m \<le> f64_mul ?e (of_nat (unat rps))"
    unfolding f64_mul_def using assms(4,5) by (intro f64.rnd_ge_nat) simp_all
  moreover have "0 \<le> tokens b" using assms(1) by (simp add: bucket_ok_def)
  ultimately have "of_nat m \<le> f64_add (tokens b) (f64_mul ?e (of_nat (unat rps)))"
    unfolding f64_add_def using assms(4,5) by (intro f64.rnd_ge_nat) simp_all
  then show ?thesis using assms(3) by (simp add: refill_def Let_def f64_of_u32)
qed

subsection \<open>The limiter: one bucket per key\<close>

text \<open>The contract of the trait \<open>RateLimiter\<close> that the server relies on: a call for one key leaves
  the decisions for every other key alone. \<open>view k l\<close> is what the limiter keeps for a key.\<close>

locale rate_limiter =
  fixes check :: "instant \<Rightarrow> string \<Rightarrow> u32 \<Rightarrow> u32 \<Rightarrow> 'l \<Rightarrow> (rate_limited + unit) \<times> 'l"
    and view :: "string \<Rightarrow> 'l \<Rightarrow> 'v"
  assumes check_other: "k \<noteq> k' \<Longrightarrow> view k' (snd (check now k rps burst l)) = view k' l"
    and check_local: "view k l = view k l' \<Longrightarrow>
      fst (check now k rps burst l) = fst (check now k rps burst l') \<and>
      view k (snd (check now k rps burst l)) = view k (snd (check now k rps burst l'))"
begin

primrec run :: "(string \<Rightarrow> u32 \<times> u32) \<Rightarrow> 'l \<Rightarrow> (instant \<times> string) list \<Rightarrow> bool list" where
  "run rates l [] = []"
| "run rates l (r # rs) =
     (fst (check (fst r) (snd r) (fst (rates (snd r))) (snd (rates (snd r))) l) = Inr ())
     # run rates (snd (check (fst r) (snd r) (fst (rates (snd r))) (snd (rates (snd r))) l)) rs"

lemma length_run [simp]: "length (run rates l rs) = length rs"
  by (induction rs arbitrary: l) simp_all

lemma run_local:
  "view k l = view k l' \<Longrightarrow>
   map snd (filter (\<lambda>x. snd (fst x) = k) (zip rs (run rates l rs)))
     = run rates l' (filter (\<lambda>r. snd r = k) rs)"
proof (induction rs arbitrary: l l')
  case Nil
  then show ?case by simp
next
  case (Cons r rs)
  let ?c = "check (fst r) (snd r) (fst (rates (snd r))) (snd (rates (snd r)))"
  show ?case
  proof (cases "snd r = k")
    case True
    then show ?thesis
      using check_local [OF Cons.prems, of "fst r" "fst (rates k)" "snd (rates k)"]
        Cons.IH [of "snd (?c l)" "snd (?c l')"] by simp
  next
    case False
    then show ?thesis
      using Cons.IH [of "snd (?c l)" l'] Cons.prems check_other [OF False] by simp
  qed
qed

end

interpretation tb: rate_limiter check_rate "\<lambda>k l. l k"
  by unfold_locales (simp_all add: check_rate_def Let_def split_beta)

lemma serve_run: "fst (serve rates l rs) = tb.run rates l rs"
  by (induction rs arbitrary: l) (auto simp: split_beta)

definition decisions_for :: "string \<Rightarrow> (instant \<times> string) list \<Rightarrow> bool list \<Rightarrow> bool list" where
  "decisions_for k rs oks = map snd (filter (\<lambda>x. snd (fst x) = k) (zip rs oks))"

definition times_of :: "string \<Rightarrow> (instant \<times> string) list \<Rightarrow> instant list" where
  "times_of k rs = map fst (filter (\<lambda>r. snd r = k) rs)"

lemma serve_one_key_Some:
  "l k = Some b \<Longrightarrow>
   fst (serve rates l (map (\<lambda>t. (t, k)) ts)) = fst (bucket_run (fst (rates k)) (snd (rates k)) b ts)"
  by (induction ts arbitrary: l b) (simp_all add: check_rate_def Let_def split_beta)

lemma serve_one_key_None:
  "l k = None \<Longrightarrow> ts \<noteq> [] \<Longrightarrow>
   fst (serve rates l (map (\<lambda>t. (t, k)) ts))
     = fst (bucket_run (fst (rates k)) (snd (rates k)) (fresh_bucket (hd ts) (snd (rates k))) ts)"
  by (cases ts) (simp_all add: check_rate_def Let_def split_beta serve_one_key_Some)

lemma filter_key_times: "filter (\<lambda>r. snd r = k) rs = map (\<lambda>t. (t, k)) (times_of k rs)"
  by (induction rs) (auto simp: times_of_def)

lemma decisions_for_bucket:
  assumes "l k = None" and "times_of k rs \<noteq> []"
  shows "decisions_for k rs (fst (serve rates l rs))
    = fst (bucket_run (fst (rates k)) (snd (rates k)) (fresh_bucket (hd (times_of k rs)) (snd (rates k)))
        (times_of k rs))"
proof -
  have "decisions_for k rs (fst (serve rates l rs)) = fst (serve rates l (filter (\<lambda>r. snd r = k) rs))"
    unfolding decisions_for_def serve_run by (rule tb.run_local) simp
  also have "\<dots> = fst (serve rates l (map (\<lambda>t. (t, k)) (times_of k rs)))"
    by (simp only: filter_key_times)
  finally show ?thesis using assms by (simp add: serve_one_key_None)
qed

lemma serve_new_key_at_once:
  assumes "l k = None"
  shows "fst (serve rates l (replicate n (t, k)))
    = replicate (min n (unat (snd (rates k)))) True @ replicate (n - unat (snd (rates k))) False"
proof (cases n)
  case (Suc n')
  have "replicate n (t, k) = map (\<lambda>t. (t, k)) (replicate n t)" by (simp add: map_replicate)
  then have "fst (serve rates l (replicate n (t, k)))
    = fst (bucket_run (fst (rates k)) (snd (rates k)) (fresh_bucket t (snd (rates k))) (replicate n t))"
    using serve_one_key_None [of l k "replicate n t" rates] assms Suc by simp
  then show ?thesis by (simp only: bucket_run_split_at_burst)
qed simp

definition limiter_ok :: "(string \<Rightarrow> u32 \<times> u32) \<Rightarrow> limiter \<Rightarrow> bool" where
  "limiter_ok rates l \<longleftrightarrow> (\<forall>k b. l k = Some b \<longrightarrow> bucket_ok (snd (rates k)) b)"

lemma limiter_ok_check:
  assumes "limiter_ok rates l"
  shows "limiter_ok rates (snd (check_rate now k rps (snd (rates k)) l))"
proof -
  have "bucket_ok (snd (rates k)) (case l k of Some b \<Rightarrow> b | None \<Rightarrow> fresh_bucket now (snd (rates k)))"
    using assms by (auto simp: limiter_ok_def bucket_ok_fresh split: option.splits)
  then have "bucket_ok (snd (rates k)) (snd (bucket_check rps (snd (rates k)) now
      (case l k of Some b \<Rightarrow> b | None \<Rightarrow> fresh_bucket now (snd (rates k)))))"
    by (rule bucket_ok_check)
  then show ?thesis
    using assms by (simp add: limiter_ok_def check_rate_def Let_def split_beta)
qed

lemma limiter_ok_serve: "limiter_ok rates l \<Longrightarrow> limiter_ok rates (snd (serve rates l rs))"
proof (induction rs arbitrary: l)
  case (Cons r rs)
  then show ?case
    using limiter_ok_check [OF Cons.prems, of "fst r" "snd r" "fst (rates (snd r))"]
    by (cases r) (simp add: split_beta)
qed simp

subsection \<open>Properties\<close>

text \<open>In every run of requests for any keys, every bucket holds between zero and its burst
  capacity of tokens, under the rounding of \<open>f64\<close>.\<close>

lemma buckets_stay_within_capacity:
  assumes "snd (serve rates limiter_new rs) k = Some b"
  shows "0 \<le> tokens b \<and> tokens b \<le> of_nat (unat (snd (rates k)))"
  using assms limiter_ok_serve [of rates limiter_new rs]
  by (auto simp: limiter_ok_def bucket_ok_def limiter_new_def)

text \<open>Without capacity there is never a token.\<close>

lemma check_rate_zero_burst: "fst (check_rate now k rps 0 l) = Inl RateLimited"
proof -
  have "tokens (refill now rps 0 b) \<le> 0" for b
    using f64_of_u32 [of 0] by (simp add: refill_def Let_def)
  then have "\<not> 1 \<le> tokens (refill now rps 0 b)" for b by (metis dual_order.trans not_one_le_zero)
  then have "\<not> fst (bucket_check rps 0 now b)" for b by (simp add: bucket_check_def take_token_def)
  then show ?thesis by (simp add: check_rate_def Let_def split_beta)
qed

text \<open>C35. A key that is not known yet admits exactly \<open>burst\<close> requests at one instant and refuses
  the rest, whatever the refill rate.\<close>

theorem burst_admitted_then_refused:
  assumes "l k = None"
  shows "fst (serve rates l (replicate n (t, k)))
    = replicate (min n (unat (snd (rates k)))) True @ replicate (n - unat (snd (rates k))) False"
  using assms by (rule serve_new_key_at_once)

theorem burst_admitted_then_refused_witness:
  "fst (serve (\<lambda>_. (10, 2)) limiter_new (replicate 3 (0, ''ip:a''))) = replicate 2 True @ [False]"
  using burst_admitted_then_refused [of limiter_new "''ip:a''" "\<lambda>_. (10, 2)" 3 0]
  by (simp add: limiter_new_def del: serve.simps)

text \<open>The decisions for a key in any interleaving of requests are those of the key's own
  requests alone: clients under different keys do not disturb each other.\<close>

lemma keys_do_not_interfere:
  "decisions_for k rs (fst (serve rates l rs)) = fst (serve rates l (filter (\<lambda>r. snd r = k) rs))"
  unfolding decisions_for_def serve_run by (rule tb.run_local) simp

text \<open>C5. The rate is enforced: in any interleaving, the requests of a key admitted between its
  first and its last request number at most the burst plus the refill of that span of time,
  plus the rounding error of \<open>f64\<close> (a relative \<open>(1 + 2 ^ -53) ^ 5\<close> on the refill and
  \<open>2 ^ -53\<close> of the burst per request).\<close>

theorem admissions_within_token_bucket_envelope:
  assumes "l k = None" and "times_of k rs \<noteq> []" and "sorted (times_of k rs)"
  shows "of_nat (admitted (decisions_for k rs (fst (serve rates l rs))))
    \<le> of_nat (unat (snd (rates k)))
       + grant (fst (rates k)) (last (times_of k rs) - hd (times_of k rs))
       + of_nat (length (times_of k rs)) * (eps * of_nat (unat (snd (rates k))))"
proof -
  let ?ts = "times_of k rs" and ?r = "fst (rates k)" and ?B = "snd (rates k)"
  let ?b = "fresh_bucket (hd ?ts) ?B"
  obtain oks b' where run: "bucket_run ?r ?B ?b ?ts = (oks, b')" by (cases "bucket_run ?r ?B ?b ?ts")
  have "sorted (last_refill ?b # ?ts)"
    using assms(2,3) by (cases ?ts) (simp_all add: fresh_bucket_def)
  then have "of_nat (admitted oks) + tokens b'
    \<le> tokens ?b + grant ?r (last (last_refill ?b # ?ts) - last_refill ?b)
       + of_nat (length ?ts) * (eps * of_nat (unat ?B))"
    using bucket_run_envelope [OF bucket_ok_fresh _ run] by simp
  moreover have "0 \<le> tokens b'"
  proof -
    have "bucket_ok ?B (snd (bucket_run ?r ?B b ts))" if "bucket_ok ?B b" for b ts
      using that by (induction ts arbitrary: b) (simp_all add: split_beta bucket_ok_check)
    then show ?thesis using run bucket_ok_fresh by (metis bucket_ok_def snd_conv)
  qed
  ultimately show ?thesis
    using decisions_for_bucket [of l k rs rates] assms(1,2) run
    by (simp add: fresh_bucket_def f64_of_u32)
qed

theorem admissions_within_token_bucket_envelope_witness:
  "of_nat (admitted (decisions_for ''a'' [(0, ''a''), (0, ''b''), (0, ''a'')]
      (fst (serve (\<lambda>_. (5, 1)) limiter_new [(0, ''a''), (0, ''b''), (0, ''a'')]))))
   \<le> 1 + 2 * eps"
  using admissions_within_token_bucket_envelope
    [of limiter_new "''a''" "[(0, ''a''), (0, ''b''), (0, ''a'')]" "\<lambda>_. (5, 1)"]
  by (simp add: limiter_new_def times_of_def)

text \<open>C34. A client is never starved: after \<open>n\<close> idle seconds a key admits the next \<open>m\<close> requests at
  once, for every \<open>m\<close> up to its burst and up to \<open>n\<close> times its rate.\<close>

theorem idle_key_is_refilled:
  assumes "limiter_ok rates l" and "l k = Some b"
    and "last_refill b + n * nanos_per_sec \<le> t"
    and "m \<le> unat (snd (rates k))" and "m \<le> n * unat (fst (rates k))"
    and "n * unat (fst (rates k)) \<le> 2 ^ 53"
  shows "fst (serve rates l (replicate m (t, k))) = replicate m True"
proof (cases m)
  case (Suc m')
  let ?r = "fst (rates k)" and ?B = "snd (rates k)"
  let ?b = "refill t ?r ?B b"
  have b: "bucket_ok ?B b" using assms(1,2) by (simp add: limiter_ok_def)
  then have ok: "bucket_ok ?B ?b" and t: "last_refill ?b = t"
    by (simp_all add: bucket_ok_refill) (simp add: refill_def Let_def)
  have "of_nat m \<le> tokens ?b" using refill_lower [OF b assms(3-6)] .
  then have "fst (bucket_run ?r ?B ?b (replicate m t)) = replicate m True"
    using bucket_run_same_instant [OF ok t] by simp
  moreover have "bucket_check ?r ?B t ?b = bucket_check ?r ?B t b"
    using refill_same_instant [OF ok t] by (simp add: bucket_check_def)
  ultimately have "fst (bucket_run ?r ?B b (replicate m t)) = replicate m True"
    by (simp add: Suc split_beta)
  moreover have "replicate m (t, k) = map (\<lambda>t. (t, k)) (replicate m t)" by (simp add: map_replicate)
  ultimately show ?thesis using serve_one_key_Some [of l k b rates "replicate m t"] assms(2) by simp
qed simp

theorem idle_key_is_refilled_witness:
  "fst (serve (\<lambda>_. (10, 3)) [''a'' \<mapsto> \<lparr>tokens = 0, last_refill = 5\<rparr>]
      (replicate 3 (5 + nanos_per_sec, ''a''))) = replicate 3 True"
proof -
  have "limiter_ok (\<lambda>_. (10, 3)) [''a'' \<mapsto> \<lparr>tokens = 0, last_refill = 5\<rparr>]"
    using is_f64_of_nat [of 0] by (simp add: limiter_ok_def bucket_ok_def)
  then show ?thesis
    using idle_key_is_refilled [of "\<lambda>_. (10, 3)" "[''a'' \<mapsto> \<lparr>tokens = 0, last_refill = 5\<rparr>]" "''a''"
        "\<lparr>tokens = 0, last_refill = 5\<rparr>" 1 "5 + nanos_per_sec" 3]
    by simp
qed

end
