(* ===== verification/Key_Store.thy ===== *)
theory Key_Store
  imports Gate_Http Gate_Config "HOL-Library.Multiset"
begin

text \<open>
  \<open>src/auth/mod.rs\<close> and \<open>src/auth/store/sqlite.rs\<close>: where a request carries its API key, and the key
  store. The SQLite table is the list of its rows, on which the three statements of the source act
  as SQL defines them; \<open>fault\<close> is the error of a statement that the database could not run. SHA-256
  and Argon2 are the parameters in \<open>crypto\<close>; what the code relies on is locale
  \<open>password_hashing\<close>: a hash that was made verifies.
\<close>

record key_entry =
  ke_id :: string
  key_hash :: string
  ke_tier :: string
  ke_label :: string
  is_revoked :: bool
  created_at :: i64

type_synonym key_table = "key_entry list"

record 'h crypto =
  sha256 :: "bytes \<Rightarrow> bytes"
  hash_password :: "bytes \<Rightarrow> bytes \<Rightarrow> string + string" \<comment> \<open>password, salt\<close>
  password_hash_new :: "string \<Rightarrow> string + 'h"
  verify_password :: "bytes \<Rightarrow> 'h \<Rightarrow> bool"

subsection \<open>Extraction of the API key\<close>

text \<open>\<open>to_str\<close> is \<open>HeaderValue::to_str\<close>, \<open>form_parse\<close> is \<open>url::form_urlencoded::parse\<close>.\<close>

fun find_api_key :: "(string \<times> string) list \<Rightarrow> string option" where
  "find_api_key [] = None"
| "find_api_key ((k, v) # kvs) = (if k = ''api_key'' \<and> v \<noteq> [] then Some v else find_api_key kvs)"

definition query_api_key :: "(string \<Rightarrow> (string \<times> string) list) \<Rightarrow> string option \<Rightarrow> string option" where
  "query_api_key form_parse query = (case query of None \<Rightarrow> None | Some q \<Rightarrow> find_api_key (form_parse q))"

definition header_api_key ::
  "(bytes \<Rightarrow> string option) \<Rightarrow> (string \<Rightarrow> (string \<times> string) list) \<Rightarrow> header_map \<Rightarrow> string option \<Rightarrow> string option" where
  "header_api_key to_str form_parse headers query =
     (case header_get headers ''X-API-Key'' of
        None \<Rightarrow> query_api_key form_parse query
      | Some key \<Rightarrow>
          (case to_str key of
             None \<Rightarrow> None
           | Some val \<Rightarrow> if val \<noteq> [] then Some val else query_api_key form_parse query))"

definition extract_api_key ::
  "(bytes \<Rightarrow> string option) \<Rightarrow> (string \<Rightarrow> (string \<times> string) list) \<Rightarrow> header_map \<Rightarrow> string option \<Rightarrow> string option" where
  "extract_api_key to_str form_parse headers query =
     (case header_get headers ''Authorization'' of
        None \<Rightarrow> header_api_key to_str form_parse headers query
      | Some auth \<Rightarrow>
          (case to_str auth of
             None \<Rightarrow> None
           | Some val \<Rightarrow>
               (case strip_prefix ''Bearer '' val of
                  Some key \<Rightarrow> if key \<noteq> [] then Some key else header_api_key to_str form_parse headers query
                | None \<Rightarrow> header_api_key to_str form_parse headers query)))"

subsection \<open>The SQLite store\<close>

text \<open>What the database does for a path: \<open>Connection::open\<close> fails, or gives a connection to a file, with
  the table it already has, and the fault of the statement that is then run on it, if it has one. That
  statement creates the table where there is none.\<close>

type_synonym db_open = "string \<Rightarrow> string + key_table option \<times> string option"

definition sqlite_new :: "db_open \<Rightarrow> string \<Rightarrow> string + key_table" where
  "sqlite_new open_db path =
     try_then (open_db path) (\<lambda>(existing, batch_fault).
     case batch_fault of
       Some e \<Rightarrow> Inl e
     | None \<Rightarrow> Inr (case existing of Some t \<Rightarrow> t | None \<Rightarrow> []))"

definition hex_digit :: "nat \<Rightarrow> char" where
  "hex_digit n = (if n < 10 then char_of (48 + n) else char_of (87 + n))"

definition hex_byte :: "u8 \<Rightarrow> string" where
  "hex_byte b = [hex_digit (unat b div 16), hex_digit (unat b mod 16)]"

definition sha256_id :: "'h crypto \<Rightarrow> string \<Rightarrow> string" where
  "sha256_id c raw_key = concat (map hex_byte (sha256 c (as_bytes raw_key)))"

definition hash_key :: "'h crypto \<Rightarrow> bytes \<Rightarrow> string \<Rightarrow> string + string" where
  "hash_key c salt raw_key =
     (case hash_password c (as_bytes raw_key) salt of
        Inl e \<Rightarrow> Inl (''Argon2 hashing failed: '' @ e)
      | Inr h \<Rightarrow> Inr h)"

text \<open>The statements: \<open>id\<close> is the primary key, so an insertion with a known \<open>id\<close> is refused.\<close>

definition sql_select_id :: "string \<Rightarrow> key_table \<Rightarrow> key_entry list" where
  "sql_select_id i t = filter (\<lambda>e. ke_id e = i) t"

definition sql_insert :: "key_entry \<Rightarrow> key_table \<Rightarrow> string + key_table" where
  "sql_insert e t =
     (if sql_select_id (ke_id e) t = [] then Inr (t @ [e])
      else Inl ''UNIQUE constraint failed: api_keys.id'')"

definition sql_revoke :: "string \<Rightarrow> key_table \<Rightarrow> nat \<times> key_table" where
  "sql_revoke i t =
     (length (sql_select_id i t), map (\<lambda>e. if ke_id e = i then e\<lparr>is_revoked := True\<rparr> else e) t)"

definition sqlite_lookup :: "'h crypto \<Rightarrow> string option \<Rightarrow> string \<Rightarrow> key_table \<Rightarrow> string + key_entry option" where
  "sqlite_lookup c fault raw_key t =
     (let key_id = sha256_id c raw_key
      in case fault of
           Some e \<Rightarrow> Inl e
         | None \<Rightarrow>
             (case sql_select_id key_id t of
                [] \<Rightarrow> Inr None
              | entry # _ \<Rightarrow>
                  (case password_hash_new c (key_hash entry) of
                     Inl e \<Rightarrow> Inl (''Invalid password hash: '' @ e)
                   | Inr parsed_hash \<Rightarrow>
                       if verify_password c (as_bytes raw_key) parsed_hash then Inr (Some entry) else Inr None)))"

text \<open>The clock is the time since the epoch, and \<open>None\<close> before it, where the source's \<open>unwrap\<close> panics;
  a panic is the answer \<open>None\<close>. \<open>as_secs() as i64\<close> wraps.\<close>

definition sqlite_create_key ::
  "'h crypto \<Rightarrow> string option \<Rightarrow> bytes \<Rightarrow> duration option \<Rightarrow> string \<Rightarrow> string \<Rightarrow> string \<Rightarrow> key_table
     \<Rightarrow> (string + key_entry) option \<times> key_table" where
  "sqlite_create_key c fault salt clock raw_key tier label t =
     (let key_id = sha256_id c raw_key
      in case hash_key c salt raw_key of
           Inl e \<Rightarrow> (Some (Inl e), t)
         | Inr h \<Rightarrow>
             (case clock of
                None \<Rightarrow> (None, t)
              | Some d \<Rightarrow>
                  let entry = \<lparr>ke_id = key_id, key_hash = h, ke_tier = tier, ke_label = label,
                               is_revoked = False, created_at = word_of_nat (d div nanos_per_sec)\<rparr>
                  in case fault of
                       Some e \<Rightarrow> (Some (Inl e), t)
                     | None \<Rightarrow>
                         (case sql_insert entry t of
                            Inl e \<Rightarrow> (Some (Inl e), t)
                          | Inr t' \<Rightarrow> (Some (Inr entry), t'))))"

definition sqlite_revoke_key :: "string option \<Rightarrow> string \<Rightarrow> key_table \<Rightarrow> (string + bool) \<times> key_table" where
  "sqlite_revoke_key fault key_id t =
     (case fault of
        Some e \<Rightarrow> (Inl e, t)
      | None \<Rightarrow> let (affected, t') = sql_revoke key_id t in (Inr (affected > 0), t'))"

text \<open>\<open>order_by\<close> is how SQLite orders the rows; the order of equal timestamps is its own.\<close>

definition sqlite_list_keys ::
  "(key_table \<Rightarrow> key_table) \<Rightarrow> string option \<Rightarrow> key_table \<Rightarrow> string + key_entry list" where
  "sqlite_list_keys order_by fault t = (case fault of Some e \<Rightarrow> Inl e | None \<Rightarrow> Inr (order_by t))"

subsection \<open>The trait object\<close>

datatype key_store_dispatch = SqliteStore (sqlite_table: key_table)

fun dispatch_lookup :: "'h crypto \<Rightarrow> string option \<Rightarrow> string \<Rightarrow> key_store_dispatch \<Rightarrow> string + key_entry option" where
  "dispatch_lookup c fault raw_key (SqliteStore t) = sqlite_lookup c fault raw_key t"

fun dispatch_create_key ::
  "'h crypto \<Rightarrow> string option \<Rightarrow> bytes \<Rightarrow> duration option \<Rightarrow> string \<Rightarrow> string \<Rightarrow> string \<Rightarrow> key_store_dispatch
     \<Rightarrow> (string + key_entry) option \<times> key_store_dispatch" where
  "dispatch_create_key c fault salt clock raw_key tier label (SqliteStore t) =
     map_prod id SqliteStore (sqlite_create_key c fault salt clock raw_key tier label t)"

fun dispatch_revoke_key :: "string option \<Rightarrow> string \<Rightarrow> key_store_dispatch \<Rightarrow> (string + bool) \<times> key_store_dispatch" where
  "dispatch_revoke_key fault key_id (SqliteStore t) = map_prod id SqliteStore (sqlite_revoke_key fault key_id t)"

fun dispatch_list_keys ::
  "(key_table \<Rightarrow> key_table) \<Rightarrow> string option \<Rightarrow> key_store_dispatch \<Rightarrow> string + key_entry list" where
  "dispatch_list_keys order_by fault (SqliteStore t) = sqlite_list_keys order_by fault t"

subsection \<open>Sequences of administrative operations\<close>

text \<open>Each operation carries what its environment decides: the database fault, the salt and the
  clock. An operation that fails leaves the table as it was.\<close>

type_synonym key_env = "string option \<times> bytes \<times> duration option"

datatype 'p key_op = CreateKey 'p string string string | RevokeKey 'p string

definition try_create :: "'h crypto \<Rightarrow> key_env \<Rightarrow> string \<Rightarrow> string \<Rightarrow> string \<Rightarrow> key_table \<Rightarrow> key_table option" where
  "try_create c p k tier label t =
     (case p of (fault, salt, clock) \<Rightarrow>
        (case sqlite_create_key c fault salt clock k tier label t of
           (Some (Inr _), t') \<Rightarrow> Some t'
         | _ \<Rightarrow> None))"

definition try_revoke :: "key_env \<Rightarrow> string \<Rightarrow> key_table \<Rightarrow> key_table option" where
  "try_revoke p i t = (case sqlite_revoke_key (fst p) i t of (Inr _, t') \<Rightarrow> Some t' | _ \<Rightarrow> None)"

definition found :: "'h crypto \<Rightarrow> string \<Rightarrow> key_table \<Rightarrow> key_entry option" where
  "found c k t = (case sqlite_lookup c None k t of Inr r \<Rightarrow> r | Inl _ \<Rightarrow> None)"

fun key_step :: "'h crypto \<Rightarrow> key_env key_op \<Rightarrow> key_table \<Rightarrow> key_table" where
  "key_step c (CreateKey (fault, salt, clock) k tier label) t = snd (sqlite_create_key c fault salt clock k tier label t)"
| "key_step c (RevokeKey (fault, salt, clock) i) t = snd (sqlite_revoke_key fault i t)"

definition key_run :: "'h crypto \<Rightarrow> key_env key_op list \<Rightarrow> key_table \<Rightarrow> key_table" where
  "key_run c xs t = fold (key_step c) xs t"

subsection \<open>The contract of a key store\<close>

locale key_store =
  fixes lookup :: "string \<Rightarrow> 's \<Rightarrow> key_entry option"
    and create :: "'p \<Rightarrow> string \<Rightarrow> string \<Rightarrow> string \<Rightarrow> 's \<Rightarrow> 's option"
    and revoke :: "'p \<Rightarrow> string \<Rightarrow> 's \<Rightarrow> 's option"
    and id_of :: "string \<Rightarrow> string"
  assumes lookup_created: "create p k tier label s = Some s' \<Longrightarrow>
      \<exists>e. lookup k s' = Some e \<and> ke_tier e = tier \<and> ke_label e = label \<and> \<not> is_revoked e"
    and create_keeps: "create p k' tier label s = Some s' \<Longrightarrow> lookup k s = Some e \<Longrightarrow> lookup k s' = Some e"
    and lookup_revoked: "revoke p i s = Some s' \<Longrightarrow>
      lookup k s' = (if i = id_of k then map_option (\<lambda>e. e\<lparr>is_revoked := True\<rparr>) (lookup k s) else lookup k s)"
begin

fun step :: "'p key_op \<Rightarrow> 's \<Rightarrow> 's" where
  "step (CreateKey p k tier label) s = (case create p k tier label s of Some s' \<Rightarrow> s' | None \<Rightarrow> s)"
| "step (RevokeKey p i) s = (case revoke p i s of Some s' \<Rightarrow> s' | None \<Rightarrow> s)"

definition run :: "'p key_op list \<Rightarrow> 's \<Rightarrow> 's" where
  "run xs s = fold step xs s"

lemma step_keeps:
  "lookup k s = Some e \<Longrightarrow> lookup k (step x s) = Some e \<or> lookup k (step x s) = Some (e\<lparr>is_revoked := True\<rparr>)"
  by (cases x) (auto simp: create_keeps lookup_revoked split: option.splits)

lemma step_keeps_unrevoked:
  "lookup k s = Some e \<Longrightarrow> (\<And>p. x \<noteq> RevokeKey p (id_of k)) \<Longrightarrow> lookup k (step x s) = Some e"
  by (cases x) (auto simp: create_keeps lookup_revoked split: option.splits)

lemma revoked_forever:
  "lookup k s = Some e \<Longrightarrow> is_revoked e \<Longrightarrow> lookup k (run xs s) = Some e"
proof (induction xs arbitrary: s)
  case (Cons x xs)
  have "lookup k (step x s) = Some e" using step_keeps [OF Cons.prems(1), of x] Cons.prems(2) by auto
  then show ?case using Cons by (simp add: run_def)
qed (simp add: run_def)

lemma kept_until_revoked:
  "lookup k s = Some e \<Longrightarrow> (\<And>p. RevokeKey p (id_of k) \<notin> set xs) \<Longrightarrow> lookup k (run xs s) = Some e"
proof (induction xs arbitrary: s)
  case (Cons x xs)
  have "lookup k (step x s) = Some e"
    using step_keeps_unrevoked [OF Cons.prems(1), of x] Cons.prems(2) by fastforce
  then show ?case using Cons by (simp add: run_def)
qed (simp add: run_def)

end

locale password_hashing =
  fixes c :: "'h crypto"
  assumes verify_own: "hash_password c pw salt = Inr s \<Longrightarrow>
      \<exists>h. password_hash_new c s = Inr h \<and> verify_password c pw h"

subsection \<open>The SQLite store meets it\<close>

lemma sql_select_append: "sql_select_id i (t @ u) = sql_select_id i t @ sql_select_id i u"
  by (simp add: sql_select_id_def)

lemma sql_select_revoke:
  "sql_select_id i (snd (sql_revoke j t))
     = (if i = j then map (\<lambda>e. e\<lparr>is_revoked := True\<rparr>) (sql_select_id i t) else sql_select_id i t)"
  by (induction t) (auto simp: sql_select_id_def sql_revoke_def)

lemma found_alt:
  "found c k t =
     (case sql_select_id (sha256_id c k) t of [] \<Rightarrow> None
      | e # _ \<Rightarrow> (case password_hash_new c (key_hash e) of Inl _ \<Rightarrow> None
                 | Inr h \<Rightarrow> if verify_password c (as_bytes k) h then Some e else None))"
  by (simp add: found_def sqlite_lookup_def Let_def split: list.splits sum.splits)

lemma try_create_SomeD:
  assumes "try_create c p k tier label t = Some t'"
  shows "\<exists>e. t' = t @ [e] \<and> sql_select_id (sha256_id c k) t = [] \<and> ke_id e = sha256_id c k
    \<and> hash_password c (as_bytes k) (fst (snd p)) = Inr (key_hash e)
    \<and> ke_tier e = tier \<and> ke_label e = label \<and> \<not> is_revoked e"
  using assms
  by (auto simp: try_create_def sqlite_create_key_def hash_key_def sql_insert_def Let_def
      split: prod.splits sum.splits option.splits if_splits)

lemma try_revoke_SomeD: "try_revoke p i t = Some t' \<Longrightarrow> t' = snd (sql_revoke i t)"
  by (auto simp: try_revoke_def sqlite_revoke_key_def split: prod.splits sum.splits option.splits)

sublocale password_hashing \<subseteq> store: key_store "found c" "try_create c" try_revoke "sha256_id c"
proof
  fix p k tier label t t'
  assume "try_create c p k tier label t = Some t'"
  then obtain e where t': "t' = t @ [e]" and sel: "sql_select_id (sha256_id c k) t = []"
    and e: "ke_id e = sha256_id c k" "hash_password c (as_bytes k) (fst (snd p)) = Inr (key_hash e)"
    and fields: "ke_tier e = tier" "ke_label e = label" "\<not> is_revoked e"
    using try_create_SomeD by blast
  have "found c k t' = Some e"
    using sel e(1) verify_own [OF e(2)] by (auto simp: found_alt t' sql_select_append sql_select_id_def)
  then show "\<exists>e. found c k t' = Some e \<and> ke_tier e = tier \<and> ke_label e = label \<and> \<not> is_revoked e"
    using fields by blast
next
  fix p k' tier label t t' k e
  assume "try_create c p k' tier label t = Some t'" and "found c k t = Some e"
  then show "found c k t' = Some e"
    by (auto simp: found_alt sql_select_append dest!: try_create_SomeD split: list.splits)
next
  fix p i t t' k
  assume "try_revoke p i t = Some t'"
  then show "found c k t' = (if i = sha256_id c k
      then map_option (\<lambda>e. e\<lparr>is_revoked := True\<rparr>) (found c k t) else found c k t)"
    by (cases "i = sha256_id c k"; cases "sql_select_id (sha256_id c k) t")
      (auto simp: found_alt sql_select_revoke dest!: try_revoke_SomeD split: sum.splits)
qed

lemma create_failed_keeps:
  "try_create c (fault, salt, clock) k tier label t = None \<Longrightarrow>
     snd (sqlite_create_key c fault salt clock k tier label t) = t"
  by (auto simp: try_create_def sqlite_create_key_def Let_def split: sum.splits option.splits)

lemma create_succeeded:
  "try_create c (fault, salt, clock) k tier label t = Some t' \<Longrightarrow>
     snd (sqlite_create_key c fault salt clock k tier label t) = t'"
  by (auto simp: try_create_def split: prod.splits sum.splits option.splits)

context password_hashing
begin

lemma key_step_eq: "key_step c x t = store.step x t"
  by (cases "(c, x, t)" rule: key_step.cases)
    (auto simp: create_failed_keeps create_succeeded try_revoke_def sqlite_revoke_key_def
      split: option.splits prod.splits)

lemma key_run_eq: "key_run c xs t = store.run xs t"
  by (induction xs arbitrary: t) (simp_all add: key_run_def store.run_def key_step_eq)

lemma created_found:
  "try_create c p k tier label t = Some t' \<Longrightarrow> \<exists>e. found c k t' = Some e \<and> ke_tier e = tier \<and> \<not> is_revoked e"
  using store.lookup_created by blast

lemma revoked_run:
  assumes "sqlite_lookup c None k t = Inr (Some e)" and "sha256_id c k = i"
  shows "found c k (key_run c xs (snd (sqlite_revoke_key None i t))) = Some (e\<lparr>is_revoked := True\<rparr>)"
proof -
  let ?t = "snd (sqlite_revoke_key None i t)"
  have "try_revoke (None, [], None) i t = Some ?t"
    by (simp add: try_revoke_def sqlite_revoke_key_def split_beta)
  then have "found c k ?t = Some (e\<lparr>is_revoked := True\<rparr>)"
    using store.lookup_revoked assms by (simp add: found_def)
  then show ?thesis unfolding key_run_eq by (rule store.revoked_forever) simp
qed

lemma kept_run:
  "sqlite_lookup c None k t = Inr (Some e) \<Longrightarrow> (\<And>p. RevokeKey p (sha256_id c k) \<notin> set xs) \<Longrightarrow>
   found c k (key_run c xs t) = Some e"
  unfolding key_run_eq by (rule store.kept_until_revoked) (simp_all add: found_def)

end

subsection \<open>Identifiers\<close>

definition ids_unique :: "key_table \<Rightarrow> bool" where
  "ids_unique t \<longleftrightarrow> distinct (map ke_id t)"

lemma sql_revoke_ids [simp]: "map ke_id (snd (sql_revoke i t)) = map ke_id t"
  by (simp add: sql_revoke_def)

lemma ids_unique_step: "ids_unique t \<Longrightarrow> ids_unique (key_step c x t)"
proof (cases "(c, x, t)" rule: key_step.cases)
  case (1 c' fault salt clock k tier label t')
  show "ids_unique t \<Longrightarrow> ?thesis"
  proof (cases "try_create c (fault, salt, clock) k tier label t")
    case None
    then show "ids_unique t \<Longrightarrow> ?thesis" using 1 create_failed_keeps [OF None] by auto
  next
    case (Some u)
    then obtain e where "u = t @ [e]" "sql_select_id (ke_id e) t = []" using try_create_SomeD by metis
    then show "ids_unique t \<Longrightarrow> ?thesis"
      using 1 create_succeeded [OF Some] by (auto simp: ids_unique_def sql_select_id_def filter_empty_conv)
  qed
next
  case 2
  then show "ids_unique t \<Longrightarrow> ?thesis"
    by (auto simp: ids_unique_def sqlite_revoke_key_def split_beta split: option.splits)
qed

lemma hex_digit_inj: "m < 16 \<Longrightarrow> n < 16 \<Longrightarrow> hex_digit m = hex_digit n \<longleftrightarrow> m = n"
  by (auto simp: hex_digit_def dest: arg_cong [where f = "of_char :: char \<Rightarrow> nat"] split: if_splits)

lemma hex_byte_inj: "hex_byte a = hex_byte b \<longleftrightarrow> a = b"
proof
  assume eq: "hex_byte a = hex_byte b"
  have "unat a < 256" "unat b < 256" using unsigned_less [of a] unsigned_less [of b] by simp_all
  then have "unat a div 16 = unat b div 16" "unat a mod 16 = unat b mod 16"
    using eq hex_digit_inj by (auto simp: hex_byte_def)
  then show "a = b" by (metis div_mult_mod_eq word_unat_eq_iff)
qed simp

lemma hex_bytes_inj: "concat (map hex_byte as) = concat (map hex_byte bs) \<longleftrightarrow> as = bs"
proof (induction as arbitrary: bs)
  case Nil
  then show ?case by (cases bs) (simp_all add: hex_byte_def)
next
  case (Cons a as)
  show ?case
  proof (cases bs)
    case (Cons b bs')
    have "length (hex_byte a) = length (hex_byte b)" by (simp add: hex_byte_def)
    then show ?thesis using Cons.IH [of bs'] by (simp add: Cons append_eq_append_conv hex_byte_inj)
  qed (simp add: hex_byte_def)
qed

subsection \<open>An instance of the hashing contract\<close>

definition plain_crypto :: "string crypto" where
  "plain_crypto =
     \<lparr>sha256 = (\<lambda>b. b), hash_password = (\<lambda>pw salt. Inr (map (\<lambda>b. char_of (unat b)) (salt @ pw))),
      password_hash_new = Inr, verify_password = (\<lambda>pw h. \<exists>n \<le> length h. drop n h = map (\<lambda>b. char_of (unat b)) pw)\<rparr>"

interpretation plain: password_hashing plain_crypto
proof
  fix pw salt s
  assume "hash_password plain_crypto pw salt = Inr s"
  then have s: "s = map (\<lambda>b. char_of (unat b)) salt @ map (\<lambda>b. char_of (unat b)) pw"
    by (simp add: plain_crypto_def)
  have "\<exists>n \<le> length s. drop n s = map (\<lambda>b. char_of (unat b)) pw"
    by (rule exI [of _ "length salt"]) (simp add: s)
  then show "\<exists>h. password_hash_new plain_crypto s = Inr h \<and> verify_password plain_crypto pw h"
    by (simp add: plain_crypto_def)
qed

subsection \<open>Properties\<close>

text \<open>C36. The sources of an API key, in order: a non-empty Bearer token, a non-empty \<open>X-API-Key\<close>
  header, the first non-empty \<open>api_key\<close> query parameter. An \<open>Authorization\<close> header of another scheme or
  with an empty token, and an empty \<open>X-API-Key\<close>, are passed over as if they were not there; a header that
  is not text hides what comes after it. The extracted key is never empty.\<close>

theorem api_key_precedence:
  fixes headers :: header_map and to_str :: "bytes \<Rightarrow> string option"
  defines "no_bearer \<equiv> (\<forall>a. header_get headers ''Authorization'' = Some a \<longrightarrow>
      (\<exists>val. to_str a = Some val \<and> (\<forall>key. val = ''Bearer '' @ key \<longrightarrow> key = [])))"
  shows "(\<forall>a key. header_get headers ''Authorization'' = Some a \<and> to_str a = Some (''Bearer '' @ key) \<and> key \<noteq> [] \<longrightarrow>
      extract_api_key to_str form_parse headers query = Some key)
   \<and> (\<forall>a. header_get headers ''Authorization'' = Some a \<and> to_str a = None \<longrightarrow>
      extract_api_key to_str form_parse headers query = None)
   \<and> (\<forall>x key. no_bearer \<and> header_get headers ''X-API-Key'' = Some x
        \<and> to_str x = Some key \<and> key \<noteq> [] \<longrightarrow> extract_api_key to_str form_parse headers query = Some key)
   \<and> (\<forall>x. no_bearer \<and> header_get headers ''X-API-Key'' = Some x \<and> to_str x = None \<longrightarrow>
      extract_api_key to_str form_parse headers query = None)
   \<and> (\<forall>q. no_bearer \<and> (\<forall>x. header_get headers ''X-API-Key'' = Some x \<longrightarrow> to_str x = Some []) \<and> query = Some q \<longrightarrow>
      extract_api_key to_str form_parse headers query
        = map_option snd (find (\<lambda>(k, v). k = ''api_key'' \<and> v \<noteq> []) (form_parse q)))
   \<and> extract_api_key to_str form_parse headers query \<noteq> Some []"
proof -
  have find: "find_api_key kvs = map_option snd (find (\<lambda>(k, v). k = ''api_key'' \<and> v \<noteq> []) kvs)" for kvs
    by (induction kvs rule: find_api_key.induct) auto
  have "find_api_key kvs \<noteq> Some []" for kvs by (induction kvs rule: find_api_key.induct) auto
  then have nonempty: "header_api_key to_str form_parse headers query \<noteq> Some []"
    by (auto simp: header_api_key_def query_api_key_def split: option.splits if_splits)
  have bearer: "strip_prefix ''Bearer '' (''Bearer '' @ key) = Some key" for key
    by (simp only: strip_prefix_Some_iff)
  have next_source: "extract_api_key to_str form_parse headers q = header_api_key to_str form_parse headers q"
    if no_bearer for q
    using that unfolding no_bearer_def by (auto simp: extract_api_key_def strip_prefix_Some_iff split: option.split)
  show ?thesis
  proof (intro conjI)
    show "extract_api_key to_str form_parse headers query \<noteq> Some []"
      using nonempty by (auto simp: extract_api_key_def split: option.splits if_splits)
    show "\<forall>a key. header_get headers ''Authorization'' = Some a \<and> to_str a = Some (''Bearer '' @ key) \<and> key \<noteq> [] \<longrightarrow>
        extract_api_key to_str form_parse headers query = Some key"
      by (simp add: extract_api_key_def bearer del: append.simps)
    show "\<forall>a. header_get headers ''Authorization'' = Some a \<and> to_str a = None \<longrightarrow>
        extract_api_key to_str form_parse headers query = None"
      by (simp add: extract_api_key_def)
  qed (auto simp: next_source header_api_key_def query_api_key_def find split: option.split)
qed

theorem api_key_precedence_witness:
  "extract_api_key (\<lambda>b. if b = [115, 107] then Some ''sk'' else Some ''Basic x'') (\<lambda>_. [(''api_key'', ''q'')])
     [(''authorization'', [1]), (''x-api-key'', [115, 107])] (Some ''api_key=q'') = Some ''sk''"
proof -
  let ?headers = "[(''authorization'', [1]), (''x-api-key'', [115, 107])] :: header_map"
  have "header_get ?headers ''Authorization'' = Some [1]" "header_get ?headers ''X-API-Key'' = Some [115, 107]"
    by (simp_all add: header_get_def del: list.map)
  then show ?thesis
    using api_key_precedence [of ?headers "\<lambda>b. if b = [115, 107] then Some ''sk'' else Some ''Basic x''"
        "\<lambda>_. [(''api_key'', ''q'')]" "Some ''api_key=q''"]
    by simp
qed

text \<open>A key that was just created is found again, with the entry that the creation returned.\<close>

lemma created_key_is_found:
  assumes "password_hashing c" and "hash_key c salt k = Inr h" and "sha256_id c k \<notin> ke_id ` set t"
  shows "let entry = \<lparr>ke_id = sha256_id c k, key_hash = h, ke_tier = tier, ke_label = label,
           is_revoked = False, created_at = word_of_nat (d div nanos_per_sec)\<rparr>
    in sqlite_create_key c None salt (Some d) k tier label t = (Some (Inr entry), t @ [entry])
     \<and> sqlite_lookup c None k (t @ [entry]) = Inr (Some entry)"
proof -
  have sel: "sql_select_id (sha256_id c k) t = []" using assms(3) by (force simp: sql_select_id_def filter_empty_conv)
  obtain ph where "password_hash_new c h = Inr ph" "verify_password c (as_bytes k) ph"
    using password_hashing.verify_own [OF assms(1), of "as_bytes k" salt h] assms(2)
    by (auto simp: hash_key_def split: sum.splits)
  then show ?thesis
    using sel assms(2)
    by (simp add: sqlite_create_key_def sqlite_lookup_def sql_insert_def sql_select_append Let_def)
      (simp add: sql_select_id_def)
qed

text \<open>Once a key is revoked it stays revoked, whatever keys are created and revoked afterwards,
  with or without database faults: its row can be neither deleted nor replaced.\<close>

lemma revoked_key_stays_revoked:
  assumes "password_hashing c" and "sqlite_lookup c None k t = Inr (Some e)" and "sha256_id c k = i"
  shows "found c k (key_run c xs (snd (sqlite_revoke_key None i t))) = Some (e\<lparr>is_revoked := True\<rparr>)"
  using assms(2,3) by (rule password_hashing.revoked_run [OF assms(1)])

definition sample_entry :: key_entry where
  "sample_entry = \<lparr>ke_id = sha256_id plain_crypto ''sk'', key_hash = ''sk'', ke_tier = ''basic'', ke_label = [],
     is_revoked = False, created_at = 0\<rparr>"

lemma sample_entry_found: "sqlite_lookup plain_crypto None ''sk'' [sample_entry] = Inr (Some sample_entry)"
proof -
  have "drop 0 ''sk'' = map (\<lambda>b. char_of (unat b)) (as_bytes ''sk'')" by code_simp
  then have "\<exists>n \<le> length ''sk''. drop n ''sk'' = map (\<lambda>b. char_of (unat b)) (as_bytes ''sk'')" by blast
  then show ?thesis
    by (simp add: sqlite_lookup_def sql_select_id_def sample_entry_def plain_crypto_def del: list.map drop.simps)
qed

text \<open>A key keeps working, with its tier, until its own identifier is revoked: creating other keys
  and revoking others does not touch it.\<close>

lemma key_kept_until_revoked:
  assumes "password_hashing c" and "sqlite_lookup c None k t = Inr (Some e)"
    and "\<forall>x \<in> set xs. \<forall>p. x \<noteq> RevokeKey p (sha256_id c k)"
  shows "found c k (key_run c xs t) = Some e"
  using assms(2,3) by (intro password_hashing.kept_run [OF assms(1)]) auto

text \<open>Identifiers stay unique through every sequence of operations, and a second creation of the
  same key is refused without touching the table.\<close>

lemma key_ids_stay_unique:
  assumes "ids_unique t"
  shows "ids_unique (key_run c xs t)
    \<and> (sha256_id c k \<in> ke_id ` set (key_run c xs t) \<longrightarrow>
        try_create c p k tier label (key_run c xs t) = None)"
proof -
  have "ids_unique (key_run c xs t)"
    using assms by (induction xs arbitrary: t) (simp_all add: key_run_def ids_unique_step)
  moreover have "try_create c p k tier label u = None" if "sha256_id c k \<in> ke_id ` set u" for u
    using that try_create_SomeD [of c p k tier label u]
    by (cases "try_create c p k tier label u") (auto simp: sql_select_id_def filter_empty_conv)
  ultimately show ?thesis by blast
qed

text \<open>Two raw keys get the same identifier exactly when their SHA-256 digests are equal: the
  hexadecimal rendering loses nothing.\<close>

lemma key_id_is_digest:
  "sha256_id c a = sha256_id c b \<longleftrightarrow> sha256 c (as_bytes a) = sha256 c (as_bytes b)"
  by (simp add: sha256_id_def hex_bytes_inj)

end
