(* ===== verification/Gate_Metrics.thy ===== *)
theory Gate_Metrics
  imports F64 Gate_Prelude
begin

text \<open>
  \<open>src/metrics/mod.rs\<close>: the label sets, the registered metrics and the handle. The counters, gauges
  and histograms belong to the \<open>prometheus_client\<close> crate; the model keeps the list of calls that
  the program makes on them, in order, and the readings are counts over that list.
\<close>

record request_labels =
  rl_method :: string
  rl_pool :: string
  rl_status :: string
  rl_cached :: string

record method_pool_labels =
  mp_method :: string
  mp_pool :: string

record upstream_labels =
  ul_upstream :: string
  ul_pool :: string

record method_labels =
  ml_method :: string

record tier_reason_labels =
  tr_tier :: string
  tr_reason :: string

record pool_labels =
  pl_pool :: string

text \<open>One constructor per field of \<open>Metrics\<close>: what is done to the member of the family with these
  labels.\<close>

datatype metric_call =
    Requests_total_inc request_labels
  | Request_duration_seconds_observe method_pool_labels rat
  | Upstream_health_set upstream_labels int
  | Upstream_latency_seconds_observe upstream_labels rat
  | Cache_hits_total_inc method_labels
  | Cache_misses_total_inc method_labels
  | Rate_limit_rejections_total_inc tier_reason_labels
  | Circuit_breaker_state_set upstream_labels int
  | Active_connections_set pool_labels int

record metrics_handle =
  registry :: "(string \<times> string) list" \<comment> \<open>name and help text, in the order of registration\<close>
  metric_calls :: "metric_call list"

definition duration_buckets :: "rat list" where
  "duration_buckets = map f64_round
     [5 / 10000, 1 / 1000, 5 / 1000, 1 / 100, 25 / 1000, 5 / 100, 1 / 10, 25 / 100, 5 / 10, 1, 25 / 10, 5]"

definition metrics_handle_new :: metrics_handle where
  "metrics_handle_new =
     \<lparr>registry =
       [(''sorobangate_requests'', ''Total requests''),
        (''sorobangate_request_duration_seconds'', ''Request duration in seconds''),
        (''sorobangate_upstream_health'', ''Upstream health state (1=healthy, 0=unhealthy)''),
        (''sorobangate_upstream_latency_seconds'', ''Upstream response latency in seconds''),
        (''sorobangate_cache_hits'', ''Cache hits by method''),
        (''sorobangate_cache_misses'', ''Cache misses by method''),
        (''sorobangate_rate_limit_rejections'', ''Rate limit rejections''),
        (''sorobangate_circuit_breaker_state'', ''Circuit breaker state (0=closed, 1=open, 2=half-open)''),
        (''sorobangate_active_connections'', ''Active connections per pool'')],
      metric_calls = []\<rparr>"

text \<open>\<open>encode\<close> writes the registry into the buffer, which is returned also when it fails half way.\<close>

definition metrics_render :: "(metrics_handle \<Rightarrow> string \<times> bool) \<Rightarrow> metrics_handle \<Rightarrow> string" where
  "metrics_render encode h = (let (buf, ok) = encode h in buf)"

definition record_calls :: "metric_call list \<Rightarrow> metrics_handle option \<Rightarrow> metrics_handle option" where
  "record_calls cs m = map_option (\<lambda>h. h\<lparr>metric_calls := metric_calls h @ cs\<rparr>) m"

text \<open>The calls recorded so far; none when metrics are disabled.\<close>

definition calls_of :: "metrics_handle option \<Rightarrow> metric_call list" where
  "calls_of m = (case m of None \<Rightarrow> [] | Some h \<Rightarrow> metric_calls h)"

fun is_gauge_call :: "metric_call \<Rightarrow> bool" where
  "is_gauge_call (Upstream_health_set _ _) = True"
| "is_gauge_call (Circuit_breaker_state_set _ _) = True"
| "is_gauge_call (Active_connections_set _ _) = True"
| "is_gauge_call _ = False"

fun is_request_call :: "metric_call \<Rightarrow> bool" where
  "is_request_call (Requests_total_inc _) = True"
| "is_request_call _ = False"

lemma record_calls_simps [simp]:
  "record_calls cs None = None" "record_calls [] m = m"
  "record_calls cs m = None \<longleftrightarrow> m = None"
  by (simp_all add: record_calls_def option.map_ident)

lemma calls_of_record [simp]:
  "calls_of (record_calls cs m) = (if m = None then [] else calls_of m @ cs)"
  by (cases m) (simp_all add: calls_of_def record_calls_def)

end
