(* ===== verification/App_State.thy ===== *)
theory App_State
  imports Upstream_Pool Gate_Routing Memory_Cache Token_Bucket Key_Store Gate_Metrics
begin

text \<open>
  The state that the handlers of \<open>src/server\<close> share (\<open>AppState\<close>, with the objects behind its \<open>Arc\<close>s
  inlined), and the third-party functions they call, gathered in one record \<open>libs\<close> that is a
  parameter of every handler.
\<close>

record 'm app_state =
  st_config :: config
  start_time :: instant
  st_pools :: "upstream_pool list"
  st_heap :: heap \<comment> \<open>the \<open>UpstreamState\<close> objects\<close>
  st_router :: router
  st_cache :: "'m memory_cache option"
  cache_ttl_table :: "string \<rightharpoonup> u64"
  st_rate_limiter :: "rate_limiter_dispatch option"
  st_key_store :: "key_store_dispatch option"
  auth_tiers :: "string \<rightharpoonup> key_tier"
  st_metrics :: "metrics_handle option"

text \<open>The request that \<open>forward_to_upstream\<close> builds, and what may come back.\<close>

record outgoing =
  out_method :: string
  out_uri :: string
  out_headers :: header_map
  out_body :: bytes

datatype exchange =
    TimedOut
  | RequestErr string
  | UpstreamResponse status header_map "string + bytes" \<comment> \<open>collecting the body may fail\<close>

record ('m, 'h) libs =
  lib_moka :: "'m moka_ops"
  lib_crypto :: "'h crypto"
  from_slice :: "bytes \<Rightarrow> json option"
  to_vec :: "json \<Rightarrow> bytes option"
  to_str :: "bytes \<Rightarrow> string option"
  form_parse :: "string \<Rightarrow> (string \<times> string) list"
  parse_uri :: "string \<Rightarrow> string + string"
  build_request :: "outgoing \<Rightarrow> string + outgoing"
  builder_ok :: "status \<Rightarrow> header_map \<Rightarrow> bool"
  percent_decode_utf8 :: "string \<Rightarrow> string option"
  path_to_str :: "string \<Rightarrow> string option"
  order_by_created :: "key_table \<Rightarrow> key_table"
  encode_registry :: "metrics_handle \<Rightarrow> string \<times> bool"

definition cache_key :: "('m, 'h) libs \<Rightarrow> bytes \<Rightarrow> bytes" where
  "cache_key L body = compute_cache_key (from_slice L) (to_vec L) (sha256 (lib_crypto L)) body"

definition record_metrics :: "metric_call list \<Rightarrow> 'm app_state \<Rightarrow> 'm app_state" where
  "record_metrics cs st = st\<lparr>st_metrics := record_calls cs (st_metrics st)\<rparr>"

definition upd_upstream :: "arc \<Rightarrow> (upstream_state \<Rightarrow> upstream_state) \<Rightarrow> 'm app_state \<Rightarrow> 'm app_state" where
  "upd_upstream a f st = st\<lparr>st_heap := upd_arc a f (st_heap st)\<rparr>"

lemma record_metrics_frame [simp]:
  "st_config (record_metrics cs st) = st_config st" "start_time (record_metrics cs st) = start_time st"
  "st_pools (record_metrics cs st) = st_pools st" "st_heap (record_metrics cs st) = st_heap st"
  "st_router (record_metrics cs st) = st_router st" "st_cache (record_metrics cs st) = st_cache st"
  "cache_ttl_table (record_metrics cs st) = cache_ttl_table st"
  "st_rate_limiter (record_metrics cs st) = st_rate_limiter st"
  "st_key_store (record_metrics cs st) = st_key_store st" "auth_tiers (record_metrics cs st) = auth_tiers st"
  "st_metrics (record_metrics cs st) = record_calls cs (st_metrics st)"
  by (simp_all add: record_metrics_def)

lemma upd_upstream_frame [simp]:
  "st_config (upd_upstream a f st) = st_config st" "start_time (upd_upstream a f st) = start_time st"
  "st_pools (upd_upstream a f st) = st_pools st" "st_heap (upd_upstream a f st) = upd_arc a f (st_heap st)"
  "st_router (upd_upstream a f st) = st_router st" "st_cache (upd_upstream a f st) = st_cache st"
  "cache_ttl_table (upd_upstream a f st) = cache_ttl_table st"
  "st_rate_limiter (upd_upstream a f st) = st_rate_limiter st"
  "st_key_store (upd_upstream a f st) = st_key_store st" "auth_tiers (upd_upstream a f st) = auth_tiers st"
  "st_metrics (upd_upstream a f st) = st_metrics st"
  by (simp_all add: upd_upstream_def)

end
