(* ===== verification/Proxy_Handler.thy ===== *)
theory Proxy_Handler
  imports App_State
begin

text \<open>
  \<open>src/server/proxy.rs\<close>. The handler awaits the upstream between \<open>increment_connection_count\<close> and
  \<open>decrement_connection_count\<close>; the model splits it there into \<open>proxy_begin\<close> and \<open>proxy_finish\<close>, so
  that the system model can interleave other tasks, and \<open>proxy_handler\<close> composes the two.

  \<open>proxy_env\<close> holds what the environment decides during one request: the clock readings, the random
  draw of the balancer, and the behaviour of the network.
\<close>

record proxy_env =
  t_start :: instant
  t_get :: instant \<comment> \<open>the clock in \<open>cache.get\<close>\<close>
  t_end :: instant \<comment> \<open>the clock of \<open>start.elapsed()\<close>\<close>
  t_set :: instant \<comment> \<open>the clock in \<open>cache.set\<close>\<close>
  t_fail :: instant \<comment> \<open>the clock in \<open>record_failure\<close>\<close>
  random_draw :: nat
  network :: "outgoing \<Rightarrow> duration \<Rightarrow> exchange"

definition json_error_response :: "status \<Rightarrow> int \<Rightarrow> string \<Rightarrow> response" where
  "json_error_response status code message = json_response status (json_rpc_error code message)"

definition forward_to_upstream ::
  "('m, 'h) libs \<Rightarrow> (outgoing \<Rightarrow> duration \<Rightarrow> exchange) \<Rightarrow> upstream_state \<Rightarrow> bytes \<Rightarrow> u64
     \<Rightarrow> string + (status \<times> bytes \<times> header_map)" where
  "forward_to_upstream L net upstream body ms =
     try_then (parse_uri L (us_url upstream)) (\<lambda>uri.
     try_then (build_request L
        \<lparr>out_method = ''POST'', out_uri = uri, out_headers = [(''content-type'', as_bytes ''application/json'')], out_body = body\<rparr>) (\<lambda>req.
     (case net req (from_millis (unat ms)) of
        TimedOut \<Rightarrow> Inl (''Upstream request timed out after '' @ nat_to_string (unat ms) @ ''ms'')
      | RequestErr e \<Rightarrow> Inl e
      | UpstreamResponse status headers incoming \<Rightarrow>
          try_then incoming (\<lambda>collected. Inr (status, collected, headers)))))"

subsection \<open>Up to the forwarding\<close>

record in_flight =
  if_method :: string
  if_pool :: string
  if_upstream :: arc
  if_body :: bytes
  if_start :: instant

datatype begin_result = Answered response | Forwarding in_flight

text \<open>Lines 40 to 94: the cached answer, if there is one.\<close>

definition proxy_cached ::
  "('m, 'h) libs \<Rightarrow> proxy_env \<Rightarrow> string \<Rightarrow> string \<Rightarrow> bytes \<Rightarrow> 'm app_state \<Rightarrow> response option \<times> 'm app_state" where
  "proxy_cached L env m pool_name body st =
     (case st_cache st of
        None \<Rightarrow> (None, st)
      | Some cache \<Rightarrow>
          if ttl_for (cache_ttl_table st) m = 0 then (None, st)
          else
            let (r, cache') = cache_get (lib_moka L) (t_get env) (cache_key L body) cache;
                st1 = st\<lparr>st_cache := Some cache'\<rparr>
            in case r of
                 Some cached_body \<Rightarrow>
                   (Some \<lparr>resp_status = 200,
                          resp_headers = [(''content-type'', as_bytes ''application/json'')],
                          resp_body = RawBody cached_body\<rparr>,
                    record_metrics
                      [Cache_hits_total_inc \<lparr>ml_method = m\<rparr>,
                       Requests_total_inc \<lparr>rl_method = m, rl_pool = pool_name, rl_status = ''200'', rl_cached = ''true''\<rparr>,
                       Request_duration_seconds_observe \<lparr>mp_method = m, mp_pool = pool_name\<rparr>
                         (as_secs_f64 (t_end env - t_start env))] st1)
               | None \<Rightarrow> (None, record_metrics [Cache_misses_total_inc \<lparr>ml_method = m\<rparr>] st1))"

text \<open>\<open>state.pools.iter().find(..)\<close> and \<open>pool.select_upstream()\<close>: \<open>None\<close> when no pool has the name; the
  round-robin counter is that of the shared pool.\<close>

fun select_in_pool :: "heap \<Rightarrow> nat \<Rightarrow> string \<Rightarrow> upstream_pool list \<Rightarrow> (arc option \<times> upstream_pool list) option" where
  "select_in_pool h r name [] = None"
| "select_in_pool h r name (p # ps) =
     (if up_name p = name
      then (let (u, p') = select_upstream h r p in Some (u, p' # ps))
      else map_option (\<lambda>(u, ps'). (u, p # ps')) (select_in_pool h r name ps))"

definition proxy_begin ::
  "('m, 'h) libs \<Rightarrow> proxy_env \<Rightarrow> 'm app_state \<Rightarrow> request \<Rightarrow> begin_result \<times> 'm app_state" where
  "proxy_begin L env st req =
     (case req_body req of
        Inl e \<Rightarrow> (Answered (json_error_response 400 (- 32700) ''Parse error''), st)
      | Inr body \<Rightarrow>
        (case extract_json_rpc_method (from_slice L) body of
           None \<Rightarrow> (Answered (json_error_response 400 (- 32700) ''Parse error''), st)
         | Some m \<Rightarrow>
           let pool_name = route (st_router st) m;
               (cached, st1) = proxy_cached L env m pool_name body st
           in case cached of
                Some resp \<Rightarrow> (Answered resp, st1)
              | None \<Rightarrow>
                (case select_in_pool (st_heap st1) (random_draw env) pool_name (st_pools st1) of
                   None \<Rightarrow> (Answered (json_error_response 500 (- 32000) ''Pool not configured''), st1)
                 | Some (None, pools') \<Rightarrow>
                     (Answered (json_error_response 503 (- 32004) ''No healthy upstreams available''),
                      st1\<lparr>st_pools := pools'\<rparr>)
                 | Some (Some upstream, pools') \<Rightarrow>
                     (Forwarding \<lparr>if_method = m, if_pool = pool_name, if_upstream = upstream,
                                  if_body = body, if_start = t_start env\<rparr>,
                      upd_upstream upstream increment_connection_count (st1\<lparr>st_pools := pools'\<rparr>)))))"

subsection \<open>After the forwarding\<close>

definition failure_status :: "string \<Rightarrow> status" where
  "failure_status e = (if str_contains ''timed out'' e \<or> str_contains ''timeout'' e then 504 else 502)"

text \<open>Lines 179 to 185; \<open>None\<close> when \<open>cache.set\<close> panics.\<close>

definition proxy_store ::
  "('m, 'h) libs \<Rightarrow> proxy_env \<Rightarrow> string \<Rightarrow> status \<Rightarrow> bytes \<Rightarrow> bytes \<Rightarrow> 'm app_state \<Rightarrow> 'm app_state option" where
  "proxy_store L env m upstream_status body upstream_body st =
     (case st_cache st of
        None \<Rightarrow> Some st
      | Some cache \<Rightarrow>
          let ttl = ttl_for (cache_ttl_table st) m
          in if ttl \<noteq> 0 \<and> is_success upstream_status
             then map_option (\<lambda>c. st\<lparr>st_cache := Some c\<rparr>)
                    (cache_set (lib_moka L) (t_set env) (cache_key L body) upstream_body ttl cache)
             else Some st)"

definition upstream_response :: "('m, 'h) libs \<Rightarrow> status \<Rightarrow> bytes \<Rightarrow> header_map \<Rightarrow> response" where
  "upstream_response L upstream_status upstream_body upstream_headers =
     (if builder_ok L upstream_status upstream_headers
      then \<lparr>resp_status = upstream_status, resp_headers = upstream_headers, resp_body = RawBody upstream_body\<rparr>
      else \<lparr>resp_status = 500, resp_headers = [], resp_body = EmptyBody\<rparr>)"

definition proxy_finish ::
  "('m, 'h) libs \<Rightarrow> proxy_env \<Rightarrow> in_flight \<Rightarrow> string + (status \<times> bytes \<times> header_map) \<Rightarrow> 'm app_state
     \<Rightarrow> outcome \<times> 'm app_state" where
  "proxy_finish L env f result st =
     (let u = if_upstream f; st1 = upd_upstream u decrement_connection_count st
      in case result of
           Inr (upstream_status, upstream_body, upstream_headers) \<Rightarrow>
             let elapsed = as_secs_f64 (t_end env - if_start f);
                 st2 = record_metrics
                   [Requests_total_inc \<lparr>rl_method = if_method f, rl_pool = if_pool f,
                      rl_status = nat_to_string upstream_status, rl_cached = ''false''\<rparr>,
                    Request_duration_seconds_observe \<lparr>mp_method = if_method f, mp_pool = if_pool f\<rparr> elapsed,
                    Upstream_latency_seconds_observe
                      \<lparr>ul_upstream = us_url (st_heap st1 u), ul_pool = if_pool f\<rparr> elapsed] st1
             in (case proxy_store L env (if_method f) upstream_status (if_body f) upstream_body st2 of
                   None \<Rightarrow> (Panicked, st2)
                 | Some st3 \<Rightarrow> (Respond (upstream_response L upstream_status upstream_body upstream_headers), st3))
         | Inl e \<Rightarrow>
             let st2 = upd_upstream u (upd_breaker (record_failure (t_fail env))) st1;
                 status = failure_status e;
                 st3 = record_metrics
                   [Requests_total_inc \<lparr>rl_method = if_method f, rl_pool = if_pool f,
                      rl_status = nat_to_string status, rl_cached = ''false''\<rparr>] st2
             in (Respond (json_error_response status (- 32000) e), st3))"

definition proxy_handler ::
  "('m, 'h) libs \<Rightarrow> proxy_env \<Rightarrow> 'm app_state \<Rightarrow> request \<Rightarrow> outcome \<times> 'm app_state" where
  "proxy_handler L env st req =
     (case proxy_begin L env st req of
        (Answered resp, st1) \<Rightarrow> (Respond resp, st1)
      | (Forwarding f, st1) \<Rightarrow>
          proxy_finish L env f
            (forward_to_upstream L (network env) (st_heap st1 (if_upstream f)) (if_body f)
               (request_timeout_ms (cfg_server (st_config st1)))) st1)"

subsection \<open>What each part changes\<close>

lemma proxy_cached_frame [simp]:
  "st_config (snd (proxy_cached L env m p b st)) = st_config st"
  "st_pools (snd (proxy_cached L env m p b st)) = st_pools st"
  "st_heap (snd (proxy_cached L env m p b st)) = st_heap st"
  "st_router (snd (proxy_cached L env m p b st)) = st_router st"
  "cache_ttl_table (snd (proxy_cached L env m p b st)) = cache_ttl_table st"
  "st_rate_limiter (snd (proxy_cached L env m p b st)) = st_rate_limiter st"
  "st_key_store (snd (proxy_cached L env m p b st)) = st_key_store st"
  "auth_tiers (snd (proxy_cached L env m p b st)) = auth_tiers st"
  by (simp_all add: proxy_cached_def Let_def split_beta split: option.split)

lemma select_in_pool_SomeD:
  "select_in_pool h r name ps = Some (u, ps') \<Longrightarrow>
     map up_name ps' = map up_name ps \<and> map up_upstreams ps' = map up_upstreams ps
   \<and> (\<forall>a. u = Some a \<longrightarrow> is_available (h a) \<and> (\<exists>p \<in> set ps. up_name p = name \<and> a \<in> set (up_upstreams p)))"
proof (induction ps arbitrary: ps')
  case (Cons p ps)
  show ?case
  proof (cases "up_name p = name")
    case True
    obtain p' where sel: "select_upstream h r p = (u, p')" and ps': "ps' = p' # ps"
      using Cons.prems True by (auto split: prod.splits)
    then show ?thesis
      using True select_upstream_frame [of h r p] select_upstream_SomeD [of h r p] by auto
  next
    case False
    then show ?thesis using Cons by auto
  qed
qed simp

lemma select_in_pool_None_iff: "select_in_pool h r name ps = None \<longleftrightarrow> name \<notin> up_name ` set ps"
  by (induction ps) (auto split: prod.splits)

lemma proxy_begin_frame [simp]:
  "st_config (snd (proxy_begin L env st req)) = st_config st"
  "st_router (snd (proxy_begin L env st req)) = st_router st"
  "cache_ttl_table (snd (proxy_begin L env st req)) = cache_ttl_table st"
  "st_rate_limiter (snd (proxy_begin L env st req)) = st_rate_limiter st"
  "st_key_store (snd (proxy_begin L env st req)) = st_key_store st"
  "auth_tiers (snd (proxy_begin L env st req)) = auth_tiers st"
  by (simp_all add: proxy_begin_def Let_def split_beta split: option.split sum.split prod.split)

lemma proxy_begin_Answered:
  "proxy_begin L env st req = (Answered r, st1) \<Longrightarrow> st_heap st1 = st_heap st"
  by (auto simp: proxy_begin_def Let_def split_beta split: option.splits sum.splits prod.splits)

lemma proxy_begin_Forwarding:
  assumes "proxy_begin L env st req = (Forwarding f, st1)"
  shows "st_heap st1 = upd_arc (if_upstream f) increment_connection_count (st_heap st)
    \<and> is_available (st_heap st (if_upstream f))
    \<and> (\<exists>p \<in> set (st_pools st). up_name p = if_pool f \<and> if_upstream f \<in> set (up_upstreams p))
    \<and> req_body req = Inr (if_body f)
    \<and> extract_json_rpc_method (from_slice L) (if_body f) = Some (if_method f)
    \<and> if_pool f = route (st_router st) (if_method f)"
proof -
  obtain body m where b: "req_body req = Inr body" and m: "extract_json_rpc_method (from_slice L) body = Some m"
    using assms by (auto simp: proxy_begin_def split: sum.splits option.splits)
  let ?p = "route (st_router st) m"
  let ?st1 = "snd (proxy_cached L env m ?p body st)"
  obtain a pools' where sel: "select_in_pool (st_heap st) (random_draw env) ?p (st_pools st) = Some (Some a, pools')"
    and f: "f = \<lparr>if_method = m, if_pool = ?p, if_upstream = a, if_body = body, if_start = t_start env\<rparr>"
    and st1: "st1 = upd_upstream a increment_connection_count (?st1\<lparr>st_pools := pools'\<rparr>)"
    using assms b m by (auto simp: proxy_begin_def Let_def split_beta split: option.splits)
  show ?thesis using b m select_in_pool_SomeD [OF sel] by (auto simp: f st1)
qed

lemma map_of_filter_in: "P k \<Longrightarrow> map_of (filter (\<lambda>kv. P (fst kv)) kvs) k = map_of kvs k"
  by (induction kvs) auto

lemma proxy_begin_pools:
  "map up_name (st_pools (snd (proxy_begin L env st req))) = map up_name (st_pools st)"
  "map up_upstreams (st_pools (snd (proxy_begin L env st req))) = map up_upstreams (st_pools st)"
  by (auto simp: proxy_begin_def Let_def split_beta dest: select_in_pool_SomeD
      split: option.splits sum.splits prod.splits)

lemma proxy_store_SomeD:
  "proxy_store L env m s b ub st = Some st' \<Longrightarrow>
     st_heap st' = st_heap st \<and> st_pools st' = st_pools st \<and> st_metrics st' = st_metrics st
   \<and> st_config st' = st_config st \<and> st_router st' = st_router st \<and> cache_ttl_table st' = cache_ttl_table st
   \<and> st_rate_limiter st' = st_rate_limiter st \<and> st_key_store st' = st_key_store st \<and> auth_tiers st' = auth_tiers st"
  by (auto simp: proxy_store_def Let_def split: option.splits if_splits)

definition finish_heap :: "in_flight \<Rightarrow> instant \<Rightarrow> 'e + 'a \<Rightarrow> heap \<Rightarrow> heap" where
  "finish_heap f t result h =
     (let h1 = upd_arc (if_upstream f) decrement_connection_count h
      in case result of Inr _ \<Rightarrow> h1 | Inl _ \<Rightarrow> upd_arc (if_upstream f) (upd_breaker (record_failure t)) h1)"

lemma proxy_finish_heap:
  "st_heap (snd (proxy_finish L env f result st)) = finish_heap f (t_fail env) result (st_heap st)"
  by (auto simp: proxy_finish_def finish_heap_def Let_def dest: proxy_store_SomeD
      split: sum.split prod.split option.split)

lemma proxy_finish_frame [simp]:
  "st_config (snd (proxy_finish L env f result st)) = st_config st"
  "st_pools (snd (proxy_finish L env f result st)) = st_pools st"
  "st_router (snd (proxy_finish L env f result st)) = st_router st"
  "cache_ttl_table (snd (proxy_finish L env f result st)) = cache_ttl_table st"
  "st_rate_limiter (snd (proxy_finish L env f result st)) = st_rate_limiter st"
  "st_key_store (snd (proxy_finish L env f result st)) = st_key_store st"
  "auth_tiers (snd (proxy_finish L env f result st)) = auth_tiers st"
  by (auto simp: proxy_finish_def Let_def dest: proxy_store_SomeD split: sum.split prod.split option.split)

lemma proxy_handler_alt:
  "proxy_handler L env st req =
     (case fst (proxy_begin L env st req) of
        Answered resp \<Rightarrow> (Respond resp, snd (proxy_begin L env st req))
      | Forwarding f \<Rightarrow>
          proxy_finish L env f
            (forward_to_upstream L (network env) (st_heap (snd (proxy_begin L env st req)) (if_upstream f)) (if_body f)
               (request_timeout_ms (cfg_server (st_config st)))) (snd (proxy_begin L env st req)))"
  using proxy_begin_frame(1) [of L env st req]
  by (cases "proxy_begin L env st req") (simp add: proxy_handler_def split: begin_result.split)

lemma proxy_handler_frame [simp]:
  "st_config (snd (proxy_handler L env st req)) = st_config st"
  "st_router (snd (proxy_handler L env st req)) = st_router st"
  "cache_ttl_table (snd (proxy_handler L env st req)) = cache_ttl_table st"
  "st_rate_limiter (snd (proxy_handler L env st req)) = st_rate_limiter st"
  "st_key_store (snd (proxy_handler L env st req)) = st_key_store st"
  "auth_tiers (snd (proxy_handler L env st req)) = auth_tiers st"
  "map up_name (st_pools (snd (proxy_handler L env st req))) = map up_name (st_pools st)"
  "map up_upstreams (st_pools (snd (proxy_handler L env st req))) = map up_upstreams (st_pools st)"
  by (simp_all add: proxy_handler_alt proxy_begin_pools split: begin_result.split)

text \<open>The upstream objects after a whole request: unchanged, or one recorded failure.\<close>

lemma proxy_handler_heap:
  "st_heap (snd (proxy_handler L env st req)) =
     (case fst (proxy_begin L env st req) of
        Answered _ \<Rightarrow> st_heap st
      | Forwarding f \<Rightarrow>
          (case forward_to_upstream L (network env) (increment_connection_count (st_heap st (if_upstream f)))
                  (if_body f) (request_timeout_ms (cfg_server (st_config st))) of
             Inr _ \<Rightarrow> st_heap st
           | Inl _ \<Rightarrow> upd_arc (if_upstream f) (upd_breaker (record_failure (t_fail env))) (st_heap st)))"
proof (cases "proxy_begin L env st req")
  case (Pair b st1)
  show ?thesis
  proof (cases b)
    case (Answered r)
    then show ?thesis using Pair proxy_begin_Answered by (fastforce simp: proxy_handler_alt)
  next
    case (Forwarding f)
    have h: "st_heap st1 = upd_arc (if_upstream f) increment_connection_count (st_heap st)"
      using proxy_begin_Forwarding Pair Forwarding by blast
    have "upd_arc (if_upstream f) decrement_connection_count (st_heap st1) = st_heap st"
      unfolding h by (rule ext) (simp add: upd_arc_def)
    then show ?thesis
      by (simp add: proxy_handler_alt Pair Forwarding proxy_finish_heap finish_heap_def h split: sum.split)
  qed
qed

lemma forward_url:
  "us_url u = us_url v \<Longrightarrow> forward_to_upstream L net u = forward_to_upstream L net v"
  by (simp add: forward_to_upstream_def fun_eq_iff)

lemma forward_increment [simp]:
  "forward_to_upstream L net (increment_connection_count u) = forward_to_upstream L net u"
  by (rule forward_url) (simp add: increment_connection_count_def)

subsection \<open>Properties\<close>

text \<open>A request that runs to its end leaves every connection count as it was, on every path: cache
  hit, no upstream, success, failure, and a panic of the cache insertion.\<close>

lemma proxy_balances_connection_counts:
  "connection_count (st_heap (snd (proxy_handler L env st req)) a) = connection_count (st_heap st a)"
  by (auto simp: proxy_handler_heap upd_arc_def gate_simps split: begin_result.split sum.split)

text \<open>C23. A request changes the shared upstream objects in one case only: it was forwarded to an
  available upstream of the pool that its method is routed to, and the exchange failed; then that
  upstream's breaker records one failure at the time of the failure and nothing else changes. An
  HTTP answer of any status, also 5xx, records nothing.\<close>

theorem proxy_records_failure_of_chosen_upstream_only:
  "st_heap (snd (proxy_handler L env st req)) = st_heap st
   \<or> (\<exists>a p body m e. req_body req = Inr body \<and> extract_json_rpc_method (from_slice L) body = Some m
        \<and> p \<in> set (st_pools st) \<and> up_name p = route (st_router st) m
        \<and> a \<in> set (up_upstreams p) \<and> is_available (st_heap st a)
        \<and> forward_to_upstream L (network env) (st_heap st a) body
            (request_timeout_ms (cfg_server (st_config st))) = Inl e
        \<and> st_heap (snd (proxy_handler L env st req))
            = (st_heap st)(a := upd_breaker (record_failure (t_fail env)) (st_heap st a)))"
proof (cases "fst (proxy_begin L env st req)")
  case (Answered r)
  then show ?thesis by (simp add: proxy_handler_heap)
next
  case (Forwarding f)
  then obtain st1 where b: "proxy_begin L env st req = (Forwarding f, st1)" by (metis prod.collapse)
  note f = proxy_begin_Forwarding [OF b]
  show ?thesis
  proof (cases "forward_to_upstream L (network env) (st_heap st (if_upstream f)) (if_body f)
      (request_timeout_ms (cfg_server (st_config st)))")
    case (Inl e)
    have "st_heap (snd (proxy_handler L env st req)) = (st_heap st)
        (if_upstream f := upd_breaker (record_failure (t_fail env)) (st_heap st (if_upstream f)))"
      using Forwarding Inl by (simp add: proxy_handler_heap upd_arc_def)
    then show ?thesis using f Inl by metis
  next
    case (Inr x)
    then show ?thesis using Forwarding by (cases x) (simp add: proxy_handler_heap)
  qed
qed

subsection \<open>An instance of the libraries\<close>

definition sample_libs :: "(nat \<times> (u64 \<times> cached_value) list, string) libs" where
  "sample_libs =
     \<lparr>lib_moka = fifo_ops, lib_crypto = plain_crypto,
      from_slice = (\<lambda>b. Some (JObject [(''id'', JInt (int (length b))), (''method'', JString ''getHealth'')])),
      to_vec = (\<lambda>_. Some [7]), to_str = (\<lambda>_. None), form_parse = (\<lambda>_. []), parse_uri = Inr,
      build_request = Inr, builder_ok = (\<lambda>_ _. True), percent_decode_utf8 = Some, path_to_str = Some,
      order_by_created = (\<lambda>t. t),
      encode_registry = (\<lambda>_. ([], True))\<rparr>"

definition sample_state :: "(nat \<times> (u64 \<times> cached_value) list) app_state" where
  "sample_state =
     \<lparr>st_config = example_config, start_time = 0,
      st_pools = [\<lparr>up_name = ''main'', up_upstreams = [0], up_algorithm = Lc, wrr_counter = 0\<rparr>],
      st_heap = (\<lambda>_. upd_mutable (\<lambda>m. m\<lparr>health := Healthy\<rparr>) (upstream_new 0 ''main'' ''u'' 1 None)),
      st_router = \<lparr>router_rules = Map.empty, router_default_pool = ''main''\<rparr>,
      st_cache = Some (memory_cache_new fifo_ops 1), cache_ttl_table = [''getHealth'' \<mapsto> 5],
      st_rate_limiter = None, st_key_store = None, auth_tiers = Map.empty, st_metrics = None\<rparr>"

definition sample_request :: "bytes \<Rightarrow> request" where
  "sample_request b = \<lparr>req_method = ''POST'', req_path = ''/'', req_query = None, req_headers = [],
     req_body = Inr b, ext_tier = None, ext_key_id = None\<rparr>"

definition sample_env :: "exchange \<Rightarrow> proxy_env" where
  "sample_env x = \<lparr>t_start = 0, t_get = 0, t_end = 0, t_set = 0, t_fail = 0, random_draw = 0, network = (\<lambda>_ _. x)\<rparr>"

lemmas sample_defs = sample_libs_def sample_state_def sample_request_def sample_env_def

lemma sample_available [simp]: "is_available (st_heap sample_state a)"
  by (simp add: sample_state_def is_available_def upd_mutable_def upstream_new_def cb_new_def cb_is_available_def)

lemma sample_simps [simp]:
  "lib_moka sample_libs = fifo_ops"
  "from_slice sample_libs = (\<lambda>b. Some (JObject [(''id'', JInt (int (length b))), (''method'', JString ''getHealth'')]))"
  "to_vec sample_libs = (\<lambda>_. Some [7])" "parse_uri sample_libs = Inr" "build_request sample_libs = Inr"
  "builder_ok sample_libs s hs"
  "st_router sample_state = \<lparr>router_rules = Map.empty, router_default_pool = ''main''\<rparr>"
  "st_pools sample_state = [\<lparr>up_name = ''main'', up_upstreams = [0], up_algorithm = Lc, wrr_counter = 0\<rparr>]"
  "st_cache sample_state = Some (memory_cache_new fifo_ops 1)" "cache_ttl_table sample_state = [''getHealth'' \<mapsto> 5]"
  "st_config sample_state = example_config" "st_metrics sample_state = None"
  "req_body (sample_request b) = Inr b" "network (sample_env x) out t = x" "random_draw (sample_env x) = 0"
  "t_start (sample_env x) = 0" "t_set (sample_env x) = 0"
  by (simp_all add: sample_defs)

lemma sample_cached: "fst (proxy_cached sample_libs env m p b sample_state) = None"
proof -
  have "fst (cache_get fifo_ops now k (memory_cache_new fifo_ops 1)) = None" for now k
    using fifo.new_empty by (simp add: fifo.get_answer fifo.content_def memory_cache_new_def Let_def)
  then show ?thesis by (simp add: proxy_cached_def Let_def split_beta)
qed

lemma sample_begin:
  "fst (proxy_begin sample_libs (sample_env x) sample_state (sample_request b)) =
     Forwarding \<lparr>if_method = ''getHealth'', if_pool = ''main'', if_upstream = 0, if_body = b, if_start = 0\<rparr>"
  by (simp add: proxy_begin_def extract_json_rpc_method_def route_def Let_def split_beta sample_cached
      healthy_upstreams_def select_upstream_def select_def)

lemma timeout_message_status:
  "failure_status (''Upstream request timed out after '' @ n @ ''ms'') = 504"
proof -
  have "str_contains ''timed out'' (''Upstream request '' @ ''timed out'' @ ('' after '' @ n @ ''ms''))"
    by (rule str_contains_append)
  then have "str_contains ''timed out'' (''Upstream request timed out after '' @ n @ ''ms'')" by (simp del: str_contains.simps)
  then show ?thesis by (simp add: failure_status_def del: append.simps)
qed

text \<open>What the client gets, and what the chosen upstream is charged with, given how the forwarding ended.\<close>

lemma forwarded_outcome:
  assumes "proxy_begin L env st req = (Forwarding f, st1)"
    and "forward_to_upstream L (network env) (st_heap st (if_upstream f)) (if_body f)
           (request_timeout_ms (cfg_server (st_config st))) = result"
  shows "case result of
      Inr (s, b, hs) \<Rightarrow> st_heap (snd (proxy_handler L env st req)) = st_heap st
        \<and> fst (proxy_handler L env st req) \<in> {Respond (upstream_response L s b hs), Panicked}
    | Inl e \<Rightarrow> st_heap (snd (proxy_handler L env st req))
          = (st_heap st)(if_upstream f := upd_breaker (record_failure (t_fail env)) (st_heap st (if_upstream f)))
        \<and> fst (proxy_handler L env st req) = Respond (json_error_response (failure_status e) (- 32000) e)"
proof -
  have b: "fst (proxy_begin L env st req) = Forwarding f" "snd (proxy_begin L env st req) = st1" using assms(1) by simp_all
  have h: "st_heap st1 (if_upstream f) = increment_connection_count (st_heap st (if_upstream f))"
    using proxy_begin_Forwarding [OF assms(1)] by simp
  show ?thesis
    using assms(2) proxy_handler_heap [of L env st req]
    by (auto simp: proxy_handler_alt b h proxy_finish_def Let_def upd_arc_def split: sum.split option.split)
qed



text \<open>C25. A cached answer is shared by all requests that differ only in \<open>id\<close> and \<open>jsonrpc\<close>: each of
  them gets the stored bytes with status 200, whose \<open>id\<close> is that of the request that filled the
  cache. No upstream is contacted and no upstream object or pool changes.\<close>

theorem cached_answer_shared_across_ids:
  assumes "st_cache st = Some c" and "ttl_for (cache_ttl_table st) m \<noteq> 0"
    and "fst (cache_get (lib_moka L) (t_get env) (cache_key L b1) c) = Some d"
    and "from_slice L b1 = Some (JObject o1)" and "from_slice L b2 = Some (JObject o2)"
    and "filter (\<lambda>kv. fst kv \<noteq> ''id'' \<and> fst kv \<noteq> ''jsonrpc'') o1
       = filter (\<lambda>kv. fst kv \<noteq> ''id'' \<and> fst kv \<noteq> ''jsonrpc'') o2"
    and "map_of o1 ''method'' = Some (JString m)"
    and "to_vec L (JObject (filter (\<lambda>kv. fst kv \<noteq> ''id'' \<and> fst kv \<noteq> ''jsonrpc'') o1)) = Some v"
    and "req_body req = Inr b2"
  shows "fst (proxy_handler L env st req) = Respond \<lparr>resp_status = 200,
      resp_headers = [(''content-type'', as_bytes ''application/json'')], resp_body = RawBody d\<rparr>
    \<and> st_heap (snd (proxy_handler L env st req)) = st_heap st
    \<and> st_pools (snd (proxy_handler L env st req)) = st_pools st"
proof -
  have key: "cache_key L b2 = cache_key L b1"
    using assms(4-6,8) by (simp add: cache_key_def compute_cache_key_def conj_commute)
  have "map_of o2 k = map_of o1 k" if "k \<noteq> ''id''" "k \<noteq> ''jsonrpc''" for k
    using arg_cong [OF assms(6), of "\<lambda>x. map_of x k"] that
    by (simp add: map_of_filter_in [where P = "\<lambda>k. k \<noteq> ''id'' \<and> k \<noteq> ''jsonrpc''"])
  then have "extract_json_rpc_method (from_slice L) b2 = Some m"
    using assms(5,7) by (simp add: extract_json_rpc_method_def)
  moreover obtain c' where get: "cache_get (lib_moka L) (t_get env) (cache_key L b1) c = (Some d, c')"
    using assms(3) by (metis prod.collapse)
  moreover obtain st1 where "proxy_cached L env m (route (st_router st) m) b2 st = (Some \<lparr>resp_status = 200,
      resp_headers = [(''content-type'', as_bytes ''application/json'')], resp_body = RawBody d\<rparr>, st1)"
    using assms(1,2) key get by (simp add: proxy_cached_def Let_def)
  moreover from this have "st_heap st1 = st_heap st \<and> st_pools st1 = st_pools st"
    by (metis proxy_cached_frame(2,3) snd_conv)
  ultimately show ?thesis using assms(9) by (simp add: proxy_handler_def proxy_begin_def)
qed

definition filled_cache :: "(nat \<times> (u64 \<times> cached_value) list) memory_cache" where
  "filled_cache =
     \<lparr>mc_cache = (9, [(hash_to_u64 (cache_key sample_libs [1]), \<lparr>cv_data = [5], expires_at = 10\<rparr>)]),
      hit_count = 0, miss_count = 0, eviction_count = 0\<rparr>"

theorem cached_answer_shared_across_ids_witness:
  "fst (proxy_handler sample_libs (sample_env TimedOut) (sample_state\<lparr>st_cache := Some filled_cache\<rparr>) (sample_request [2, 3]))
     = Respond \<lparr>resp_status = 200, resp_headers = [(''content-type'', as_bytes ''application/json'')],
                resp_body = RawBody [5]\<rparr>"
proof -
  have "fst (cache_get fifo_ops (t_get (sample_env TimedOut)) (cache_key sample_libs [1]) filled_cache) = Some [5]"
    by (simp add: cache_get_def filled_cache_def fifo_ops_def sample_env_def)
  moreover have "ttl_for [''getHealth'' \<mapsto> 5] ''getHealth'' \<noteq> 0" by (simp add: ttl_for_def)
  ultimately show ?thesis
    using cached_answer_shared_across_ids [of "sample_state\<lparr>st_cache := Some filled_cache\<rparr>" filled_cache "''getHealth''"
        sample_libs "sample_env TimedOut" "[1]" "[5]" _ "[2, 3]" _ "[7]" "sample_request [2, 3]"]
    by simp
qed

end
