(* ===== verification/Health_Check.thy ===== *)
theory Health_Check
  imports Upstream_Pool Gate_Http
begin

text \<open>
  \<open>src/pool/health.rs\<close>: the background health checker. A check of one upstream sends a probe and
  then, under the upstream's mutex, updates its counters, its health and its breaker.

  Parameters: \<open>to_vec\<close> (\<open>serde_json::to_vec\<close>), \<open>uri_ok\<close> (\<open>hyper::Uri\<close> parses the URL) and \<open>build_ok\<close>
  (the request builder accepts it). A \<open>probe\<close> is what the environment contributes to one check: the
  result of the request under the timeout, the measured time and the instants read by
  \<open>try_half_open\<close>.
\<close>

datatype probe_result = ProbeTimeout | ProbeError | ProbeResponse status

record probe =
  pr_result :: probe_result
  pr_elapsed :: duration
  pr_t_elapsed :: instant
  pr_t_now :: instant

definition health_check_body :: "string \<Rightarrow> json" where
  "health_check_body m =
     JObject [(''jsonrpc'', JString ''2.0''), (''id'', JInt 1), (''method'', JString m), (''params'', JArray [])]"

definition probe_ok :: "probe \<Rightarrow> bool" where
  "probe_ok pr = (case pr_result pr of ProbeResponse s \<Rightarrow> is_success s | _ \<Rightarrow> False)"

text \<open>The section under the mutex.\<close>

definition apply_probe :: "health_check_config \<Rightarrow> probe \<Rightarrow> upstream_state \<Rightarrow> upstream_state" where
  "apply_probe hc pr u =
     (let m0 = us_mutable u;
          m1 = m0\<lparr>breaker := try_half_open (pr_t_elapsed pr) (pr_t_now pr) (breaker m0)\<rparr>
      in if probe_ok pr
         then let m2 = m1\<lparr>consecutive_successes := consecutive_successes m1 + 1, consecutive_failures := 0\<rparr>;
                  m3 = (if healthy_threshold hc \<le> consecutive_successes m2 then m2\<lparr>health := Healthy\<rparr> else m2)
              in u\<lparr>us_mutable := m3, latency_ns := word_of_nat (pr_elapsed pr)\<rparr>
         else let m2 = m1\<lparr>consecutive_failures := consecutive_failures m1 + 1, consecutive_successes := 0\<rparr>;
                  m3 = (if unhealthy_threshold hc \<le> consecutive_failures m2 then m2\<lparr>health := Unhealthy\<rparr> else m2)
              in u\<lparr>us_mutable := m3\<rparr>)"

definition check_upstream ::
  "(json \<Rightarrow> bytes option) \<Rightarrow> (string \<Rightarrow> bool) \<Rightarrow> (string \<Rightarrow> bytes \<Rightarrow> bool)
     \<Rightarrow> health_check_config \<Rightarrow> probe \<Rightarrow> upstream_state \<Rightarrow> upstream_state" where
  "check_upstream to_vec uri_ok build_ok hc pr u =
     (case to_vec (health_check_body (health_method hc)) of
        None \<Rightarrow> u
      | Some body_bytes \<Rightarrow>
          if \<not> uri_ok (us_url u) then u
          else if \<not> build_ok (us_url u) body_bytes then u
          else apply_probe hc pr u)"

text \<open>
  A cycle spawns one task per upstream and waits for all of them; the tasks run in any order.
  \<open>check_in_order\<close> runs them in a given order, and the cycle in the order they are spawned.
\<close>

fun check_in_order :: "(probe \<Rightarrow> upstream_state \<Rightarrow> upstream_state) \<Rightarrow> (arc \<Rightarrow> probe) \<Rightarrow> arc list \<Rightarrow> heap \<Rightarrow> heap" where
  "check_in_order chk probes [] h = h"
| "check_in_order chk probes (a # as) h = check_in_order chk probes as (upd_arc a (chk (probes a)) h)"

definition run_health_check_cycle ::
  "(probe \<Rightarrow> upstream_state \<Rightarrow> upstream_state) \<Rightarrow> upstream_pool list \<Rightarrow> (arc \<Rightarrow> probe) \<Rightarrow> heap \<Rightarrow> heap" where
  "run_health_check_cycle chk pools probes h =
     check_in_order chk probes (concat (map up_upstreams pools)) h"

definition mark_all_healthy :: "upstream_pool list \<Rightarrow> heap \<Rightarrow> heap" where
  "mark_all_healthy pools h =
     fold (\<lambda>a. upd_arc a (upd_mutable (\<lambda>m. m\<lparr>health := Healthy\<rparr>)))
       (concat (map up_upstreams pools)) h"

text \<open>
  The background task up to its \<open>n\<close>-th periodic cycle, where \<open>rounds\<close> holds the probes of the cycles
  run so far. \<open>interval_panics\<close> says for which periods \<open>tokio::time::interval\<close> panics, which ends the task
  after the initial step; the flag of the result says whether it did. \<open>tokio\<close> documents the panic for
  the period zero.
\<close>

definition run_health_checks ::
  "(duration \<Rightarrow> bool) \<Rightarrow> (probe \<Rightarrow> upstream_state \<Rightarrow> upstream_state) \<Rightarrow> upstream_pool list \<Rightarrow> health_check_config \<Rightarrow> bool
     \<Rightarrow> (arc \<Rightarrow> probe) \<Rightarrow> (arc \<Rightarrow> probe) list \<Rightarrow> heap \<Rightarrow> bool \<times> heap" where
  "run_health_checks interval_panics chk pools hc skip_initial first rounds h =
     (let h1 = (if skip_initial then mark_all_healthy pools h
                else run_health_check_cycle chk pools first h)
      in if interval_panics (from_millis (unat (interval_ms hc))) then (True, h1)
         else (False, foldl (\<lambda>h probes. run_health_check_cycle chk pools probes h) h1 rounds))"

definition probe_run :: "health_check_config \<Rightarrow> upstream_state \<Rightarrow> probe list \<Rightarrow> upstream_state" where
  "probe_run hc = foldl (\<lambda>u pr. apply_probe hc pr u)"

subsection \<open>One probe\<close>

lemma apply_probe_breaker:
  "breaker (us_mutable (apply_probe hc pr u))
     = try_half_open (pr_t_elapsed pr) (pr_t_now pr) (breaker (us_mutable u))"
  by (simp add: apply_probe_def Let_def)

lemma apply_probe_frame [gate_frame]:
  "us_url (apply_probe hc pr u) = us_url u"
  "us_weight (apply_probe hc pr u) = us_weight u"
  "us_pool_name (apply_probe hc pr u) = us_pool_name u"
  "connection_count (apply_probe hc pr u) = connection_count u"
  by (simp_all add: apply_probe_def Let_def)

lemma apply_probe_success:
  assumes "probe_ok pr"
  shows "consecutive_successes (us_mutable (apply_probe hc pr u)) = consecutive_successes (us_mutable u) + 1"
    and "consecutive_failures (us_mutable (apply_probe hc pr u)) = 0"
    and "health (us_mutable (apply_probe hc pr u)) =
      (if healthy_threshold hc \<le> consecutive_successes (us_mutable u) + 1 then Healthy else health (us_mutable u))"
  using assms by (simp_all add: apply_probe_def Let_def)

lemma apply_probe_failure:
  assumes "\<not> probe_ok pr"
  shows "consecutive_failures (us_mutable (apply_probe hc pr u)) = consecutive_failures (us_mutable u) + 1"
    and "consecutive_successes (us_mutable (apply_probe hc pr u)) = 0"
    and "health (us_mutable (apply_probe hc pr u)) =
      (if unhealthy_threshold hc \<le> consecutive_failures (us_mutable u) + 1 then Unhealthy else health (us_mutable u))"
  using assms by (simp_all add: apply_probe_def Let_def)

lemma probe_run_simps [simp]:
  "probe_run hc u [] = u" "probe_run hc u (pr # prs) = probe_run hc (apply_probe hc pr u) prs"
  by (simp_all add: probe_run_def)

text \<open>Successes and failures are counted in the same way: each event of a streak adds one to a counter, and from
  the threshold on it sets a flag. The locale holds what a streak of such events leads to.\<close>

locale threshold_streak =
  fixes step :: "'p \<Rightarrow> 'u \<Rightarrow> 'u" and ok :: "'p \<Rightarrow> bool"
    and count :: "'u \<Rightarrow> u32" and flag :: "'u \<Rightarrow> 'h" and threshold :: u32 and goal :: 'h
  assumes count_step: "ok p \<Longrightarrow> count (step p u) = count u + 1"
    and flag_step: "ok p \<Longrightarrow> flag (step p u) = (if threshold \<le> count u + 1 then goal else flag u)"
begin

lemma streak:
  assumes "\<forall>p \<in> set ps. ok p" and "unat (count u) + length ps < 2 ^ 32" and "0 < length ps"
  shows "flag (foldl (\<lambda>u p. step p u) u ps) = (if unat threshold \<le> unat (count u) + length ps then goal else flag u)"
  using assms
proof (induction ps arbitrary: u)
  case (Cons p ps)
  have ok: "ok p" using Cons.prems(1) by simp
  have cnt: "unat (count u + 1) = Suc (unat (count u))" using Cons.prems(2) by (intro unat_Suc_word) simp
  have flag: "flag (step p u) = (if unat threshold \<le> Suc (unat (count u)) then goal else flag u)"
    using cnt by (simp add: flag_step [OF ok] word_le_nat_alt)
  show ?case
  proof (cases ps)
    case (Cons q qs)
    then show ?thesis using Cons.IH [of "step p u"] Cons.prems cnt flag by (auto simp: count_step [OF ok])
  qed (simp add: flag)
qed simp

end

interpretation successes: threshold_streak "apply_probe hc" probe_ok "\<lambda>u. consecutive_successes (us_mutable u)"
    "\<lambda>u. health (us_mutable u)" "healthy_threshold hc" Healthy for hc
  by unfold_locales (simp_all add: apply_probe_success)

interpretation failures: threshold_streak "apply_probe hc" "\<lambda>pr. \<not> probe_ok pr" "\<lambda>u. consecutive_failures (us_mutable u)"
    "\<lambda>u. health (us_mutable u)" "unhealthy_threshold hc" Unhealthy for hc
  by unfold_locales (simp_all add: apply_probe_failure)

lemmas success_streak = successes.streak [folded probe_run_def]
lemmas failure_streak = failures.streak [folded probe_run_def]

text \<open>What the probes do to the breaker: each of them ticks.\<close>

definition tick_of :: "probe \<Rightarrow> cb_event" where
  "tick_of pr = Tick (pr_t_elapsed pr) (pr_t_now pr)"

lemma probe_run_breaker: "breaker (us_mutable (probe_run hc u prs)) = cb_run (breaker (us_mutable u)) (map tick_of prs)"
  by (induction prs arbitrary: u) (simp_all add: apply_probe_breaker tick_of_def)

lemma ticks_leave_open:
  "cb_state (cb_run cb (map tick_of prs)) \<noteq> Open \<longleftrightarrow>
     cb_state cb \<noteq> Open \<or> (\<exists>pr \<in> set prs. cooldown cb \<le> pr_t_elapsed pr - last_state_change cb)"
proof (induction prs arbitrary: cb)
  case (Cons pr prs)
  show ?case
  proof (cases "cb_state cb = Open \<and> cooldown cb \<le> pr_t_elapsed pr - last_state_change cb")
    case True
    then have "cb_state (cb_step cb (tick_of pr)) \<noteq> Open" by (simp add: tick_of_def try_half_open_def)
    then have "cb_state (cb_run (cb_step cb (tick_of pr)) (map tick_of prs)) \<noteq> Open" using Cons.IH by blast
    then show ?thesis using True by simp
  next
    case False
    then have "cb_step cb (tick_of pr) = cb" by (auto simp: tick_of_def try_half_open_def)
    then show ?thesis using False Cons.IH [of cb] by auto
  qed
qed simp

subsection \<open>A cycle over all upstreams\<close>

lemma check_in_order_apply:
  "distinct as \<Longrightarrow>
   check_in_order chk probes as h a = (if a \<in> set as then chk (probes a) (h a) else h a)"
proof (induction as arbitrary: h)
  case (Cons b as)
  then show ?case by (cases "a = b") auto
qed simp

lemma mark_all_healthy_apply:
  "mark_all_healthy pools h a =
     (if a \<in> set (concat (map up_upstreams pools)) then upd_mutable (\<lambda>m. m\<lparr>health := Healthy\<rparr>) (h a) else h a)"
proof -
  have "fold (\<lambda>a. upd_arc a (upd_mutable (\<lambda>m. m\<lparr>health := Healthy\<rparr>))) as h a =
      (if a \<in> set as then upd_mutable (\<lambda>m. m\<lparr>health := Healthy\<rparr>) (h a) else h a)" for as
  proof (induction as arbitrary: h)
    case (Cons b as)
    then show ?case by (cases "a = b") (simp_all add: upd_mutable_def)
  qed simp
  then show ?thesis unfolding mark_all_healthy_def .
qed

text \<open>The task as a whole, seen from one upstream: it is checked once in every cycle.\<close>

lemma cycles_apply:
  assumes "distinct (concat (map up_upstreams pools))" and "a \<in> set (concat (map up_upstreams pools))"
  shows "foldl (\<lambda>h probes. run_health_check_cycle chk pools probes h) h rounds a
    = foldl (\<lambda>u pr. chk pr u) (h a) (map (\<lambda>probes. probes a) rounds)"
  using assms(2)
  by (induction rounds arbitrary: h) (simp_all add: run_health_check_cycle_def check_in_order_apply [OF assms(1)])

lemma health_checks_apply:
  assumes "run_health_checks interval_panics (apply_probe hc) pools hc False first rounds h = (False, h')"
    and "distinct (concat (map up_upstreams pools))" and "a \<in> set (concat (map up_upstreams pools))"
  shows "h' a = probe_run hc (h a) (map (\<lambda>probes. probes a) (first # rounds))"
proof -
  have "h' = foldl (\<lambda>h probes. run_health_check_cycle (apply_probe hc) pools probes h) h (first # rounds)"
    using assms(1) by (auto simp: run_health_checks_def Let_def split: if_splits)
  then show ?thesis by (simp only: cycles_apply [OF assms(2,3)] probe_run_def)
qed

lemma new_upstream_in_service:
  assumes "\<forall>pr \<in> set prs. probe_ok pr" and "prs \<noteq> []" and "length prs < 2 ^ 32"
  shows "is_available (probe_run hc (upstream_new t n url w mc) prs) \<longleftrightarrow> unat (healthy_threshold hc) \<le> length prs"
proof -
  let ?u = "upstream_new t n url w mc"
  have new: "consecutive_successes (us_mutable ?u) = 0" "health (us_mutable ?u) = Unhealthy"
    "cb_state (breaker (us_mutable ?u)) = Closed"
    by (simp_all add: upstream_new_def cb_new_def)
  have "cb_is_available b \<longleftrightarrow> cb_state b \<noteq> Open" for b by (cases "cb_state b") (simp_all add: cb_is_available_def)
  then show ?thesis
    using success_streak [OF assms(1), of ?u hc] assms(2,3) new
    by (auto simp: is_available_def probe_run_breaker ticks_leave_open)
qed

definition good_probe :: probe where
  "good_probe = \<lparr>pr_result = ProbeResponse 200, pr_elapsed = 5, pr_t_elapsed = 0, pr_t_now = 0\<rparr>"

definition bad_probe :: probe where
  "bad_probe = \<lparr>pr_result = ProbeTimeout, pr_elapsed = 5, pr_t_elapsed = 0, pr_t_now = 0\<rparr>"

lemma example_probes [simp]: "probe_ok good_probe" "\<not> probe_ok bad_probe"
  by (simp_all add: probe_ok_def good_probe_def bad_probe_def is_success_def)

subsection \<open>Properties\<close>

text \<open>After a failed probe, an upstream becomes healthy exactly when the following uninterrupted
  streak of successful probes reaches the healthy threshold, and keeps its health before that.\<close>

lemma becomes_healthy_at_threshold:
  assumes "\<not> probe_ok bad" and "\<forall>pr \<in> set prs. probe_ok pr"
    and "0 < length prs" and "length prs < 2 ^ 32"
  shows "health (us_mutable (probe_run hc (apply_probe hc bad u) prs)) =
    (if unat (healthy_threshold hc) \<le> length prs then Healthy
     else health (us_mutable (apply_probe hc bad u)))"
  using success_streak [of prs "apply_probe hc bad u" hc] assms by (simp add: apply_probe_failure)

text \<open>After a successful probe, an upstream becomes unhealthy exactly when the following
  uninterrupted streak of failed probes (timeouts, connection errors and non-2xx answers alike)
  reaches the unhealthy threshold.\<close>

lemma becomes_unhealthy_at_threshold:
  assumes "probe_ok good" and "\<forall>pr \<in> set prs. \<not> probe_ok pr"
    and "0 < length prs" and "length prs < 2 ^ 32"
  shows "health (us_mutable (probe_run hc (apply_probe hc good u) prs)) =
    (if unat (unhealthy_threshold hc) \<le> length prs then Unhealthy
     else health (us_mutable (apply_probe hc good u)))"
  using failure_streak [of prs "apply_probe hc good u" hc] assms by (simp add: apply_probe_success)

text \<open>C32. A failed upstream returns to service: after a streak of successful probes it can be selected exactly
  when it was healthy or the streak reached the threshold, and its breaker was not open or one of the
  probes came after the cooldown. Nothing else is needed, and no proxied request has to be risked.\<close>

theorem probed_upstream_returns_to_service:
  assumes "\<forall>pr \<in> set prs. probe_ok pr" and "prs \<noteq> []"
    and "unat (consecutive_successes (us_mutable u)) + length prs < 2 ^ 32"
  shows "is_available (probe_run hc u prs) \<longleftrightarrow>
    (health (us_mutable u) = Healthy
      \<or> unat (healthy_threshold hc) \<le> unat (consecutive_successes (us_mutable u)) + length prs)
    \<and> (cb_state (breaker (us_mutable u)) \<noteq> Open
      \<or> (\<exists>pr \<in> set prs. cooldown (breaker (us_mutable u)) \<le> pr_t_elapsed pr - last_state_change (breaker (us_mutable u))))"
proof -
  have "cb_is_available b \<longleftrightarrow> cb_state b \<noteq> Open" for b by (cases "cb_state b") (simp_all add: cb_is_available_def)
  then show ?thesis
    using success_streak [OF assms(1,3), of hc] assms(2)
    by (auto simp: is_available_def probe_run_breaker ticks_leave_open)
qed

definition recovery_probe :: probe where
  "recovery_probe = \<lparr>pr_result = ProbeResponse 200, pr_elapsed = 5, pr_t_elapsed = from_secs 31, pr_t_now = from_secs 31\<rparr>"

theorem probed_upstream_returns_to_service_witness:
  "is_available (probe_run health_check_config_default
     (upd_breaker (record_failure 0) (upd_breaker (\<lambda>b. b\<lparr>failure_count := 4\<rparr>) (upstream_new 0 ''p'' ''u'' 1 None)))
     [recovery_probe, recovery_probe])"
proof -
  let ?u = "upd_breaker (record_failure 0) (upd_breaker (\<lambda>b. b\<lparr>failure_count := 4\<rparr>) (upstream_new 0 ''p'' ''u'' 1 None))"
  have "breaker (us_mutable ?u) = \<lparr>cb_state = Open, failure_count = 5, failure_threshold = 5, cooldown = from_secs 30,
      last_state_change = 0\<rparr>" "consecutive_successes (us_mutable ?u) = 0"
    by (simp_all add: upd_breaker_def upd_mutable_def upstream_new_def cb_new_def record_failure_def)
  then show ?thesis
    using probed_upstream_returns_to_service [of "[recovery_probe, recovery_probe]" ?u health_check_config_default]
    by (simp add: recovery_probe_def probe_ok_def is_success_def from_secs_def health_check_config_default_def config_defaults)
qed

text \<open>The tasks of a cycle commute: whatever order the spawned checks run in, the upstreams end in
  the same state as in the order they are spawned.\<close>

lemma health_cycle_order_irrelevant:
  assumes "distinct (concat (map up_upstreams pools))"
    and "mset order = mset (concat (map up_upstreams pools))"
  shows "check_in_order chk probes order h = run_health_check_cycle chk pools probes h"
proof -
  have d: "distinct order" "set order = set (concat (map up_upstreams pools))"
    using assms by (metis mset_eq_imp_distinct_iff, metis set_mset_mset)
  show ?thesis
    unfolding run_health_check_cycle_def
    by (rule ext) (simp only: check_in_order_apply [OF d(1)] check_in_order_apply [OF assms(1)] d(2))
qed

text \<open>A configuration with a zero interval passes validation when it does with another interval, and the
  health-check task then panics right after its first step and never probes again.\<close>

lemma zero_interval_kills_health_checks:
  assumes "interval_ms (cfg_health_check c) = 0" and "interval_panics 0"
  shows "validate c = validate (c\<lparr>cfg_health_check := (cfg_health_check c)\<lparr>interval_ms := ms\<rparr>\<rparr>)
    \<and> run_health_checks interval_panics chk pools (cfg_health_check c) skip first rounds h
        = (True, if skip then mark_all_healthy pools h else run_health_check_cycle chk pools first h)"
  using assms by (simp add: run_health_checks_def Let_def from_millis_def validate_def)

end
