(* ===== verification/Gate_Server.thy ===== *)
theory Gate_Server
  imports Proxy_Handler Health_Check
begin

text \<open>
  \<open>src/server/mod.rs\<close>: construction of the shared state, the middlewares and handlers of the main
  listener, and the router that stacks them. A middleware takes the rest of the stack, \<open>next\<close>, as
  an argument, as in the source. \<open>server_env\<close> adds to the environment of the proxy the clock of the
  rate limiter and of the uptime, and the fault of the key store's query.
\<close>

record server_env =
  se_proxy :: proxy_env
  t_rate :: instant
  t_health :: instant
  db_fault :: "string option"

subsection \<open>Construction\<close>

definition tiers_by_name :: "key_tier list \<Rightarrow> string \<rightharpoonup> key_tier" where
  "tiers_by_name ts = map_of (rev (map (\<lambda>t. (kt_name t, t)) ts))"

definition build_state ::
  "('m, 'h) libs \<Rightarrow> db_open \<Rightarrow> (arc \<Rightarrow> instant) \<Rightarrow> instant \<Rightarrow> config \<Rightarrow> heap \<times> arc
     \<Rightarrow> string + ('m app_state \<times> upstream_pool list)" where
  "build_state L open_db clock now config s =
     (let (pools, h, next) = create_pools clock config s;
          router = router_new (cfg_routing config);
          cache_backend =
            (if cache_enabled (cfg_cache config)
             then Some (memory_cache_new (lib_moka L) (max_memory_mb (cfg_cache config))) else None);
          ttls = ttl_table_new (cc_rules (cfg_cache config))
      in try_then
           (if auth_enabled (cfg_auth config)
            then let path = (case path_to_str L (db_path (cfg_auth config)) of Some p \<Rightarrow> p | None \<Rightarrow> ''sorobangate.db'')
                 in try_then (sqlite_new open_db path) (\<lambda>t. Inr (Some (SqliteStore t)))
            else Inr None) (\<lambda>key_store.
         let auth_tiers_list = tiers (cfg_auth config);
             config1 = config\<lparr>cfg_auth := (cfg_auth config)\<lparr>tiers := []\<rparr>\<rparr>
         in Inr (\<lparr>st_config = config1, start_time = now, st_pools = pools, st_heap = h, st_router = router,
                  st_cache = cache_backend, cache_ttl_table = ttls,
                  st_rate_limiter =
                    (if rl_enabled (cfg_rate_limit config) then Some (MemoryLimiter limiter_new) else None),
                  st_key_store = key_store, auth_tiers = tiers_by_name auth_tiers_list,
                  st_metrics =
                    (if metrics_enabled (cfg_telemetry config) then Some metrics_handle_new else None)\<rparr>,
                 pools)))"

subsection \<open>Handlers\<close>

fun algorithm_debug :: "load_balancing_algorithm \<Rightarrow> string" where
  "algorithm_debug Wrr = ''Wrr''"
| "algorithm_debug Lc = ''Lc''"
| "algorithm_debug Random = ''Random''"

fun health_debug :: "health_status \<Rightarrow> string" where
  "health_debug Healthy = ''Healthy''"
| "health_debug Unhealthy = ''Unhealthy''"

fun breaker_debug :: "circuit_breaker_state \<Rightarrow> string" where
  "breaker_debug Closed = ''Closed''"
| "breaker_debug Open = ''Open''"
| "breaker_debug HalfOpen = ''HalfOpen''"

definition cargo_pkg_version :: string where
  "cargo_pkg_version = ''0.1.0''"

definition health_upstream_json :: "upstream_state \<Rightarrow> json" where
  "health_upstream_json u =
     JObject [(''url'', JString (us_url u)), (''weight'', JInt (uint (us_weight u))),
       (''health'', JString (health_debug (health (us_mutable u)))),
       (''circuit_breaker'', JString (breaker_debug (cb_state (breaker (us_mutable u))))),
       (''active_connections'', JInt (active_connections u)), (''latency_us'', JInt (uint (latency_us u)))]"

definition health_pool_json :: "heap \<Rightarrow> upstream_pool \<Rightarrow> json" where
  "health_pool_json h pool =
     JObject [(''name'', JString (up_name pool)), (''total_upstreams'', JInt (int (length (up_upstreams pool)))),
       (''healthy_upstreams'', JInt (int (length (healthy_upstreams h pool)))),
       (''algorithm'', JString (algorithm_debug (up_algorithm pool))),
       (''upstreams'', JArray (map (\<lambda>a. health_upstream_json (h a)) (up_upstreams pool)))]"

definition health_handler :: "instant \<Rightarrow> 'm app_state \<Rightarrow> response" where
  "health_handler now st =
     json_response 200
       (JObject [(''status'', JString ''ok''), (''version'', JString cargo_pkg_version),
          (''uptime_secs'', JInt (int ((now - start_time st) div nanos_per_sec))),
          (''pools'', JArray (map (health_pool_json (st_heap st)) (st_pools st)))])"

definition metrics_handler :: "('m, 'h) libs \<Rightarrow> 'm app_state \<Rightarrow> response" where
  "metrics_handler L st =
     (case st_metrics st of
        Some m \<Rightarrow> \<lparr>resp_status = 200, resp_headers = [(''content-type'', as_bytes ''text/plain; version=0.0.4'')],
                    resp_body = TextBody (metrics_render (encode_registry L) m)\<rparr>
      | None \<Rightarrow> \<lparr>resp_status = 404, resp_headers = [(''content-type'', as_bytes ''text/plain; charset=utf-8'')],
                  resp_body = TextBody ''Metrics disabled''\<rparr>)"

definition rate_limit_response :: response where
  "rate_limit_response = json_response 429 (json_rpc_error (- 32005) ''Rate limit exceeded'')"

definition auth_error_response :: "status \<Rightarrow> int \<Rightarrow> string \<Rightarrow> response" where
  "auth_error_response status code message = json_response status (json_rpc_error code message)"

definition extract_client_ip :: "('m, 'h) libs \<Rightarrow> header_map \<Rightarrow> string" where
  "extract_client_ip L headers =
     (let real_ip =
        (case header_get headers ''X-Real-IP'' of
           None \<Rightarrow> ''unknown''
         | Some val \<Rightarrow>
             (case to_str L val of None \<Rightarrow> ''unknown'' | Some s \<Rightarrow> if s \<noteq> [] then s else ''unknown''))
      in case header_get headers ''X-Forwarded-For'' of
           None \<Rightarrow> real_ip
         | Some val \<Rightarrow>
             (case to_str L val of
                None \<Rightarrow> real_ip
              | Some s \<Rightarrow> let ip = trim (split_first (CHR '','') s) in if ip \<noteq> [] then ip else real_ip))"

subsection \<open>Middlewares\<close>

type_synonym 'm service = "'m app_state \<Rightarrow> request \<Rightarrow> outcome \<times> 'm app_state"

definition gateway_middleware :: "'m service \<Rightarrow> 'm service" where
  "gateway_middleware next st req = next st req"

definition cache_middleware :: "'m service \<Rightarrow> 'm service" where
  "cache_middleware next st req = next st req"

definition auth_middleware :: "('m, 'h) libs \<Rightarrow> string option \<Rightarrow> 'm service \<Rightarrow> 'm service" where
  "auth_middleware L fault next st req =
     (if \<not> auth_enabled (cfg_auth (st_config st)) \<or> st_key_store st = None then next st req
      else
        (case extract_api_key (to_str L) (form_parse L) (req_headers req) (req_query req) of
           Some key \<Rightarrow>
             (case st_key_store st of
                None \<Rightarrow> (Panicked, st) \<comment> \<open>\<open>as_ref().unwrap()\<close>\<close>
              | Some store \<Rightarrow>
                 (case dispatch_lookup (lib_crypto L) fault key store of
                    Inr (Some entry) \<Rightarrow>
                      if is_revoked entry
                      then (Respond (auth_error_response 403 (- 32003) ''API key has been revoked''), st)
                      else next st (req\<lparr>ext_tier := Some (ke_tier entry), ext_key_id := Some (ke_id entry)\<rparr>)
                  | Inr None \<Rightarrow>
                      if allow_unauthenticated (cfg_auth (st_config st)) then next st req
                      else (Respond (auth_error_response 401 (- 32001) ''Invalid API key''), st)
                  | Inl e \<Rightarrow>
                      (Respond (auth_error_response 500 (- 32002) ''Authentication service unavailable''), st)))
         | None \<Rightarrow>
             if allow_unauthenticated (cfg_auth (st_config st)) then next st req
             else (Respond (auth_error_response 401 (- 32001) ''Authentication required''), st)))"

text \<open>The bucket, rate and burst of a request.\<close>

definition rate_params :: "('m, 'h) libs \<Rightarrow> 'm app_state \<Rightarrow> request \<Rightarrow> string \<times> u32 \<times> u32" where
  "rate_params L st req =
     (let by_ip = (''ip:'' @ extract_client_ip L (req_headers req),
                   ip_fallback_rps (cfg_rate_limit (st_config st)), ip_fallback_burst (cfg_rate_limit (st_config st)))
      in case ext_tier req of
           None \<Rightarrow> by_ip
         | Some tier_name \<Rightarrow>
             (case auth_tiers st tier_name of
                Some t \<Rightarrow> (''tier:'' @ kt_name t, requests_per_second t, kt_burst t)
              | None \<Rightarrow> by_ip))"

definition rate_limit_middleware :: "('m, 'h) libs \<Rightarrow> instant \<Rightarrow> 'm service \<Rightarrow> 'm service" where
  "rate_limit_middleware L now next st req =
     (if \<not> rl_enabled (cfg_rate_limit (st_config st)) \<or> st_rate_limiter st = None then next st req
      else
        (case st_rate_limiter st of
           None \<Rightarrow> (Panicked, st) \<comment> \<open>\<open>as_ref().unwrap()\<close>\<close>
         | Some limiter \<Rightarrow>
          let (rate_key, rps, burst) = rate_params L st req;
              (r, limiter') = dispatch_check_rate now rate_key rps burst limiter;
              st1 = st\<lparr>st_rate_limiter := Some limiter'\<rparr>
          in case r of
               Inr _ \<Rightarrow> next st1 req
             | Inl _ \<Rightarrow>
                 let tier_label = (case ext_tier req of Some t \<Rightarrow> t | None \<Rightarrow> ''unauthenticated'')
                 in (Respond rate_limit_response,
                     record_metrics [Rate_limit_rejections_total_inc
                       \<lparr>tr_tier = tier_label, tr_reason = ''rate_exceeded''\<rparr>] st1)))"

subsection \<open>The router\<close>

text \<open>\<open>Router\<close> sends \<open>/health\<close> to its handler for \<open>GET\<close>, and for \<open>HEAD\<close> without the body, refuses
  other methods there, and sends every other path to the fallback.\<close>

definition app_routes :: "('m, 'h) libs \<Rightarrow> server_env \<Rightarrow> 'm service" where
  "app_routes L env st req =
     (if req_path req = ''/health''
      then if req_method req = ''GET'' then (Respond (health_handler (t_health env) st), st)
           else if req_method req = ''HEAD''
           then (Respond ((health_handler (t_health env) st)\<lparr>resp_body := EmptyBody\<rparr>), st)
           else (Respond \<lparr>resp_status = 405, resp_headers = [(''allow'', as_bytes ''GET,HEAD'')], resp_body = EmptyBody\<rparr>, st)
      else proxy_handler L (se_proxy env) st req)"

definition build_router :: "('m, 'h) libs \<Rightarrow> server_env \<Rightarrow> 'm service" where
  "build_router L env =
     gateway_middleware
       (auth_middleware L (db_fault env)
         (rate_limit_middleware L (t_rate env)
           (cache_middleware (app_routes L env))))"

text \<open>The metrics listener has one route.\<close>

definition metrics_routes :: "('m, 'h) libs \<Rightarrow> 'm service" where
  "metrics_routes L st req =
     (if req_path req = ''/metrics''
      then if req_method req = ''GET'' then (Respond (metrics_handler L st), st)
           else if req_method req = ''HEAD'' then (Respond ((metrics_handler L st)\<lparr>resp_body := EmptyBody\<rparr>), st)
           else (Respond \<lparr>resp_status = 405, resp_headers = [(''allow'', as_bytes ''GET,HEAD'')], resp_body = EmptyBody\<rparr>, st)
      else (Respond \<lparr>resp_status = 404, resp_headers = [], resp_body = EmptyBody\<rparr>, st))"

fun server_run :: "('m, 'h) libs \<Rightarrow> 'm app_state \<Rightarrow> (server_env \<times> request) list \<Rightarrow> outcome list \<times> 'm app_state" where
  "server_run L st [] = ([], st)"
| "server_run L st ((env, req) # xs) =
     (let (out, st1) = build_router L env st req; (outs, st2) = server_run L st1 xs in (out # outs, st2))"

subsection \<open>The contract of a middleware\<close>

text \<open>What a middleware may change of the state before it hands over: it may charge the bucket of a
  request at the rate limiter, and count the rejection in the metrics; and of the request: the
  extensions. \<open>same_core\<close> is what charges keep of the state.\<close>

inductive charged :: "('m, 'h) libs \<Rightarrow> 'm app_state \<Rightarrow> 'm app_state \<Rightarrow> bool" for L where
  charged_refl [simp, intro]: "charged L st st"
| charged_pass:
    "charged L st st1 \<Longrightarrow> st_rate_limiter st1 = Some limiter \<Longrightarrow> rate_params L st1 req = (rate_key, rps, burst) \<Longrightarrow>
     dispatch_check_rate now rate_key rps burst limiter = (Inr u, limiter') \<Longrightarrow>
     charged L st (st1\<lparr>st_rate_limiter := Some limiter'\<rparr>)"
| charged_reject:
    "charged L st st1 \<Longrightarrow> st_rate_limiter st1 = Some limiter \<Longrightarrow> rate_params L st1 req = (rate_key, rps, burst) \<Longrightarrow>
     dispatch_check_rate now rate_key rps burst limiter = (Inl e, limiter') \<Longrightarrow>
     charged L st (record_metrics [Rate_limit_rejections_total_inc l] (st1\<lparr>st_rate_limiter := Some limiter'\<rparr>))"

definition same_core :: "'m app_state \<Rightarrow> 'm app_state \<Rightarrow> bool" where
  "same_core st st' \<longleftrightarrow>
     st_config st' = st_config st \<and> start_time st' = start_time st \<and> st_pools st' = st_pools st
   \<and> st_heap st' = st_heap st \<and> st_router st' = st_router st \<and> st_cache st' = st_cache st
   \<and> cache_ttl_table st' = cache_ttl_table st \<and> st_key_store st' = st_key_store st \<and> auth_tiers st' = auth_tiers st"

definition same_payload :: "request \<Rightarrow> request \<Rightarrow> bool" where
  "same_payload req req' \<longleftrightarrow>
     req_method req' = req_method req \<and> req_path req' = req_path req \<and> req_query req' = req_query req
   \<and> req_headers req' = req_headers req \<and> req_body req' = req_body req"

text \<open>The answers a middleware may give itself.\<close>

definition refusal :: "response \<Rightarrow> bool" where
  "refusal r \<longleftrightarrow>
     r \<in> {auth_error_response 403 (- 32003) ''API key has been revoked'',
          auth_error_response 401 (- 32001) ''Invalid API key'',
          auth_error_response 401 (- 32001) ''Authentication required'',
          auth_error_response 500 (- 32002) ''Authentication service unavailable'',
          rate_limit_response}"

lemma same_payload_refl [simp]: "same_payload req req"
  by (simp add: same_payload_def)

lemma charged_core: "charged L a b \<Longrightarrow> same_core a b"
  by (induction rule: charged.induct) (simp_all add: same_core_def)

lemma charged_trans: "charged L b c \<Longrightarrow> charged L a b \<Longrightarrow> charged L a c"
  by (induction rule: charged.induct) (auto intro: charged.intros)

lemma same_payload_trans: "same_payload a b \<Longrightarrow> same_payload b c \<Longrightarrow> same_payload a c"
  by (simp add: same_payload_def)

locale middleware =
  fixes L :: "('m, 'h) libs" and mw :: "'m service \<Rightarrow> 'm service"
  assumes pass_or_refuse:
    "(\<exists>st1 req1. charged L st st1 \<and> same_payload req req1 \<and> mw next st req = next st1 req1)
     \<or> (\<exists>r st1. charged L st st1 \<and> refusal r \<and> mw next st req = (Respond r, st1))"
begin

lemma pass_or_refuse_cases:
  obtains (pass) st1 req1 where "charged L st st1" "same_payload req req1" "mw next st req = next st1 req1"
  | (refuse) r st1 where "charged L st st1" "refusal r" "mw next st req = (Respond r, st1)"
  using pass_or_refuse by blast

text \<open>An invariant that charges keep and that the wrapped service keeps is kept by the whole.\<close>

lemma keeps_invariant:
  assumes "\<And>a b. charged L a b \<Longrightarrow> I a \<Longrightarrow> I b" and "\<And>a r. I a \<Longrightarrow> I (snd (next a r))" and "I st"
  shows "I (snd (mw next st req))"
  by (rule pass_or_refuse_cases [of st req "next"]) (use assms in auto)

end

lemma middleware_comp:
  assumes "middleware L f" and "middleware L g"
  shows "middleware L (\<lambda>n. f (g n))"
proof
  fix st req and "next" :: "'a service"
  show "(\<exists>st1 req1. charged L st st1 \<and> same_payload req req1 \<and> f (g next) st req = next st1 req1)
     \<or> (\<exists>r st1. charged L st st1 \<and> refusal r \<and> f (g next) st req = (Respond r, st1))"
  proof (rule middleware.pass_or_refuse_cases [OF assms(1), of st req "g next"])
    fix st1 req1
    assume 1: "charged L st st1" "same_payload req req1" "f (g next) st req = g next st1 req1"
    then show ?thesis
      by (rule_tac middleware.pass_or_refuse_cases [OF assms(2), of st1 req1 "next"])
        (metis charged_trans same_payload_trans)+
  qed blast
qed

interpretation gateway_mw: middleware L gateway_middleware for L
  by unfold_locales (metis gateway_middleware_def charged_refl same_payload_refl)

interpretation cache_mw: middleware L cache_middleware for L
  by unfold_locales (metis cache_middleware_def charged_refl same_payload_refl)

interpretation auth_mw: middleware L "auth_middleware L fault" for L fault
proof
  fix st :: "'a app_state" and req and "next" :: "'a service"
  show "(\<exists>st1 req1. charged L st st1 \<and> same_payload req req1 \<and> auth_middleware L fault next st req = next st1 req1)
     \<or> (\<exists>r st1. charged L st st1 \<and> refusal r \<and> auth_middleware L fault next st req = (Respond r, st1))"
  proof (cases "\<exists>req1. same_payload req req1 \<and> auth_middleware L fault next st req = next st req1")
    case True
    then show ?thesis using charged_refl by blast
  next
    case False
    have "same_payload req (req\<lparr>ext_tier := a, ext_key_id := b\<rparr>)" for a b by (simp add: same_payload_def)
    then have "auth_middleware L fault next st req \<noteq> next st req"
      "auth_middleware L fault next st req \<noteq> next st (req\<lparr>ext_tier := a, ext_key_id := b\<rparr>)" for a b
      using False same_payload_refl [of req] by blast+
    then have "\<exists>r. refusal r \<and> auth_middleware L fault next st req = (Respond r, st)"
      by (auto simp: auth_middleware_def refusal_def split: option.splits sum.splits if_splits)
    then show ?thesis using charged_refl by blast
  qed
qed

interpretation rate_mw: middleware L "rate_limit_middleware L now" for L now
proof
  fix st :: "'a app_state" and req and "next" :: "'a service"
  let ?goal = "(\<exists>st1 req1. charged L st st1 \<and> same_payload req req1 \<and> rate_limit_middleware L now next st req = next st1 req1)
     \<or> (\<exists>r st1. charged L st st1 \<and> refusal r \<and> rate_limit_middleware L now next st req = (Respond r, st1))"
  have idle: "rate_limit_middleware L now next st req = next st req \<Longrightarrow> ?goal"
    using charged_refl same_payload_refl by blast
  show ?goal
  proof (cases "st_rate_limiter st")
    case None
    then show ?thesis using idle by (simp add: rate_limit_middleware_def)
  next
    case (Some limiter)
    obtain k rps burst where params: "rate_params L st req = (k, rps, burst)" by (metis prod_cases3)
    obtain r limiter' where r: "dispatch_check_rate now k rps burst limiter = (r, limiter')" by fastforce
    note unfold = rate_limit_middleware_def Some params r Let_def
    show ?thesis
    proof (cases "rl_enabled (cfg_rate_limit (st_config st))")
      case False
      then show ?thesis using idle by (simp add: unfold)
    next
      case True
      show ?thesis
      proof (cases r)
        case (Inr u)
        then have "rate_limit_middleware L now next st req = next (st\<lparr>st_rate_limiter := Some limiter'\<rparr>) req"
          using True by (simp add: unfold)
        then show ?thesis using charged_pass [OF charged_refl Some params r [unfolded Inr]] same_payload_refl by blast
      next
        case (Inl e)
        then have "\<exists>l. rate_limit_middleware L now next st req = (Respond rate_limit_response,
            record_metrics [Rate_limit_rejections_total_inc l] (st\<lparr>st_rate_limiter := Some limiter'\<rparr>))"
          using True by (simp add: unfold) blast
        moreover have "refusal rate_limit_response" by (simp add: refusal_def)
        ultimately show ?thesis using charged_reject [OF charged_refl Some params r [unfolded Inl]] by blast
      qed
    qed
  qed
qed

definition middleware_stack :: "('m, 'h) libs \<Rightarrow> server_env \<Rightarrow> 'm service \<Rightarrow> 'm service" where
  "middleware_stack L env n =
     gateway_middleware (auth_middleware L (db_fault env) (rate_limit_middleware L (t_rate env) (cache_middleware n)))"

interpretation stack: middleware L "middleware_stack L env" for L env
  unfolding middleware_stack_def
  by (rule middleware_comp [OF gateway_mw.middleware_axioms middleware_comp [OF auth_mw.middleware_axioms
        middleware_comp [OF rate_mw.middleware_axioms cache_mw.middleware_axioms]]])

lemma build_router_stack: "build_router L env = middleware_stack L env (app_routes L env)"
  by (simp add: build_router_def middleware_stack_def)

lemma sqlite_lookup_SomeD:
  assumes "sqlite_lookup c fault key t = Inr (Some e)"
  shows "e \<in> set t \<and> ke_id e = sha256_id c key
    \<and> (\<exists>h. password_hash_new c (key_hash e) = Inr h \<and> verify_password c (as_bytes key) h)"
proof -
  obtain es where "sql_select_id (sha256_id c key) t = e # es"
    and h: "\<exists>h. password_hash_new c (key_hash e) = Inr h \<and> verify_password c (as_bytes key) h"
    using assms by (auto simp: sqlite_lookup_def Let_def split: option.splits list.splits sum.splits if_splits)
  then have "e \<in> set (sql_select_id (sha256_id c key) t)" by simp
  then show ?thesis using h by (simp add: sql_select_id_def)
qed

subsection \<open>Invariants of the server\<close>

definition routable :: "'m app_state \<Rightarrow> bool" where
  "routable st \<longleftrightarrow> (\<forall>m. route (st_router st) m \<in> up_name ` set (st_pools st))"

lemma routable_charged: "charged L st st' \<Longrightarrow> routable st \<Longrightarrow> routable st'"
  by (drule charged_core) (simp add: same_core_def routable_def)

lemma routable_proxy: "routable st \<Longrightarrow> routable (snd (proxy_handler L env st req))"
proof -
  have "up_name ` set (st_pools (snd (proxy_handler L env st req))) = up_name ` set (st_pools st)"
    by (metis proxy_handler_frame(7) set_map)
  then show "routable st \<Longrightarrow> ?thesis" by (simp add: routable_def)
qed

lemma routable_step: "routable st \<Longrightarrow> routable (snd (build_router L env st req))"
  unfolding build_router_stack
proof (rule stack.keeps_invariant)
  show "routable (snd (app_routes L env a r))" if "routable a" for a r
    using that by (auto simp: app_routes_def routable_proxy)
qed (auto simp: routable_charged)

definition pool_missing :: response where
  "pool_missing = json_error_response 500 (- 32000) ''Pool not configured''"

lemma failure_status_not_500 [simp]: "failure_status e \<noteq> 500"
  by (simp add: failure_status_def)

lemma routable_begin: "routable st \<Longrightarrow> fst (proxy_begin L env st req) \<noteq> Answered pool_missing"
proof (rule notI)
  assume r: "routable st" and b: "fst (proxy_begin L env st req) = Answered pool_missing"
  have sel: "route (st_router st) m \<in> up_name ` set (st_pools st)" for m
    using r by (simp add: routable_def)
  have cached: "fst (proxy_cached L env m p body st) \<noteq> Some pool_missing" for m p body
    by (auto simp: proxy_cached_def pool_missing_def json_error_response_def json_response_def Let_def
        split: option.splits prod.splits)
  show False
    using b sel cached
    by (auto simp: proxy_begin_def Let_def split_beta pool_missing_def json_error_response_def json_response_def
        select_in_pool_None_iff split: sum.splits option.splits prod.splits)
qed

lemma routable_answer: "routable st \<Longrightarrow> fst (proxy_handler L env st req) \<noteq> Respond pool_missing"
  using routable_begin [of st L env req]
  by (auto simp: proxy_handler_alt proxy_finish_def upstream_response_def pool_missing_def json_error_response_def
      json_response_def Let_def split: begin_result.splits sum.splits option.splits)

lemma build_state_fields:
  assumes "build_state L open_db clock now c s = Inr (st, pools)"
  shows "st_pools st = pools \<and> (\<exists>n. create_pools clock c s = (pools, st_heap st, n))
    \<and> st_router st = router_new (cfg_routing c)
    \<and> st_config st = c\<lparr>cfg_auth := (cfg_auth c)\<lparr>tiers := []\<rparr>\<rparr>
    \<and> auth_tiers st = tiers_by_name (tiers (cfg_auth c))
    \<and> (st_cache st = None \<or> st_cache st = Some (memory_cache_new (lib_moka L) (max_memory_mb (cfg_cache c))))
    \<and> (st_rate_limiter st \<noteq> None \<longleftrightarrow> rl_enabled (cfg_rate_limit c))
    \<and> (st_key_store st \<noteq> None \<longleftrightarrow> auth_enabled (cfg_auth c))"
  using assms by (auto simp: build_state_def Let_def try_then_Inr_iff split: prod.splits if_splits)

lemma create_pools_spec:
  assumes "create_pools clock c (h, n) = (pools, h', n')"
  shows "pools_built clock h' (cfg_pools c) pools"
  using assms unfolding create_pools_def by (rule create_pool_list_spec)

lemma build_state_built:
  assumes "build_state L open_db clock now c s = Inr (st, pools)"
  shows "pools_built clock (st_heap st) (cfg_pools c) (st_pools st)"
  using build_state_fields [OF assms] create_pools_spec by (metis surj_pair)

lemma build_state_routable:
  assumes "config_valid c" and "build_state L open_db clock now c s = Inr (st, pools)"
  shows "routable st"
proof -
  have "up_name ` set (st_pools st) = pc_name ` set (cfg_pools c)"
    using pools_built_names [OF build_state_built [OF assms(2)]] by (metis set_map)
  then show ?thesis
    using build_state_fields [OF assms(2)] config_valid_default_pool [OF assms(1)] config_valid_rule_pool [OF assms(1)]
      last_rule_SomeD
    by (fastforce simp: routable_def route_new split: option.splits)
qed

lemma server_run_pool_found:
  "routable st \<Longrightarrow> Respond pool_missing \<notin> set (fst (server_run L st xs))"
proof (induction xs arbitrary: st)
  case (Cons x xs)
  obtain env req where x: "x = (env, req)" by fastforce
  have "fst (build_router L env st req) \<noteq> Respond pool_missing"
  proof (rule stack.pass_or_refuse_cases [of L st req env "app_routes L env"])
    fix st1 req1
    assume "charged L st st1" and eq: "middleware_stack L env (app_routes L env) st req = app_routes L env st1 req1"
    then have "routable st1" using Cons.prems routable_charged by blast
    then have "fst (app_routes L env st1 req1) \<noteq> Respond pool_missing"
      using routable_answer
      by (auto simp: app_routes_def health_handler_def pool_missing_def json_error_response_def json_response_def)
    then show ?thesis using eq by (simp add: build_router_stack)
  next
    fix r st1
    assume "refusal r" and "middleware_stack L env (app_routes L env) st req = (Respond r, st1)"
    then show ?thesis
      by (auto simp: build_router_stack refusal_def pool_missing_def json_error_response_def json_response_def json_rpc_error_def
          auth_error_response_def rate_limit_response_def)
  qed
  then show ?case using Cons.IH [OF routable_step [OF Cons.prems]] by (simp add: x split_beta)
qed simp

subsection \<open>Properties\<close>

text \<open>C22. Under a validated configuration no sequence of requests, with any behaviour of the network,
  the clock, the key store and the libraries, ever gets the answer \<open>Pool not configured\<close>: the router
  and the pools built at startup always agree.\<close>

theorem validated_gateway_always_finds_pool:
  assumes "validate c = Inr ()" and "build_state L open_db clock now c s = Inr (st, pools)"
  shows "Respond (json_error_response 500 (- 32000) ''Pool not configured'') \<notin> set (fst (server_run L st xs))"
proof -
  have "routable st" using assms validate_ok build_state_routable by blast
  then show ?thesis using server_run_pool_found unfolding pool_missing_def by blast
qed

definition sample_server_env :: "exchange \<Rightarrow> server_env" where
  "sample_server_env x = \<lparr>se_proxy = sample_env x, t_rate = 0, t_health = 0, db_fault = None\<rparr>"

lemma example_build:
  "\<exists>st pools. build_state sample_libs (\<lambda>_. Inr (None, None)) (\<lambda>_. 0) 0 example_config (two_upstreams, 0) = Inr (st, pools)"
  by (cases "auth_enabled (cfg_auth example_config)") (simp_all add: build_state_def Let_def split_beta sqlite_new_def)

theorem validated_gateway_always_finds_pool_witness:
  "\<exists>st pools. build_state sample_libs (\<lambda>_. Inr (None, None)) (\<lambda>_. 0) 0 example_config (two_upstreams, 0) = Inr (st, pools)
    \<and> Respond (json_error_response 500 (- 32000) ''Pool not configured'')
        \<notin> set (fst (server_run sample_libs st [(sample_server_env TimedOut, sample_request [1])]))"
proof -
  have v: "validate example_config = Inr ()" by (simp add: validate_ok example_config_valid)
  show ?thesis using example_build validated_gateway_always_finds_pool [OF v] by blast
qed

text \<open>C27. A middleware changes the shared state only by charging token buckets and counting rejections; it never
  touches the pools, the upstreams, the cache or the key store. Every request either reaches the routes, with its
  method, path, headers and body unchanged, or is refused with one of the five documented errors.\<close>

theorem middlewares_pass_or_refuse:
  "(\<exists>st1 req1. charged L st st1 \<and> same_payload req req1 \<and> build_router L env st req = app_routes L env st1 req1)
   \<or> (\<exists>r st1. charged L st st1 \<and> refusal r \<and> build_router L env st req = (Respond r, st1))"
  unfolding build_router_stack by (rule stack.pass_or_refuse)

text \<open>C14. With authentication required, a request gets past the authentication only with a key whose
  identifier is in the store, whose hash verifies and which is not revoked; it then carries the tier
  and the identifier of that entry. Any other request is refused and changes nothing.\<close>

theorem only_live_keys_pass_authentication:
  assumes "st_key_store st = Some (SqliteStore t)" and "auth_enabled (cfg_auth (st_config st))"
    and "\<not> allow_unauthenticated (cfg_auth (st_config st))"
  shows "(\<exists>key e h. extract_api_key (to_str L) (form_parse L) (req_headers req) (req_query req) = Some key
        \<and> e \<in> set t \<and> ke_id e = sha256_id (lib_crypto L) key \<and> \<not> is_revoked e
        \<and> password_hash_new (lib_crypto L) (key_hash e) = Inr h \<and> verify_password (lib_crypto L) (as_bytes key) h
        \<and> auth_middleware L fault next st req
            = next st (req\<lparr>ext_tier := Some (ke_tier e), ext_key_id := Some (ke_id e)\<rparr>))
    \<or> (\<exists>r. refusal r \<and> auth_middleware L fault next st req = (Respond r, st))"
proof (cases "extract_api_key (to_str L) (form_parse L) (req_headers req) (req_query req)")
  case None
  then show ?thesis using assms by (simp add: auth_middleware_def refusal_def)
next
  case (Some key)
  show ?thesis
  proof (cases "sqlite_lookup (lib_crypto L) fault key t")
    case (Inl e)
    then show ?thesis using assms Some by (simp add: auth_middleware_def refusal_def)
  next
    case (Inr r)
    show ?thesis
    proof (cases r)
      case None
      then show ?thesis using assms Some Inr by (simp add: auth_middleware_def refusal_def)
    next
      case (Some e)
      note key = \<open>extract_api_key _ _ _ _ = Some key\<close>
      obtain h where e: "e \<in> set t" "ke_id e = sha256_id (lib_crypto L) key"
        "password_hash_new (lib_crypto L) (key_hash e) = Inr h" "verify_password (lib_crypto L) (as_bytes key) h"
        using Inr sqlite_lookup_SomeD unfolding Some by blast
      show ?thesis
      proof (cases "is_revoked e")
        case True
        then show ?thesis using assms key Inr Some by (simp add: auth_middleware_def refusal_def)
      next
        case False
        then have "auth_middleware L fault next st req
            = next st (req\<lparr>ext_tier := Some (ke_tier e), ext_key_id := Some (ke_id e)\<rparr>)"
          using assms key Inr Some by (simp add: auth_middleware_def)
        then show ?thesis using key e False by blast
      qed
    qed
  qed
qed

definition auth_sample_state :: "(nat \<times> (u64 \<times> cached_value) list) app_state" where
  "auth_sample_state = sample_state\<lparr>st_key_store := Some (SqliteStore [sample_entry]),
     st_config := example_config\<lparr>cfg_auth := auth_config_default\<lparr>auth_enabled := True, allow_unauthenticated := False\<rparr>\<rparr>\<rparr>"

theorem only_live_keys_pass_authentication_witness:
  "\<exists>r. refusal r \<and> auth_middleware sample_libs None (\<lambda>st req. (Panicked, st)) auth_sample_state (sample_request [1])
     = (Respond r, auth_sample_state)"
proof -
  have "extract_api_key (to_str sample_libs) (form_parse sample_libs) (req_headers (sample_request [1]))
      (req_query (sample_request [1])) = None"
    by (simp add: extract_api_key_def header_api_key_def query_api_key_def header_get_def sample_request_def)
  then show ?thesis
    using only_live_keys_pass_authentication [of auth_sample_state "[sample_entry]" sample_libs "sample_request [1]" None]
    by (simp add: auth_sample_state_def)
qed

subsection \<open>Panics\<close>

definition ttls_in_range :: "instant \<Rightarrow> 'm app_state \<Rightarrow> bool" where
  "ttls_in_range t st \<longleftrightarrow> (\<forall>m. instant_add t (ttl_for (cache_ttl_table st) m) \<noteq> None)"

lemma store_total:
  assumes "ttls_in_range (t_set env) st"
  shows "proxy_store L env m s b d st \<noteq> None"
proof -
  obtain t where "instant_add (t_set env) (ttl_for (cache_ttl_table st) m) = Some t"
    using assms by (auto simp: ttls_in_range_def)
  then show ?thesis by (simp add: proxy_store_def Let_def cache_set_def split: option.split)
qed

lemma proxy_no_panic:
  assumes "ttls_in_range (t_set env) st"
  shows "fst (proxy_handler L env st req) \<noteq> Panicked"
proof -
  have store: "proxy_store L env m s b d (record_metrics cs (upd_upstream a g (snd (proxy_begin L env st req)))) \<noteq> None"
    for m s b d cs a g
    using assms by (intro store_total) (simp add: ttls_in_range_def)
  have "fst (proxy_finish L env f result (snd (proxy_begin L env st req))) \<noteq> Panicked" for f result
  proof (cases result)
    case (Inr x)
    then show ?thesis by (cases x) (auto simp: proxy_finish_def Let_def store split: option.split)
  qed (simp add: proxy_finish_def Let_def)
  then show ?thesis by (simp add: proxy_handler_alt split: begin_result.split)
qed

lemma router_no_panic:
  assumes "ttls_in_range (t_set (se_proxy env)) st"
  shows "fst (build_router L env st req) \<noteq> Panicked"
proof (rule stack.pass_or_refuse_cases [of L st req env "app_routes L env"])
  fix st1 req1
  assume core: "charged L st st1" and eq: "middleware_stack L env (app_routes L env) st req = app_routes L env st1 req1"
  have "ttls_in_range (t_set (se_proxy env)) st1" using assms charged_core [OF core] by (simp add: ttls_in_range_def same_core_def)
  then show ?thesis using eq proxy_no_panic by (auto simp: build_router_stack app_routes_def)
qed (simp add: build_router_stack)

lemma router_ttls: "cache_ttl_table (snd (build_router L env st req)) = cache_ttl_table st"
  unfolding build_router_stack
  by (rule stack.keeps_invariant [where I = "\<lambda>x. cache_ttl_table x = cache_ttl_table st"])
    (auto dest!: charged_core simp: same_core_def app_routes_def)

lemma ttl_for_new_range:
  assumes "\<forall>r \<in> set rules. unat (ttl_secs r) < 2 ^ 62" and "t < 2 ^ 62 * nanos_per_sec"
  shows "instant_add t (ttl_for (ttl_table_new rules) m) \<noteq> None"
proof -
  have "ttl_for (ttl_table_new rules) m \<le> 2 ^ 62 * nanos_per_sec"
    using assms(1) last_rule_SomeD [of cr_methods rules m]
    by (fastforce simp: ttl_for_def ttl_table_new_def insert_rules_apply from_secs_def split: option.split)
  then show ?thesis using assms(2) by (simp add: instant_add_def)
qed

text \<open>C26. The gateway answers every request: with times to live below \<open>2 ^ 62\<close> seconds and a clock that has run for less than
  that, no run of requests makes a handler panic, whatever the clients, the upstreams, the database and the cache do.\<close>

theorem gateway_never_panics:
  assumes "build_state L open_db clock now c s = Inr (st, pools)"
    and "\<forall>r \<in> set (cc_rules (cfg_cache c)). unat (ttl_secs r) < 2 ^ 62"
    and "\<forall>x \<in> set xs. t_set (se_proxy (fst x)) < 2 ^ 62 * nanos_per_sec"
  shows "Panicked \<notin> set (fst (server_run L st xs))"
proof -
  have "cache_ttl_table st = ttl_table_new (cc_rules (cfg_cache c))"
    using assms(1) by (auto simp: build_state_def Let_def try_then_Inr_iff split: prod.splits)
  then show ?thesis using assms(3)
  proof (induction xs arbitrary: st)
    case (Cons x xs)
    obtain env req where x: "x = (env, req)" by fastforce
    have "ttls_in_range (t_set (se_proxy env)) st"
      using ttl_for_new_range [OF assms(2)] Cons.prems x by (simp add: ttls_in_range_def)
    then have "fst (build_router L env st req) \<noteq> Panicked" by (rule router_no_panic)
    moreover have "Panicked \<notin> set (fst (server_run L (snd (build_router L env st req)) xs))"
      using Cons.IH Cons.prems by (simp add: router_ttls)
    ultimately show ?case by (auto simp: x split_beta)
  qed simp
qed

theorem gateway_never_panics_witness:
  "\<exists>st pools. build_state sample_libs (\<lambda>_. Inr (None, None)) (\<lambda>_. 0) 0 example_config (two_upstreams, 0) = Inr (st, pools)
    \<and> Panicked \<notin> set (fst (server_run sample_libs st [(sample_server_env TimedOut, sample_request [1])]))"
proof -
  have "\<forall>r \<in> set (cc_rules (cfg_cache example_config)). unat (ttl_secs r) < 2 ^ 62"
    by (simp add: example_defs config_struct_defaults config_defaults)
  moreover have "t_set (se_proxy (sample_server_env TimedOut)) < 2 ^ 62 * nanos_per_sec"
    by (simp add: sample_server_env_def nanos_per_sec_def)
  moreover obtain st pools where b: "build_state sample_libs (\<lambda>_. Inr (None, None)) (\<lambda>_. 0) 0 example_config (two_upstreams, 0) = Inr (st, pools)"
    using example_build by blast
  ultimately show ?thesis
    using gateway_never_panics [OF b, of "[(sample_server_env TimedOut, sample_request [1])]"] by auto
qed

subsection \<open>Rate limiting end to end\<close>

text \<open>Nothing behind the middlewares looks at the limiter.\<close>

abbreviation with_limiter :: "rate_limiter_dispatch option \<Rightarrow> 'm app_state \<Rightarrow> 'm app_state" where
  "with_limiter x st \<equiv> st\<lparr>st_rate_limiter := x\<rparr>"

lemma metrics_limiter: "record_metrics cs (with_limiter x st) = with_limiter x (record_metrics cs st)"
  by (simp add: record_metrics_def split: option.split)

lemma upstream_limiter: "upd_upstream a g (with_limiter x st) = with_limiter x (upd_upstream a g st)"
  by (simp add: upd_upstream_def)

lemma cached_limiter:
  "proxy_cached L env m p b (with_limiter x st) = apsnd (with_limiter x) (proxy_cached L env m p b st)"
  by (simp add: proxy_cached_def Let_def split_beta metrics_limiter [symmetric] split: option.split)

lemma begin_limiter:
  "proxy_begin L env (with_limiter x st) req = apsnd (with_limiter x) (proxy_begin L env st req)"
  by (simp add: proxy_begin_def Let_def split_beta cached_limiter upstream_limiter [symmetric]
      split: option.split sum.split prod.split)

lemma store_limiter:
  "proxy_store L env m s b d (with_limiter x st) = map_option (with_limiter x) (proxy_store L env m s b d st)"
  by (auto simp: proxy_store_def Let_def option.map_comp comp_def intro!: option.map_cong split: option.split)

lemma finish_limiter:
  "proxy_finish L env f result (with_limiter x st) = apsnd (with_limiter x) (proxy_finish L env f result st)"
  by (auto simp: proxy_finish_def Let_def upstream_limiter metrics_limiter store_limiter split: sum.split option.split)

lemma app_routes_limiter:
  "app_routes L env (with_limiter x st) req = apsnd (with_limiter x) (app_routes L env st req)"
proof -
  have "proxy_handler L env' (with_limiter x st) req = apsnd (with_limiter x) (proxy_handler L env' st req)" for env'
    by (cases "proxy_begin L env' st req")
      (simp add: proxy_handler_def begin_limiter finish_limiter split: begin_result.split)
  then show ?thesis by (simp add: app_routes_def health_handler_def)
qed

lemma app_routes_frame [simp]:
  "st_config (snd (app_routes L env st req)) = st_config st"
  "st_rate_limiter (snd (app_routes L env st req)) = st_rate_limiter st"
  "st_key_store (snd (app_routes L env st req)) = st_key_store st"
  by (simp_all add: app_routes_def)

definition ip_key :: "('m, 'h) libs \<Rightarrow> server_env \<times> request \<Rightarrow> instant \<times> string" where
  "ip_key L x = (t_rate (fst x), ''ip:'' @ extract_client_ip L (req_headers (snd x)))"

lemma router_unauthenticated:
  assumes "st_key_store st = None" and "st_rate_limiter st = Some (MemoryLimiter l)"
    and "rl_enabled (cfg_rate_limit (st_config st))" and "ext_tier req = None"
    and "check_rate (fst (ip_key L (env, req))) (snd (ip_key L (env, req)))
          (ip_fallback_rps (cfg_rate_limit (st_config st))) (ip_fallback_burst (cfg_rate_limit (st_config st))) l = (r, l')"
  shows "build_router L env st req =
    (if r = Inr () then app_routes L env (st\<lparr>st_rate_limiter := Some (MemoryLimiter l')\<rparr>) req
     else (Respond rate_limit_response, record_metrics [Rate_limit_rejections_total_inc
             \<lparr>tr_tier = ''unauthenticated'', tr_reason = ''rate_exceeded''\<rparr>] (st\<lparr>st_rate_limiter := Some (MemoryLimiter l')\<rparr>)))"
  using assms
  by (auto simp: build_router_def gateway_middleware_def cache_middleware_def auth_middleware_def
      rate_limit_middleware_def rate_params_def ip_key_def Let_def split: sum.split)

text \<open>The gateway without a limiter, with the decisions given: an admitted request goes to the routes, any
  other is refused there and then and counted.\<close>

fun gated_run :: "('m, 'h) libs \<Rightarrow> 'm app_state \<Rightarrow> (bool \<times> server_env \<times> request) list \<Rightarrow> outcome list \<times> 'm app_state" where
  "gated_run L st [] = ([], st)"
| "gated_run L st ((admit, env, req) # xs) =
     (let (out, st1) =
            (if admit then app_routes L env st req
             else (Respond rate_limit_response, record_metrics [Rate_limit_rejections_total_inc
                     \<lparr>tr_tier = ''unauthenticated'', tr_reason = ''rate_exceeded''\<rparr>] st));
          (outs, st2) = gated_run L st1 xs
      in (out # outs, st2))"

text \<open>C6. Without authentication the gateway is its routes behind one token bucket per client address: in any
  run of requests, a request reaches the routes exactly when the bucket of its address, at the configured
  fallback rate and burst, admits it at its time; every other request is refused with the gateway's own error
  429, counted as a rejection, and does nothing else. All the answers, and the final state up to the limiter's
  own buckets, are those of the routes serving the admitted requests, so nothing a handler or an upstream does
  affects a decision.\<close>

theorem gateway_admits_like_token_buckets:
  assumes "st_key_store st = None" and "st_rate_limiter st = Some (MemoryLimiter l)"
    and "rl_enabled (cfg_rate_limit (st_config st))" and "\<forall>x \<in> set xs. ext_tier (snd x) = None"
    and "serve (\<lambda>_. (ip_fallback_rps (cfg_rate_limit (st_config st)), ip_fallback_burst (cfg_rate_limit (st_config st))))
           l (map (\<lambda>(env, req). (t_rate env, ''ip:'' @ extract_client_ip L (req_headers req))) xs) = (admits, l')"
    and "gated_run L (st\<lparr>st_rate_limiter := None\<rparr>) (zip admits xs) = (outs, st')"
  shows "server_run L st xs = (outs, st'\<lparr>st_rate_limiter := Some (MemoryLimiter l')\<rparr>)"
  using assms
proof (induction xs arbitrary: st l admits outs)
  case (Cons x xs)
  obtain env req where x: "x = (env, req)" by fastforce
  let ?rps = "ip_fallback_rps (cfg_rate_limit (st_config st))" and ?burst = "ip_fallback_burst (cfg_rate_limit (st_config st))"
  obtain r l1 where ch: "check_rate (fst (ip_key L (env, req))) (snd (ip_key L (env, req))) ?rps ?burst l = (r, l1)" by fastforce
  have tier: "ext_tier req = None" using Cons.prems(4) x by simp
  obtain as where as: "admits = (r = Inr ()) # as"
    "serve (\<lambda>_. (?rps, ?burst)) l1 (map (\<lambda>(env, req). (t_rate env, ''ip:'' @ extract_client_ip L (req_headers req))) xs) = (as, l')"
    using Cons.prems(5) ch by (auto simp: x ip_key_def split: prod.splits)
  obtain out st1 where one: "(if r = Inr () then app_routes L env (with_limiter None st) req
      else (Respond rate_limit_response, record_metrics [Rate_limit_rejections_total_inc
             \<lparr>tr_tier = ''unauthenticated'', tr_reason = ''rate_exceeded''\<rparr>] (with_limiter None st))) = (out, st1)"
    by fastforce
  obtain outs1 where outs: "outs = out # outs1" "gated_run L st1 (zip as xs) = (outs1, st')"
    using Cons.prems(6) by (auto simp: x as(1) one split: prod.splits)
  have frame: "st_rate_limiter st1 = None" "st_config st1 = st_config st" "st_key_store st1 = None"
    using arg_cong [OF one, of snd] Cons.prems(1) app_routes_frame [of L env "with_limiter None st" req]
    by (auto split: if_splits)
  then have "with_limiter None st1 = st1" by simp
  have "build_router L env st req = (out, with_limiter (Some (MemoryLimiter l1)) st1)"
    using router_unauthenticated [OF Cons.prems(1-3) tier ch] one
      app_routes_limiter [of L env "Some (MemoryLimiter l1)" "with_limiter None st" req]
    by (auto simp: metrics_limiter split: if_splits)
  moreover have "server_run L (with_limiter (Some (MemoryLimiter l1)) st1) xs = (outs1, with_limiter (Some (MemoryLimiter l')) st')"
    using Cons.IH [of "with_limiter (Some (MemoryLimiter l1)) st1" l1 as outs1] Cons.prems(3,4) frame(2,3)
      \<open>with_limiter None st1 = st1\<close> as(2) outs(2) by simp
  ultimately show ?case by (simp add: x outs(1))
qed auto

theorem gateway_admits_like_token_buckets_witness:
  "let st = sample_state\<lparr>st_rate_limiter := Some (MemoryLimiter limiter_new)\<rparr>;
       xs = [(sample_server_env TimedOut, sample_request [1])];
       (admits, l') = serve (\<lambda>_. (ip_fallback_rps (cfg_rate_limit (st_config st)), ip_fallback_burst (cfg_rate_limit (st_config st))))
          limiter_new [(0, ''ip:unknown'')];
       (outs, st') = gated_run sample_libs (st\<lparr>st_rate_limiter := None\<rparr>) (zip admits xs)
   in server_run sample_libs st xs = (outs, st'\<lparr>st_rate_limiter := Some (MemoryLimiter l')\<rparr>)"
proof -
  let ?st = "sample_state\<lparr>st_rate_limiter := Some (MemoryLimiter limiter_new)\<rparr>"
  let ?xs = "[(sample_server_env TimedOut, sample_request [1])]"
  have "st_key_store ?st = None" "rl_enabled (cfg_rate_limit (st_config ?st))"
    by (simp_all add: sample_state_def) (simp add: example_defs config_struct_defaults config_defaults)
  moreover have "map (\<lambda>(env, req). (t_rate env, ''ip:'' @ extract_client_ip sample_libs (req_headers req))) ?xs = [(0, ''ip:unknown'')]"
    by (simp add: extract_client_ip_def header_get_def sample_request_def sample_server_env_def)
  ultimately show ?thesis
    using gateway_admits_like_token_buckets [of ?st limiter_new ?xs sample_libs]
    by (auto simp: sample_request_def simp del: serve.simps gated_run.simps server_run.simps split: prod.split)
qed

subsection \<open>Buckets and tiers\<close>

lemma tiers_by_name_SomeD: "tiers_by_name ts n = Some t \<Longrightarrow> t \<in> set ts \<and> kt_name t = n"
  by (auto simp: tiers_by_name_def dest!: map_of_SomeD)

definition known_tier :: "'m app_state \<Rightarrow> request \<Rightarrow> string option" where
  "known_tier st req = Option.bind (ext_tier req) (\<lambda>n. if auth_tiers st n = None then None else Some n)"

text \<open>C28. Two requests draw from the same token bucket exactly when both were authenticated for the same
  configured tier, or neither was and they come from the same client address. All keys of a tier
  share one bucket, and no address can be chosen so as to reach the bucket of a tier.\<close>

theorem rate_buckets_by_tier_or_address:
  assumes "auth_tiers st = tiers_by_name ts"
  shows "fst (rate_params L st req1) = fst (rate_params L st req2) \<longleftrightarrow>
    (case (known_tier st req1, known_tier st req2) of
       (Some a, Some b) \<Rightarrow> a = b
     | (None, None) \<Rightarrow> extract_client_ip L (req_headers req1) = extract_client_ip L (req_headers req2)
     | _ \<Rightarrow> False)"
proof -
  have "fst (rate_params L st req) =
      (case known_tier st req of Some n \<Rightarrow> ''tier:'' @ n | None \<Rightarrow> ''ip:'' @ extract_client_ip L (req_headers req))" for req
    using assms
    by (auto simp: rate_params_def known_tier_def Let_def dest: tiers_by_name_SomeD split: option.split)
  then show ?thesis by (auto split: option.split)
qed

theorem rate_buckets_by_tier_or_address_witness:
  "fst (rate_params sample_libs (sample_state\<lparr>auth_tiers := tiers_by_name []\<rparr>) (sample_request [1]))
     = fst (rate_params sample_libs (sample_state\<lparr>auth_tiers := tiers_by_name []\<rparr>) (sample_request [2]))"
  using rate_buckets_by_tier_or_address [of "sample_state\<lparr>auth_tiers := tiers_by_name []\<rparr>" "[]" sample_libs
      "sample_request [1]" "sample_request [2]"]
  by (simp add: known_tier_def sample_request_def)

subsection \<open>Startup\<close>

lemma select_in_pool_all_unavailable:
  "\<forall>p \<in> set ps. \<forall>a \<in> set (up_upstreams p). \<not> is_available (h a) \<Longrightarrow> name \<in> up_name ` set ps \<Longrightarrow>
   \<exists>ps'. select_in_pool h r name ps = Some (None, ps')"
proof -
  assume a: "\<forall>p \<in> set ps. \<forall>a \<in> set (up_upstreams p). \<not> is_available (h a)" and n: "name \<in> up_name ` set ps"
  obtain u ps' where sel: "select_in_pool h r name ps = Some (u, ps')"
    using n select_in_pool_None_iff [of h r name ps] by (cases "select_in_pool h r name ps") auto
  have "u = None" using select_in_pool_SomeD [OF sel] a by (cases u) auto
  then show ?thesis using sel by blast
qed

lemma select_in_pool_all_available:
  "\<forall>p \<in> set ps. up_upstreams p \<noteq> [] \<and> (\<forall>a \<in> set (up_upstreams p). is_available (h a)) \<Longrightarrow> name \<in> up_name ` set ps \<Longrightarrow>
   \<exists>a ps'. select_in_pool h r name ps = Some (Some a, ps')"
proof (induction ps)
  case (Cons p ps)
  have "fst (select_upstream h r p) \<noteq> None"
    using Cons.prems(1) by (auto simp: select_upstream_None_iff simp del: not_None_eq intro: hd_in_set)
  then show ?case using Cons by (fastforce split: prod.split)
qed simp

lemma new_upstream_markable [simp]:
  "is_available (upd_mutable (\<lambda>m. m\<lparr>health := Healthy\<rparr>) (upstream_new t n url w mc))"
  by (simp add: is_available_def upd_mutable_def upstream_new_def cb_new_def cb_is_available_def)

lemma new_cache_misses:
  assumes "moka (lib_moka L)"
    and "st_cache st = None \<or> st_cache st = Some (memory_cache_new (lib_moka L) mb)"
  shows "fst (proxy_cached L env m p b st) = None"
proof -
  have "fst (cache_get (lib_moka L) now k (memory_cache_new (lib_moka L) mb)) = None" for now k
    using moka.get_answer [OF assms(1)] moka.new_empty [OF assms(1)] moka.content_def [OF assms(1)]
    by (simp add: memory_cache_new_def Let_def)
  then show ?thesis using assms(2) by (auto simp: proxy_cached_def Let_def split_beta)
qed

lemma begin_selects:
  assumes "fst (proxy_cached L env m (route (st_router st) m) body st) = None"
    and "req_body req = Inr body" and "extract_json_rpc_method (from_slice L) body = Some m"
  shows "fst (proxy_begin L env st req) =
    (case select_in_pool (st_heap st) (random_draw env) (route (st_router st) m) (st_pools st) of
       None \<Rightarrow> Answered (json_error_response 500 (- 32000) ''Pool not configured'')
     | Some (None, _) \<Rightarrow> Answered (json_error_response 503 (- 32004) ''No healthy upstreams available'')
     | Some (Some u, _) \<Rightarrow> Forwarding \<lparr>if_method = m, if_pool = route (st_router st) m, if_upstream = u,
                              if_body = body, if_start = t_start env\<rparr>)"
  using assms by (simp add: proxy_begin_def Let_def split_beta split: option.split)

text \<open>A request to the gateway as it was built, but for the health of its upstreams: forwarded when all of
  them are available, refused when none is.\<close>

lemma built_gateway_begin:
  assumes "moka (lib_moka L)" and "config_valid c" and "build_state L open_db clock now c s = Inr (st, pools)"
    and "req_body req = Inr body" and "extract_json_rpc_method (from_slice L) body = Some m"
  shows "\<forall>p \<in> set pools. \<forall>a \<in> set (up_upstreams p). is_available (h a) \<Longrightarrow>
      \<exists>f. fst (proxy_begin L env (st\<lparr>st_heap := h\<rparr>) req) = Forwarding f
        \<and> if_pool f = route (st_router st) m \<and> if_body f = body
        \<and> (\<exists>p \<in> set pools. up_name p = if_pool f \<and> if_upstream f \<in> set (up_upstreams p))"
    and "\<forall>p \<in> set pools. \<forall>a \<in> set (up_upstreams p). \<not> is_available (h a) \<Longrightarrow>
      fst (proxy_begin L env (st\<lparr>st_heap := h\<rparr>) req)
        = Answered (json_error_response 503 (- 32004) ''No healthy upstreams available'')"
proof -
  let ?st = "st\<lparr>st_heap := h\<rparr>" and ?pool = "route (st_router st) m"
  have pools: "st_pools st = pools" using build_state_fields [OF assms(3)] by blast
  have b: "pools_built clock (st_heap st) (cfg_pools c) pools" using build_state_built [OF assms(3)] by (simp add: pools)
  have name: "?pool \<in> up_name ` set pools" using build_state_routable [OF assms(2,3)] by (auto simp: routable_def pools)
  have fields: "st_router ?st = st_router st" "st_heap ?st = h" "st_pools ?st = pools" by (simp_all add: pools)
  have "fst (proxy_cached L env m ?pool body ?st) = None"
    using new_cache_misses [OF assms(1), of ?st "max_memory_mb (cfg_cache c)"] build_state_fields [OF assms(3)] by simp
  then have sel: "fst (proxy_begin L env ?st req) = (case select_in_pool h (random_draw env) ?pool pools of
       None \<Rightarrow> Answered (json_error_response 500 (- 32000) ''Pool not configured'')
     | Some (None, _) \<Rightarrow> Answered (json_error_response 503 (- 32004) ''No healthy upstreams available'')
     | Some (Some u, _) \<Rightarrow> Forwarding \<lparr>if_method = m, if_pool = ?pool, if_upstream = u, if_body = body, if_start = t_start env\<rparr>)"
    using begin_selects [of L env m ?st body req, unfolded fields] assms(4,5) by blast
  show "fst (proxy_begin L env ?st req) = Answered (json_error_response 503 (- 32004) ''No healthy upstreams available'')"
    if "\<forall>p \<in> set pools. \<forall>a \<in> set (up_upstreams p). \<not> is_available (h a)"
    using select_in_pool_all_unavailable [OF that name, of "random_draw env"] sel by auto
  assume avail: "\<forall>p \<in> set pools. \<forall>a \<in> set (up_upstreams p). is_available (h a)"
  have "up_upstreams p \<noteq> []" if "p \<in> set pools" for p
    using pools_built_nonempty [OF b that] assms(2) by (simp add: config_valid_def)
  then obtain a ps' where got: "select_in_pool h (random_draw env) ?pool pools = Some (Some a, ps')"
    using select_in_pool_all_available [OF _ name] avail by blast
  then show "\<exists>f. fst (proxy_begin L env ?st req) = Forwarding f \<and> if_pool f = ?pool \<and> if_body f = body
      \<and> (\<exists>p \<in> set pools. up_name p = if_pool f \<and> if_upstream f \<in> set (up_upstreams p))"
    using sel select_in_pool_SomeD [OF got] by auto
qed

lemma marked_gateway_forwards:
  assumes "moka (lib_moka L)" and "config_valid c"
    and "build_state L open_db clock now c s = Inr (st, pools)" and "h = mark_all_healthy pools (st_heap st)"
    and "req_body req = Inr body" and "extract_json_rpc_method (from_slice L) body = Some m"
  shows "\<exists>f. fst (proxy_begin L env (st\<lparr>st_heap := h\<rparr>) req) = Forwarding f
    \<and> if_pool f = route (st_router st) m \<and> if_body f = body
    \<and> (\<exists>p \<in> set pools. up_name p = if_pool f \<and> if_upstream f \<in> set (up_upstreams p))"
proof (rule built_gateway_begin(1) [OF assms(1-3,5,6)])
  have "pools_built clock (st_heap st) (cfg_pools c) pools"
    using build_state_built [OF assms(3)] build_state_fields [OF assms(3)] by simp
  then show "\<forall>p \<in> set pools. \<forall>a \<in> set (up_upstreams p). is_available (h a)"
    using pools_built_new by (fastforce simp: assms(4) mark_all_healthy_apply)
qed

text \<open>C31. Started with \<open>skip_initial_health_check\<close>, the gateway serves at once: after the first step of
  the health-check task, every well-formed request whose answer is not cached is forwarded to an
  upstream of the pool its method is routed to.\<close>

theorem skip_initial_check_serves_at_once:
  assumes "moka (lib_moka L)" and "validate c = Inr ()"
    and "build_state L open_db clock now c s = Inr (st, pools)"
    and "run_health_checks interval_panics chk pools (cfg_health_check c) True probes [] (st_heap st) = (ended, h)"
    and "req_body req = Inr body" and "extract_json_rpc_method (from_slice L) body = Some m"
  shows "\<exists>f. fst (proxy_begin L env (st\<lparr>st_heap := h\<rparr>) req) = Forwarding f
    \<and> if_pool f = route (st_router st) m \<and> if_body f = body
    \<and> (\<exists>p \<in> set pools. up_name p = if_pool f \<and> if_upstream f \<in> set (up_upstreams p))"
proof -
  have v: "config_valid c" using assms(2) validate_ok by blast
  have h: "h = mark_all_healthy pools (st_heap st)"
    using assms(4) by (auto simp: run_health_checks_def Let_def split: if_splits)
  show ?thesis by (rule marked_gateway_forwards [OF assms(1) v assms(3) h assms(5,6)])
qed

theorem skip_initial_check_serves_at_once_witness:
  "\<exists>st pools f. build_state sample_libs (\<lambda>_. Inr (None, None)) (\<lambda>_. 0) 0 example_config (two_upstreams, 0) = Inr (st, pools)
    \<and> fst (proxy_begin sample_libs (sample_env TimedOut)
        (st\<lparr>st_heap := snd (run_health_checks (\<lambda>d. d = 0) (apply_probe (cfg_health_check example_config)) pools
              (cfg_health_check example_config) True (\<lambda>_. good_probe) [] (st_heap st))\<rparr>) (sample_request [1])) = Forwarding f"
proof -
  obtain st pools where b: "build_state sample_libs (\<lambda>_. Inr (None, None)) (\<lambda>_. 0) 0 example_config (two_upstreams, 0) = Inr (st, pools)"
    using example_build by blast
  have v: "validate example_config = Inr ()" by (simp add: validate_ok example_config_valid)
  have m: "extract_json_rpc_method (from_slice sample_libs) [1] = Some ''getHealth''"
    by (simp add: extract_json_rpc_method_def)
  have k: "moka (lib_moka sample_libs)" using fifo.moka_axioms by simp
  have "\<exists>f. fst (proxy_begin sample_libs (sample_env TimedOut)
        (st\<lparr>st_heap := snd (run_health_checks (\<lambda>d. d = 0) (apply_probe (cfg_health_check example_config)) pools
              (cfg_health_check example_config) True (\<lambda>_. good_probe) [] (st_heap st))\<rparr>) (sample_request [1])) = Forwarding f"
    using skip_initial_check_serves_at_once [OF k v b surjective_pairing _ m, of "sample_request [1]"
        "sample_env TimedOut" "\<lambda>d. d = 0" "apply_probe (cfg_health_check example_config)" "\<lambda>_. good_probe"]
    by auto
  then show ?thesis using b by blast
qed

lemma build_state_distinct:
  assumes "build_state L open_db clock now c s = Inr (st, pools)"
  shows "distinct (concat (map up_upstreams pools))"
proof -
  obtain h0 n0 n where "create_pools clock c (h0, n0) = (pools, st_heap st, n)"
    using build_state_fields [OF assms] by (metis prod.collapse)
  then show ?thesis using create_pool_list_frame unfolding create_pools_def by (metis distinct_upt)
qed



end
