(* ===== verification/Admin_Api.thy ===== *)
theory Admin_Api
  imports Gate_Server
begin

text \<open>
  \<open>src/server/admin.rs\<close>: the administration API. Each handler returns a response and the state it
  leaves. The path matcher of the router (\<open>matchit\<close>, through \<open>axum\<close>) is the parameter
  \<open>path_match\<close>, which gives the captures of a pattern, and \<open>json_payload\<close> is the \<open>Json\<close> extractor:
  a rejection or the parsed body. \<open>admin_env\<close> holds what the environment decides during a request.
\<close>

record admin_env =
  t_admin :: instant
  adm_fault :: "string option" \<comment> \<open>a database error\<close>
  adm_salt :: bytes
  adm_clock :: "duration option" \<comment> \<open>the time since the epoch\<close>

subsection \<open>Handlers\<close>

fun breaker_label :: "circuit_breaker_state \<Rightarrow> string" where
  "breaker_label Closed = ''closed''"
| "breaker_label Open = ''open''"
| "breaker_label HalfOpen = ''half-open''"

definition health_label :: "health_status \<Rightarrow> string" where
  "health_label s = (if s = Healthy then ''healthy'' else ''unhealthy'')"

definition status_upstream_json :: "upstream_state \<Rightarrow> json" where
  "status_upstream_json u =
     JObject [(''url'', JString (us_url u)), (''state'', JString (health_label (health (us_mutable u)))),
       (''circuit_breaker'', JString (breaker_label (cb_state (breaker (us_mutable u))))),
       (''active_connections'', JInt (active_connections u)), (''weight'', JInt (uint (us_weight u))),
       (''latency_p99_ms'', JInt (uint (latency_us u div 1000)))]"

definition status_pool_json :: "heap \<Rightarrow> upstream_pool \<Rightarrow> json" where
  "status_pool_json h pool =
     JObject [(''name'', JString (up_name pool)),
       (''algorithm'', JString (map ascii_lower (algorithm_debug (up_algorithm pool)))),
       (''total_upstreams'', JInt (int (length (up_upstreams pool)))),
       (''healthy_upstreams'', JInt (int (length (healthy_upstreams h pool)))),
       (''upstreams'', JArray (map (\<lambda>a. status_upstream_json (h a)) (up_upstreams pool)))]"

definition status_handler :: "instant \<Rightarrow> 'm app_state \<Rightarrow> response \<times> 'm app_state" where
  "status_handler now st =
     (json_response 200
        (JObject [(''version'', JString cargo_pkg_version),
           (''uptime_secs'', JInt (int ((now - start_time st) div nanos_per_sec))),
           (''pools'', JArray (map (status_pool_json (st_heap st)) (st_pools st)))]), st)"

definition reload_handler :: "'m app_state \<Rightarrow> response \<times> 'm app_state" where
  "reload_handler st = (json_response 501 (JObject [(''error'', JString ''Hot reload not yet implemented'')]), st)"

definition cache_flush_handler :: "('m, 'h) libs \<Rightarrow> 'm app_state \<Rightarrow> response \<times> 'm app_state" where
  "cache_flush_handler L st =
     (case st_cache st of
        Some cache \<Rightarrow>
          (json_response 200 (JObject [(''status'', JString ''ok''), (''message'', JString ''Cache flushed'')]),
           st\<lparr>st_cache := Some (cache_flush (lib_moka L) cache)\<rparr>)
      | None \<Rightarrow>
          (json_response 200 (JObject [(''status'', JString ''ok''), (''message'', JString ''Cache is disabled'')]), st))"

text \<open>\<open>f64::round\<close> rounds half away from zero; here its argument is never negative.\<close>

definition round_away :: "rat \<Rightarrow> rat" where
  "round_away x = of_int \<lfloor>x + 1 / 2\<rfloor>"

definition hit_rate :: "cache_stats \<Rightarrow> rat" where
  "hit_rate s =
     (if 0 < cs_hit_count s + cs_miss_count s
      then f64_div (f64_of_nat (unat (cs_hit_count s))) (f64_of_nat (unat (cs_hit_count s + cs_miss_count s)))
      else 0)"

definition reported_hit_rate :: "cache_stats \<Rightarrow> rat" where
  "reported_hit_rate s = f64_div (round_away (f64_mul (hit_rate s) 10000)) 10000"

definition cache_stats_handler :: "('m, 'h) libs \<Rightarrow> 'm app_state \<Rightarrow> response \<times> 'm app_state" where
  "cache_stats_handler L st =
     (case st_cache st of
        Some cache \<Rightarrow>
          let stats = get_cache_stats (lib_moka L) cache
          in (json_response 200
                (JObject [(''hit_count'', JInt (uint (cs_hit_count stats))),
                   (''miss_count'', JInt (uint (cs_miss_count stats))),
                   (''hit_rate'', JFloat (reported_hit_rate stats)),
                   (''size'', JInt (uint (cs_size stats))),
                   (''eviction_count'', JInt (uint (cs_eviction_count stats)))]), st)
      | None \<Rightarrow> (json_response 200 (JObject [(''enabled'', JBool False)]), st))"

definition percent_decode :: "('m, 'h) libs \<Rightarrow> string \<Rightarrow> string" where
  "percent_decode L s = (case percent_decode_utf8 L s of Some d \<Rightarrow> d | None \<Rightarrow> s)"

text \<open>The two nested loops stop at the first upstream with the URL.\<close>

definition find_upstream :: "heap \<Rightarrow> string \<Rightarrow> upstream_pool list \<Rightarrow> arc option" where
  "find_upstream h url pools = find (\<lambda>a. us_url (h a) = url) (concat (map up_upstreams pools))"

definition set_upstream_health ::
  "('m, 'h) libs \<Rightarrow> instant \<Rightarrow> 'm app_state \<Rightarrow> string \<Rightarrow> bool \<Rightarrow> response \<times> 'm app_state" where
  "set_upstream_health L now st encoded_url enable =
     (let target_url = percent_decode L encoded_url
      in case find_upstream (st_heap st) target_url (st_pools st) of
           Some a \<Rightarrow>
             (json_response 200
                (JObject [(''status'', JString ''ok''), (''upstream'', JString target_url),
                   (''action'', JString (if enable then ''enabled'' else ''disabled''))]),
              upd_upstream a (upd_mutable (\<lambda>m.
                if enable then m\<lparr>health := Healthy, breaker := cb_new now 5 (from_secs 30)\<rparr>
                else m\<lparr>health := Unhealthy\<rparr>)) st)
         | None \<Rightarrow>
             (json_response 404 (JObject [(''error'', JString (''Upstream '' @ quoted target_url @ '' not found''))]), st))"

definition upstream_enable_handler :: "('m, 'h) libs \<Rightarrow> instant \<Rightarrow> 'm app_state \<Rightarrow> string \<Rightarrow> response \<times> 'm app_state" where
  "upstream_enable_handler L now st encoded_url = set_upstream_health L now st encoded_url True"

definition upstream_disable_handler :: "('m, 'h) libs \<Rightarrow> instant \<Rightarrow> 'm app_state \<Rightarrow> string \<Rightarrow> response \<times> 'm app_state" where
  "upstream_disable_handler L now st encoded_url = set_upstream_health L now st encoded_url False"

definition safe_key_json :: "key_entry \<Rightarrow> json" where
  "safe_key_json k =
     JObject [(''id'', JString (ke_id k)), (''tier'', JString (ke_tier k)), (''label'', JString (ke_label k)),
       (''is_revoked'', JBool (is_revoked k)), (''created_at'', JInt (sint (created_at k)))]"

definition error_json :: "string \<Rightarrow> json" where
  "error_json msg = JObject [(''error'', JString msg)]"

definition keys_list_handler :: "('m, 'h) libs \<Rightarrow> admin_env \<Rightarrow> 'm app_state \<Rightarrow> response \<times> 'm app_state" where
  "keys_list_handler L env st =
     (case st_key_store st of
        Some store \<Rightarrow>
          (case dispatch_list_keys (order_by_created L) (adm_fault env) store of
             Inr keys \<Rightarrow>
               (json_response 200 (JObject [(''keys'', JArray (map safe_key_json keys)),
                  (''total'', JInt (int (length keys)))]), st)
           | Inl e \<Rightarrow> (json_response 500 (error_json ''Failed to list API keys''), st))
      | None \<Rightarrow> (json_response 501 (error_json ''Key store is disabled''), st))"

text \<open>\<open>None\<close> stands for the panic of the clock reading in \<open>create_key\<close>.\<close>

definition keys_create_handler ::
  "('m, 'h) libs \<Rightarrow> admin_env \<Rightarrow> 'm app_state \<Rightarrow> json \<Rightarrow> response option \<times> 'm app_state" where
  "keys_create_handler L env st payload =
     (case json_get_str ''key'' payload of
        None \<Rightarrow> (Some (json_response 400 (error_json (''Field '' @ quoted ''key'' @ '' is required''))), st)
      | Some raw_key \<Rightarrow>
        if raw_key = [] then (Some (json_response 400 (error_json (''Field '' @ quoted ''key'' @ '' is required''))), st)
        else
          let tier = (case json_get_str ''tier'' payload of Some t \<Rightarrow> t | None \<Rightarrow> ''default'');
              label = (case json_get_str ''label'' payload of Some l \<Rightarrow> l | None \<Rightarrow> [])
          in (case st_key_store st of
                Some store \<Rightarrow>
                  let (r, store') = dispatch_create_key (lib_crypto L) (adm_fault env) (adm_salt env) (adm_clock env)
                                      raw_key tier label store;
                      st1 = st\<lparr>st_key_store := Some store'\<rparr>
                  in (case r of
                        None \<Rightarrow> (None, st1)
                      | Some (Inr entry) \<Rightarrow>
                          (Some (json_response 201 (JObject [(''status'', JString ''ok''),
                             (''key'', JObject [(''id'', JString (ke_id entry)), (''tier'', JString (ke_tier entry)),
                                (''label'', JString (ke_label entry)), (''created_at'', JInt (sint (created_at entry)))])])),
                           st1)
                      | Some (Inl e) \<Rightarrow> (Some (json_response 500 (error_json ''Failed to create API key'')), st1))
              | None \<Rightarrow> (Some (json_response 501 (error_json ''Key store is disabled'')), st)))"

definition keys_delete_handler :: "admin_env \<Rightarrow> 'm app_state \<Rightarrow> string \<Rightarrow> response \<times> 'm app_state" where
  "keys_delete_handler env st key_id =
     (case st_key_store st of
        Some store \<Rightarrow>
          let (r, store') = dispatch_revoke_key (adm_fault env) key_id store; st1 = st\<lparr>st_key_store := Some store'\<rparr>
          in (case r of
                Inr True \<Rightarrow>
                  (json_response 200 (JObject [(''status'', JString ''ok''), (''message'', JString ''Key revoked'')]), st1)
              | Inr False \<Rightarrow> (json_response 404 (error_json (''Key '' @ quoted key_id @ '' not found'')), st1)
              | Inl e \<Rightarrow> (json_response 500 (error_json ''Failed to revoke API key''), st1))
      | None \<Rightarrow> (json_response 501 (error_json ''Key store is disabled''), st))"

subsection \<open>The router\<close>

datatype admin_route =
  Status | Reload | Cache_flush | Cache_stats | Upstream_enable | Upstream_disable | Keys_list | Keys_create | Keys_delete

definition admin_router :: "(string \<times> string \<times> admin_route) list" where
  "admin_router =
     [(''/admin/status'', ''GET'', Status), (''/admin/reload'', ''POST'', Reload),
      (''/admin/cache'', ''DELETE'', Cache_flush), (''/admin/cache/stats'', ''GET'', Cache_stats),
      (''/admin/upstreams/{url}/enable'', ''POST'', Upstream_enable),
      (''/admin/upstreams/{url}/disable'', ''POST'', Upstream_disable),
      (''/admin/keys'', ''GET'', Keys_list), (''/admin/keys'', ''POST'', Keys_create),
      (''/admin/keys/{id}'', ''DELETE'', Keys_delete)]"

text \<open>\<open>Path<String>\<close> needs exactly one capture and answers with status 500 otherwise; the text of that answer is
  left out.\<close>

definition with_capture :: "string list \<Rightarrow> (string \<Rightarrow> response \<times> 'm app_state) \<Rightarrow> 'm app_state \<Rightarrow> response \<times> 'm app_state" where
  "with_capture caps f st =
     (case caps of [x] \<Rightarrow> f x | _ \<Rightarrow> (\<lparr>resp_status = 500, resp_headers = [], resp_body = EmptyBody\<rparr>, st))"

definition some_answer :: "response \<times> 'm app_state \<Rightarrow> outcome \<times> 'm app_state" where
  "some_answer x = (Respond (fst x), snd x)"

fun admin_handle ::
  "('m, 'h) libs \<Rightarrow> (request \<Rightarrow> response + json) \<Rightarrow> admin_env \<Rightarrow> admin_route \<Rightarrow> string list \<Rightarrow> 'm app_state \<Rightarrow> request
     \<Rightarrow> outcome \<times> 'm app_state" where
  "admin_handle L json_payload env Status caps st req = some_answer (status_handler (t_admin env) st)"
| "admin_handle L json_payload env Reload caps st req = some_answer (reload_handler st)"
| "admin_handle L json_payload env Cache_flush caps st req = some_answer (cache_flush_handler L st)"
| "admin_handle L json_payload env Cache_stats caps st req = some_answer (cache_stats_handler L st)"
| "admin_handle L json_payload env Upstream_enable caps st req =
     some_answer (with_capture caps (upstream_enable_handler L (t_admin env) st) st)"
| "admin_handle L json_payload env Upstream_disable caps st req =
     some_answer (with_capture caps (upstream_disable_handler L (t_admin env) st) st)"
| "admin_handle L json_payload env Keys_list caps st req = some_answer (keys_list_handler L env st)"
| "admin_handle L json_payload env Keys_create caps st req =
     (case json_payload req of
        Inl rejection \<Rightarrow> (Respond rejection, st)
      | Inr payload \<Rightarrow>
          (case keys_create_handler L env st payload of
             (Some r, st1) \<Rightarrow> (Respond r, st1) | (None, st1) \<Rightarrow> (Panicked, st1)))"
| "admin_handle L json_payload env Keys_delete caps st req =
     some_answer (with_capture caps (keys_delete_handler env st) st)"

text \<open>A \<open>GET\<close> route of \<open>axum\<close> also answers \<open>HEAD\<close>, without the body.\<close>

definition strip_head :: "request \<Rightarrow> outcome \<times> 'm app_state \<Rightarrow> outcome \<times> 'm app_state" where
  "strip_head req x =
     (if req_method req = ''HEAD''
      then (case fst x of Respond r \<Rightarrow> Respond (r\<lparr>resp_body := EmptyBody\<rparr>) | Panicked \<Rightarrow> Panicked, snd x)
      else x)"

fun allow_header :: "string list \<Rightarrow> string" where
  "allow_header [] = []"
| "allow_header (m # ms) =
     (if m = ''GET'' then ''GET,HEAD'' else m) @ (if ms = [] then [] else '','' @ allow_header ms)"

definition admin_app ::
  "('m, 'h) libs \<Rightarrow> (string \<Rightarrow> string \<Rightarrow> string list option) \<Rightarrow> (request \<Rightarrow> response + json) \<Rightarrow> admin_env \<Rightarrow> 'm service" where
  "admin_app L path_match json_payload env st req =
     (case filter (\<lambda>(pat, _). path_match pat (req_path req) \<noteq> None) admin_router of
        [] \<Rightarrow> (Respond \<lparr>resp_status = 404, resp_headers = [], resp_body = EmptyBody\<rparr>, st)
      | rs \<Rightarrow>
          (case find (\<lambda>(pat, meth, handler).
                   meth = req_method req \<or> (meth = ''GET'' \<and> req_method req = ''HEAD'')) rs of
             None \<Rightarrow> (Respond \<lparr>resp_status = 405, resp_headers = [(''allow'', as_bytes (allow_header (map (fst \<circ> snd) rs)))],
                       resp_body = EmptyBody\<rparr>, st)
           | Some (pat, meth, handler) \<Rightarrow>
               strip_head req (admin_handle L json_payload env handler
                 (case path_match pat (req_path req) of Some cs \<Rightarrow> cs | None \<Rightarrow> []) st req)))"

lemmas admin_defs = some_answer_def with_capture_def status_handler_def reload_handler_def cache_flush_handler_def
  cache_stats_handler_def upstream_enable_handler_def upstream_disable_handler_def keys_list_handler_def
  keys_create_handler_def keys_delete_handler_def

subsection \<open>Upstreams\<close>

lemma find_upstream_SomeD:
  "find_upstream h url pools = Some a \<Longrightarrow> us_url (h a) = url \<and> (\<exists>p \<in> set pools. a \<in> set (up_upstreams p))"
  using find_SomeD [of "\<lambda>a. us_url (h a) = url" "concat (map up_upstreams pools)" a] by (auto simp: find_upstream_def)

lemma find_upstream_None_iff:
  "find_upstream h url pools = None \<longleftrightarrow> (\<forall>p \<in> set pools. \<forall>a \<in> set (up_upstreams p). us_url (h a) \<noteq> url)"
  by (auto simp: find_upstream_def find_None_iff)

text \<open>Forcing an upstream on or off takes effect on the first upstream with the decoded URL, at once
  and on no other: enabled, it can be selected, with a fresh breaker; disabled, it cannot. An unknown
  URL is answered with status 404 and changes nothing.\<close>

lemma set_upstream_health_effect:
  "(case find_upstream (st_heap st) (percent_decode L url) (st_pools st) of
      None \<Rightarrow> resp_status (fst (set_upstream_health L now st url enable)) = 404
            \<and> snd (set_upstream_health L now st url enable) = st
    | Some a \<Rightarrow>
        resp_status (fst (set_upstream_health L now st url enable)) = 200
      \<and> us_url (st_heap st a) = percent_decode L url \<and> (\<exists>p \<in> set (st_pools st). a \<in> set (up_upstreams p))
      \<and> is_available (st_heap (snd (set_upstream_health L now st url enable)) a) = enable
      \<and> (enable \<longrightarrow> failure_count (breaker (us_mutable (st_heap (snd (set_upstream_health L now st url enable)) a))) = 0)
      \<and> (\<forall>b. b \<noteq> a \<longrightarrow> st_heap (snd (set_upstream_health L now st url enable)) b = st_heap st b))"
proof (cases "find_upstream (st_heap st) (percent_decode L url) (st_pools st)")
  case None
  then show ?thesis by (simp add: set_upstream_health_def Let_def)
next
  case (Some a)
  then show ?thesis
    using find_upstream_SomeD [OF Some]
    by (simp add: set_upstream_health_def Let_def is_available_def upd_mutable_def cb_new_def cb_is_available_def)
qed

text \<open>C37. Disabling an upstream by hand lasts only until its next successful probe when the upstream had
  been healthy for long enough: the disabling leaves the count of consecutive successes in place, so
  that one success reaches the threshold again.\<close>

theorem disabled_upstream_revived_by_one_probe:
  assumes "find_upstream (st_heap st) (percent_decode L url) (st_pools st) = Some a"
    and "unat (healthy_threshold hc) \<le> unat (consecutive_successes (us_mutable (st_heap st a)))"
    and "unat (consecutive_successes (us_mutable (st_heap st a))) < 2 ^ 32 - 1" and "probe_ok pr"
  shows "health (us_mutable (st_heap (snd (set_upstream_health L now st url False)) a)) = Unhealthy
    \<and> health (us_mutable (apply_probe hc pr (st_heap (snd (set_upstream_health L now st url False)) a))) = Healthy"
proof -
  let ?n = "consecutive_successes (us_mutable (st_heap st a))"
  have "unat (?n + 1) = Suc (unat ?n)" using assms(3) by (intro unat_Suc_word) simp
  then have "healthy_threshold hc \<le> ?n + 1" using assms(2) by (simp add: word_le_nat_alt)
  then show ?thesis
    using assms(1,4) by (simp add: set_upstream_health_def Let_def upd_mutable_def apply_probe_def)
qed

theorem disabled_upstream_revived_by_one_probe_witness:
  "let st = sample_state\<lparr>st_heap := (\<lambda>a. upd_mutable (\<lambda>m. m\<lparr>consecutive_successes := 2\<rparr>) (st_heap sample_state a))\<rparr>
   in health (us_mutable (apply_probe health_check_config_default good_probe
        (st_heap (snd (set_upstream_health sample_libs 0 st ''u'' False)) 0))) = Healthy"
proof -
  let ?st = "sample_state\<lparr>st_heap := (\<lambda>a. upd_mutable (\<lambda>m. m\<lparr>consecutive_successes := 2\<rparr>) (st_heap sample_state a))\<rparr>"
  have "find_upstream (st_heap ?st) (percent_decode sample_libs ''u'') (st_pools ?st) = Some 0"
    by (simp add: find_upstream_def percent_decode_def) (simp add: sample_defs upd_mutable_def upstream_new_def)
  from disabled_upstream_revived_by_one_probe [OF this, of health_check_config_default good_probe] show ?thesis
    by (simp add: upd_mutable_def health_check_config_default_def default_healthy_threshold_def)
qed

subsection \<open>Cache\<close>

text \<open>After a flush through the API every cached answer is gone, whatever the store's policy, and
  the statistics start again from zero.\<close>

lemma flush_empties_cache:
  assumes "moka (lib_moka L)" and "st_cache st = Some c"
  shows "\<exists>c'. st_cache (snd (cache_flush_handler L st)) = Some c'
    \<and> (\<forall>now key. fst (cache_get (lib_moka L) now key c') = None)
    \<and> hit_count c' = 0 \<and> miss_count c' = 0"
proof -
  have "fst (cache_get (lib_moka L) now key (cache_flush (lib_moka L) c)) = None" for now key
    using moka.get_answer [OF assms(1)] moka.content_def [OF assms(1)] moka.invalidate_all_empty [OF assms(1)]
    by (simp add: cache_flush_def)
  then show ?thesis using assms(2) by (simp add: cache_flush_handler_def) (simp add: cache_flush_def)
qed

lemma f64_of_nat_mono: "m \<le> n \<Longrightarrow> f64_of_nat m \<le> f64_of_nat n"
  by (simp add: f64_of_nat_def f64.rnd_mono)

lemma f64_of_nat_nonneg: "0 \<le> f64_of_nat n"
  by (simp add: f64_of_nat_def f64.rnd_nonneg)

lemma f64_of_nat_pos: "0 < n \<Longrightarrow> 1 \<le> f64_of_nat n"
  using f64_of_nat_mono [of 1 n] f64.rnd_nat [of 1] by (simp add: f64_of_nat_def)

text \<open>The reported hit rate is a fraction between 0 and 1 of whole ten-thousandths, rounded to
  \<open>f64\<close>, as long as the sum of the two counters does not wrap around.\<close>

lemma reported_hit_rate_in_unit_interval:
  assumes "unat (cs_hit_count s) + unat (cs_miss_count s) < 2 ^ 64"
  shows "\<exists>n \<le> 10000. reported_hit_rate s = f64_round (of_nat n / 10000)
    \<and> 0 \<le> reported_hit_rate s \<and> reported_hit_rate s \<le> 1"
proof -
  let ?h = "unat (cs_hit_count s)" and ?n = "unat (cs_hit_count s + cs_miss_count s)"
  have n: "?n = ?h + unat (cs_miss_count s)" using assms by (simp add: unat_word_ariths)
  have "0 \<le> f64_of_nat ?h" by (rule f64_of_nat_nonneg)
  moreover have "f64_of_nat ?h \<le> f64_of_nat ?n" using n by (simp add: f64_of_nat_mono)
  ultimately have frac: "0 \<le> f64_of_nat ?h / f64_of_nat ?n \<and> f64_of_nat ?h / f64_of_nat ?n \<le> 1"
    if "0 < ?n" using f64_of_nat_pos [OF that] by (simp add: divide_simps)
  have one: "f64_round 1 = 1" "f64_round 10000 = 10000"
    using f64.rnd_nat [of 1] f64.rnd_nat [of 10000] by simp_all
  have rate: "0 \<le> hit_rate s" "hit_rate s \<le> 1"
    using frac f64.rnd_nonneg f64.rnd_mono [of _ 1] one(1)
    by (auto simp: hit_rate_def f64_div_def word_less_nat_alt)
  define x where "x = f64_mul (hit_rate s) 10000"
  have x: "0 \<le> x" "x \<le> 10000"
    using rate f64.rnd_nonneg f64.rnd_mono [of "hit_rate s * 10000" 10000] one(2) by (simp_all add: x_def f64_mul_def)
  define n where "n = nat \<lfloor>x + 1 / 2\<rfloor>"
  have "0 \<le> \<lfloor>x + 1 / 2\<rfloor>" "\<lfloor>x + 1 / 2\<rfloor> \<le> 10000" using x by (simp_all add: floor_le_iff)
  then have nn: "round_away x = of_nat n" "n \<le> 10000"
    unfolding round_away_def n_def by (simp_all only: nat_le_iff of_nat_nat of_nat_numeral)
  then have eq: "reported_hit_rate s = f64_round (of_nat n / 10000)"
    by (simp add: reported_hit_rate_def x_def f64_div_def)
  have "(0 :: rat) \<le> of_nat n / 10000" "(of_nat n / 10000 :: rat) \<le> 1"
    using nn(2) by simp_all
  then have "0 \<le> reported_hit_rate s" "reported_hit_rate s \<le> 1"
    using eq f64.rnd_nonneg f64.rnd_mono [of "of_nat n / 10000" 1] one(1) by simp_all
  then show ?thesis using eq nn(2) by blast
qed

subsection \<open>Keys\<close>

text \<open>The listing of the keys does not reveal their hashes: two stores whose listed rows differ only
  in the hashes get the same answer.\<close>

lemma key_listing_hides_hashes:
  assumes "map (\<lambda>e. e\<lparr>key_hash := []\<rparr>) (order_by_created L t1) = map (\<lambda>e. e\<lparr>key_hash := []\<rparr>) (order_by_created L t2)"
  shows "fst (keys_list_handler L env (st\<lparr>st_key_store := Some (SqliteStore t1)\<rparr>))
    = fst (keys_list_handler L env (st\<lparr>st_key_store := Some (SqliteStore t2)\<rparr>))"
proof -
  have erase: "map safe_key_json es = map safe_key_json (map (\<lambda>e. e\<lparr>key_hash := []\<rparr>) es)" for es
    by (simp add: safe_key_json_def)
  have "map safe_key_json (order_by_created L t1) = map safe_key_json (order_by_created L t2)"
    by (subst (1 2) erase) (simp only: assms)
  moreover have "length (order_by_created L t1) = length (order_by_created L t2)"
    using arg_cong [OF assms, of length] by simp
  ultimately show ?thesis by (simp add: keys_list_handler_def sqlite_list_keys_def split: option.split)
qed

text \<open>The operations of the API on the key table, as operations of the store.\<close>

lemma keys_delete_store:
  "st_key_store st = Some (SqliteStore t) \<Longrightarrow>
   st_key_store (snd (keys_delete_handler env st i)) = Some (SqliteStore (snd (sqlite_revoke_key (adm_fault env) i t)))"
  by (simp add: keys_delete_handler_def Let_def split_beta split: sum.split bool.split)

lemma keys_create_store:
  "st_key_store st = Some (SqliteStore t) \<Longrightarrow> json_get_str ''key'' payload = Some k \<Longrightarrow> k \<noteq> [] \<Longrightarrow>
   st_key_store (snd (keys_create_handler L env st payload)) =
     Some (SqliteStore (snd (sqlite_create_key (lib_crypto L) (adm_fault env) (adm_salt env) (adm_clock env) k
       (case json_get_str ''tier'' payload of Some t \<Rightarrow> t | None \<Rightarrow> ''default'')
       (case json_get_str ''label'' payload of Some l \<Rightarrow> l | None \<Rightarrow> []) t)))"
  by (simp add: keys_create_handler_def Let_def split_beta split: option.split sum.split)

end
