(* ===== verification/Gate_System.thy ===== *)
theory Gate_System
  imports Admin_Api
begin

text \<open>
  The running gateway: requests in flight, health probes and administration interleaved. A step is one
  section of code between two await points: the part of the proxy before the upstream is contacted,
  the part after, one probe's critical section, one administration call, the work of the middlewares,
  or the cancellation of a request whose client has gone, which drops the handler's future at its
  await point and with it the call of \<open>decrement_connection_count\<close>.

  An event records what the step saw: the environment, the request and the answer of a request that
  is answered at once, and the environment and the result of an exchange. The result of an exchange is
  arbitrary here: the network and the upstreams may do anything.

  \<open>sy_flights\<close> holds the requests that wait for their upstream; \<open>sy_leaked\<close> counts, for the proofs,
  the cancelled ones.
\<close>

datatype sys_event =
    EvBegin
  | EvAnswer proxy_env request response
  | is_EvFinish: EvFinish proxy_env in_flight "string + (status \<times> bytes \<times> header_map)"
  | EvCancel
  | EvProbe bool
  | EvSkipInitial
  | EvAdmin admin_route
  | EvMiddleware

record 'm sys =
  sy_state :: "'m app_state"
  sy_flights :: "in_flight multiset"
  sy_leaked :: "arc \<Rightarrow> nat"

inductive sys_step :: "('m, 'h) libs \<Rightarrow> 'm sys \<Rightarrow> sys_event \<Rightarrow> 'm sys \<Rightarrow> bool" for L where
  begin_forward:
    "proxy_begin L env (sy_state s) req = (Forwarding f, st1) \<Longrightarrow>
     sys_step L s EvBegin (s\<lparr>sy_state := st1, sy_flights := add_mset f (sy_flights s)\<rparr>)"
| begin_answer:
    "proxy_begin L env (sy_state s) req = (Answered r, st1) \<Longrightarrow> sys_step L s (EvAnswer env req r) (s\<lparr>sy_state := st1\<rparr>)"
| finish:
    "f \<in># sy_flights s \<Longrightarrow> proxy_finish L env f result (sy_state s) = (out, st1) \<Longrightarrow>
     sys_step L s (EvFinish env f result) (s\<lparr>sy_state := st1, sy_flights := sy_flights s - {#f#}\<rparr>)"
| cancel:
    "f \<in># sy_flights s \<Longrightarrow>
     sys_step L s EvCancel (s\<lparr>sy_flights := sy_flights s - {#f#},
       sy_leaked := (sy_leaked s)(if_upstream f := Suc (sy_leaked s (if_upstream f)))\<rparr>)"
| probe:
    "sys_step L s (EvProbe (probe_ok pr))
       (s\<lparr>sy_state := upd_upstream a (apply_probe (cfg_health_check (st_config (sy_state s))) pr) (sy_state s)\<rparr>)"
| skip_initial:
    "sys_step L s EvSkipInitial
       (s\<lparr>sy_state := (sy_state s)\<lparr>st_heap := mark_all_healthy (st_pools (sy_state s)) (st_heap (sy_state s))\<rparr>\<rparr>)"
| admin:
    "admin_handle L json_payload env r caps (sy_state s) req = (out, st1) \<Longrightarrow>
     sys_step L s (EvAdmin r) (s\<lparr>sy_state := st1\<rparr>)"
| middlewares:
    "charged L (sy_state s) st1 \<Longrightarrow> sys_step L s EvMiddleware (s\<lparr>sy_state := st1\<rparr>)"

inductive sys_run :: "('m, 'h) libs \<Rightarrow> 'm sys \<Rightarrow> sys_event list \<Rightarrow> 'm sys \<Rightarrow> bool" for L where
  run_nil: "sys_run L s [] s"
| run_snoc: "sys_run L s es s1 \<Longrightarrow> sys_step L s1 e s2 \<Longrightarrow> sys_run L s (es @ [e]) s2"

inductive_cases sys_step_elim: "sys_step L s e s'"
inductive_cases sys_run_nilE: "sys_run L s [] s'"

definition sys_init :: "'m app_state \<Rightarrow> 'm sys" where
  "sys_init st = \<lparr>sy_state = st, sy_flights = {#}, sy_leaked = (\<lambda>_. 0)\<rparr>"

definition in_flight_to :: "arc \<Rightarrow> 'm sys \<Rightarrow> nat" where
  "in_flight_to a s = size (filter_mset (\<lambda>f. if_upstream f = a) (sy_flights s))"

definition upstream_of :: "'m sys \<Rightarrow> arc \<Rightarrow> upstream_state" where
  "upstream_of s a = st_heap (sy_state s) a"

subsection \<open>What a step does to an upstream\<close>

lemma admin_heap:
  assumes "admin_handle L jp env r caps st req = (out, st1)"
  shows "st_heap st1 = st_heap st
    \<or> (\<exists>url. r = Upstream_enable \<and> st1 = snd (set_upstream_health L (t_admin env) st url True))
    \<or> (\<exists>url. r = Upstream_disable \<and> st1 = snd (set_upstream_health L (t_admin env) st url False))"
  using assms
  by (cases r)
    (auto simp: admin_defs Let_def
      split: option.splits sum.splits prod.splits list.splits bool.splits if_splits)

lemma set_health_upstream:
  "st_heap (snd (set_upstream_health L now st url en)) a = st_heap st a
   \<or> st_heap (snd (set_upstream_health L now st url en)) a = upd_mutable (\<lambda>m.
        if en then m\<lparr>health := Healthy, breaker := cb_new now 5 (from_secs 30)\<rparr> else m\<lparr>health := Unhealthy\<rparr>) (st_heap st a)"
  by (auto simp: set_upstream_health_def Let_def upd_arc_def split: option.splits)

text \<open>The change of one upstream in one step, by kind of event.\<close>

lemma step_upstream:
  assumes "sys_step L s e s'"
  shows "upstream_of s' a = upstream_of s a
    \<or> (e = EvBegin \<and> upstream_of s' a = increment_connection_count (upstream_of s a))
    \<or> (is_EvFinish e \<and> upstream_of s' a = decrement_connection_count (upstream_of s a))
    \<or> (is_EvFinish e \<and> (\<exists>t. upstream_of s' a = upd_breaker (record_failure t) (decrement_connection_count (upstream_of s a))))
    \<or> (\<exists>pr. e = EvProbe (probe_ok pr)
        \<and> upstream_of s' a = apply_probe (cfg_health_check (st_config (sy_state s))) pr (upstream_of s a))
    \<or> (e = EvSkipInitial \<and> upstream_of s' a = upd_mutable (\<lambda>m. m\<lparr>health := Healthy\<rparr>) (upstream_of s a))
    \<or> (\<exists>now. e = EvAdmin Upstream_enable
        \<and> upstream_of s' a = upd_mutable (\<lambda>m. m\<lparr>health := Healthy, breaker := cb_new now 5 (from_secs 30)\<rparr>) (upstream_of s a))
    \<or> (e = EvAdmin Upstream_disable \<and> upstream_of s' a = upd_mutable (\<lambda>m. m\<lparr>health := Unhealthy\<rparr>) (upstream_of s a))"
  using assms
proof cases
  case (begin_forward env req f st1)
  then show ?thesis using proxy_begin_Forwarding [of L env "sy_state s" req f st1] by (auto simp: upstream_of_def upd_arc_def)
next
  case (begin_answer env req r st1)
  then show ?thesis using proxy_begin_Answered by (fastforce simp: upstream_of_def)
next
  case (finish f env result out st1)
  then have "st_heap st1 = finish_heap f (t_fail env) result (st_heap (sy_state s))"
    using proxy_finish_heap by (metis snd_conv)
  then show ?thesis using finish by (cases result) (auto simp: upstream_of_def finish_heap_def upd_arc_def Let_def)
next
  case (probe pr b)
  then show ?thesis by (auto simp: upstream_of_def upd_arc_def)
next
  case skip_initial
  then show ?thesis by (auto simp: upstream_of_def mark_all_healthy_apply)
next
  case (admin jp env r caps req out st1)
  then show ?thesis
    using admin_heap [OF admin(3)] set_health_upstream [of L "t_admin env" "sy_state s" _ True a]
      set_health_upstream [of L "t_admin env" "sy_state s" _ False a]
    by (fastforce simp: upstream_of_def)
qed (auto dest!: charged_core simp: upstream_of_def same_core_def)

lemma sys_run_invariant:
  assumes "sys_run L s es s'" and "I s" and "\<forall>e \<in> set es. P e"
    and "\<And>s1 e s2. sys_step L s1 e s2 \<Longrightarrow> P e \<Longrightarrow> I s1 \<Longrightarrow> I s2"
  shows "I s'"
  using assms(1-3) by (induction rule: sys_run.induct) (auto intro: assms(4))

subsection \<open>Connection counts\<close>

definition conn_ok :: "arc \<Rightarrow> 'm sys \<Rightarrow> bool" where
  "conn_ok a s \<longleftrightarrow> connection_count (upstream_of s a) = word_of_nat (in_flight_to a s + sy_leaked s a)"

lemma apply_probe_connections [simp]: "connection_count (apply_probe hc pr u) = connection_count u"
  by (simp add: apply_probe_def Let_def)

lemma admin_connections:
  assumes "admin_handle L jp env r caps st req = (out, st1)"
  shows "connection_count (st_heap st1 a) = connection_count (st_heap st a)"
proof -
  have "connection_count (st_heap (snd (set_upstream_health L now st url en)) a) = connection_count (st_heap st a)" for now url en
    using set_health_upstream [of L now st url en a] by (auto simp: upd_mutable_def)
  then show ?thesis using admin_heap [OF assms] by auto
qed

lemma size_filter_remove:
  assumes "f \<in># F"
  shows "size (filter_mset P F) = size (filter_mset P (F - {#f#})) + of_bool (P f)"
proof -
  obtain G where "F = add_mset f G" using assms by (metis multi_member_split)
  then show ?thesis by simp
qed

lemma conn_ok_step:
  assumes "sys_step L s e s'" and "conn_ok a s"
  shows "conn_ok a s'"
  using assms(1)
proof cases
  case (begin_forward env req f st1)
  then show ?thesis
    using assms(2) proxy_begin_Forwarding [of L env "sy_state s" req f st1]
    by (auto simp: conn_ok_def upstream_of_def in_flight_to_def upd_arc_def increment_connection_count_def add_ac)
next
  case (begin_answer env req r st1)
  then show ?thesis using assms(2) proxy_begin_Answered
    by (fastforce simp: conn_ok_def upstream_of_def in_flight_to_def)
next
  case (finish f env result out st1)
  then have h: "st_heap st1 = finish_heap f (t_fail env) result (st_heap (sy_state s))"
    using proxy_finish_heap by (metis snd_conv)
  have "connection_count (st_heap st1 a) = connection_count (st_heap (sy_state s) a) - of_bool (if_upstream f = a)"
    unfolding h by (cases result)
      (auto simp: finish_heap_def upd_arc_def upd_breaker_def upd_mutable_def decrement_connection_count_def Let_def)
  then show ?thesis
    using finish assms(2) size_filter_remove [OF finish(3), of "\<lambda>f. if_upstream f = a"]
    by (auto simp: conn_ok_def upstream_of_def in_flight_to_def)
next
  case (cancel f)
  then show ?thesis
    using assms(2) size_filter_remove [OF cancel(3), of "\<lambda>f. if_upstream f = a"]
    by (auto simp: conn_ok_def upstream_of_def in_flight_to_def)
next
  case (probe pr b)
  then show ?thesis using assms(2) by (auto simp: conn_ok_def upstream_of_def in_flight_to_def upd_arc_def)
next
  case skip_initial
  then show ?thesis using assms(2)
    by (simp add: conn_ok_def upstream_of_def in_flight_to_def mark_all_healthy_apply upd_mutable_def)
next
  case (admin jp env r caps req out st1)
  then show ?thesis using assms(2) admin_connections [OF admin(3)]
    by (simp add: conn_ok_def upstream_of_def in_flight_to_def)
next
  case (middlewares st1)
  then show ?thesis using assms(2) charged_core [OF middlewares(3)]
    by (simp add: conn_ok_def upstream_of_def in_flight_to_def same_core_def)
qed

lemma conn_ok_init:
  assumes "build_state L open_db clock now c x = Inr (st, pools)" and "p \<in> set pools" and "a \<in> set (up_upstreams p)"
  shows "conn_ok a (sys_init st)"
proof -
  have "\<exists>t n url w mc. st_heap st a = upstream_new t n url w mc"
    using pools_built_new [OF build_state_built [OF assms(1)]] build_state_fields [OF assms(1)] assms(2,3) by blast
  then show ?thesis by (auto simp: conn_ok_def upstream_of_def in_flight_to_def sys_init_def upstream_new_def)
qed

lemma conn_ok_run: "sys_run L s es s' \<Longrightarrow> conn_ok a s \<Longrightarrow> conn_ok a s'"
  by (rule sys_run_invariant [where P = "\<lambda>_. True" and I = "conn_ok a"]) (auto intro: conn_ok_step)

lemma probe_run_one:
  "\<exists>s'. sys_run L s [EvProbe True] s'"
  using run_snoc [OF run_nil probe [of L s good_probe]] by auto

text \<open>A run of the example configuration: start without initial check, then one request goes out.\<close>

lemma example_system:
  "\<exists>st pools p f s. build_state sample_libs (\<lambda>_. Inr (None, None)) (\<lambda>_. 0) 0 example_config (two_upstreams, 0) = Inr (st, pools)
    \<and> p \<in> set pools \<and> if_upstream f \<in> set (up_upstreams p)
    \<and> sys_run sample_libs (sys_init st) ([] @ [EvSkipInitial] @ [EvBegin]) s
    \<and> sy_flights s = {#f#} \<and> sy_leaked s (if_upstream f) = 0"
proof -
  obtain st pools where b: "build_state sample_libs (\<lambda>_. Inr (None, None)) (\<lambda>_. 0) 0 example_config (two_upstreams, 0) = Inr (st, pools)"
    using example_build by blast
  have pools: "st_pools st = pools" using build_state_fields [OF b] by blast
  let ?st = "st\<lparr>st_heap := mark_all_healthy pools (st_heap st)\<rparr>"
  let ?s1 = "(sys_init st)\<lparr>sy_state := ?st\<rparr>"
  have m: "extract_json_rpc_method (from_slice sample_libs) [1] = Some ''getHealth''"
    by (simp add: extract_json_rpc_method_def)
  have k: "moka (lib_moka sample_libs)" using fifo.moka_axioms by simp
  obtain f where f: "fst (proxy_begin sample_libs (sample_env TimedOut) ?st (sample_request [1])) = Forwarding f"
    and p: "\<exists>p \<in> set pools. if_upstream f \<in> set (up_upstreams p)"
    using marked_gateway_forwards [OF k example_config_valid b refl _ m, of "sample_request [1]" "sample_env TimedOut"] by auto
  then obtain st1 where fwd: "proxy_begin sample_libs (sample_env TimedOut) (sy_state ?s1) (sample_request [1]) = (Forwarding f, st1)"
    by (metis prod.collapse sys.select_convs(1) sys.update_convs(1) sys.surjective)
  have "sys_step sample_libs (sys_init st) EvSkipInitial ?s1"
    using skip_initial [of sample_libs "sys_init st"] by (simp add: sys_init_def pools)
  moreover note begin_forward [OF fwd]
  ultimately have "sys_run sample_libs (sys_init st) ([] @ [EvSkipInitial] @ [EvBegin])
      (?s1\<lparr>sy_state := st1, sy_flights := add_mset f (sy_flights ?s1)\<rparr>)"
    using run_snoc [OF run_snoc [OF run_nil]] by fastforce
  then show ?thesis using b p by (fastforce simp: sys_init_def)
qed

text \<open>C1. In every interleaving of requests, probes and administration, the connection count of an
  upstream is the number of requests in flight to it plus the number of requests to it that were
  cancelled while in flight, modulo \<open>2 ^ 64\<close>.\<close>

theorem connection_counts_track_in_flight:
  assumes "build_state L open_db clock now c x = Inr (st, pools)" and "p \<in> set pools" and "a \<in> set (up_upstreams p)"
    and "sys_run L (sys_init st) es s"
  shows "connection_count (st_heap (sy_state s) a)
    = word_of_nat (size (filter_mset (\<lambda>f. if_upstream f = a) (sy_flights s)) + sy_leaked s a)"
  using conn_ok_run [OF assms(4) conn_ok_init [OF assms(1-3)]]
  by (simp add: conn_ok_def upstream_of_def in_flight_to_def)

theorem connection_counts_track_in_flight_witness:
  "\<exists>st a (s :: (nat \<times> (u64 \<times> cached_value) list) sys). sys_run sample_libs (sys_init st) [EvSkipInitial, EvBegin] s
    \<and> connection_count (st_heap (sy_state s) a) = 1"
proof -
  obtain st pools p f s where b: "build_state sample_libs (\<lambda>_. Inr (None, None)) (\<lambda>_. 0) 0 example_config (two_upstreams, 0) = Inr (st, pools)"
    and p: "p \<in> set pools" "if_upstream f \<in> set (up_upstreams p)"
    and run: "sys_run sample_libs (sys_init st) ([] @ [EvSkipInitial] @ [EvBegin]) s"
    and s: "sy_flights s = {#f#}" "sy_leaked s (if_upstream f) = 0"
    using example_system by blast
  show ?thesis using connection_counts_track_in_flight [OF b p run] run s by auto
qed

text \<open>When no request was cancelled and none is in flight, every upstream reports zero connections.\<close>

lemma idle_gateway_reports_no_connections:
  assumes "build_state L open_db clock now c x = Inr (st, pools)" and "p \<in> set pools" and "a \<in> set (up_upstreams p)"
    and "sys_run L (sys_init st) es s" and "EvCancel \<notin> set es" and "sy_flights s = {#}"
  shows "active_connections (st_heap (sy_state s) a) = 0"
proof -
  have "sy_leaked s a = 0"
    by (rule sys_run_invariant [OF assms(4), where P = "\<lambda>e. e \<noteq> EvCancel" and I = "\<lambda>s. sy_leaked s a = 0"])
      (use assms(5) in \<open>auto simp: sys_init_def elim: sys_step.cases\<close>)
  then have "connection_count (st_heap (sy_state s) a) = 0"
    using conn_ok_run [OF assms(4) conn_ok_init [OF assms(1-3)]] assms(6)
    by (simp add: conn_ok_def upstream_of_def in_flight_to_def)
  then show ?thesis by (simp add: active_connections_def)
qed

subsection \<open>Breakers\<close>

lemma step_breaker:
  assumes "sys_step L s e s'" and "e \<noteq> EvAdmin Upstream_enable"
  shows "\<exists>es. breaker (us_mutable (upstream_of s' a)) = cb_run (breaker (us_mutable (upstream_of s a))) es
    \<and> (\<forall>x \<in> set es. \<forall>t. x \<noteq> Succ t) \<and> (\<not> is_EvFinish e \<longrightarrow> (\<forall>x \<in> set es. \<forall>t. x \<noteq> Fail t))"
proof -
  let ?b = "breaker (us_mutable (upstream_of s a))" and ?b' = "breaker (us_mutable (upstream_of s' a))"
  consider "?b' = ?b" | t where "is_EvFinish e" "?b' = record_failure t ?b"
    | t1 t2 where "?b' = try_half_open t1 t2 ?b"
    using step_upstream [OF assms(1), of a] assms(2)
    by (auto simp: increment_connection_count_def decrement_connection_count_def upd_breaker_def upd_mutable_def
        apply_probe_breaker)
  then show ?thesis
  proof cases
    case 1
    then show ?thesis by (intro exI [of _ "[]"]) simp
  next
    case (2 t)
    then show ?thesis by (intro exI [of _ "[Fail t]"]) simp
  next
    case (3 t1 t2)
    then show ?thesis by (intro exI [of _ "[Tick t1 t2]"]) simp
  qed
qed

lemma no_success_keeps_tripped:
  "\<forall>x \<in> set es. \<forall>t. x \<noteq> Succ t \<Longrightarrow> cb_state cb \<noteq> Closed \<Longrightarrow> cb_state (cb_run cb es) \<noteq> Closed"
proof (induction es arbitrary: cb)
  case (Cons e es)
  have "cb_state (cb_step cb e) \<noteq> Closed"
    using Cons.prems by (cases e) (auto simp: cb_defs split: circuit_breaker_state.split)
  then show ?case using Cons by simp
qed simp

text \<open>C15. A breaker that has opened never closes again by itself: without an operator's enable call it
  stays open or half-open for ever, whatever the probes and the requests that follow report, because
  no part of the running gateway reports a success to it.\<close>

theorem tripped_breaker_never_closes:
  assumes "sys_run L s es s'" and "EvAdmin Upstream_enable \<notin> set es"
    and "cb_state (breaker (us_mutable (st_heap (sy_state s) a))) \<noteq> Closed"
  shows "cb_state (breaker (us_mutable (st_heap (sy_state s') a))) \<noteq> Closed"
proof (rule sys_run_invariant [OF assms(1), where P = "\<lambda>e. e \<noteq> EvAdmin Upstream_enable"
      and I = "\<lambda>s. cb_state (breaker (us_mutable (st_heap (sy_state s) a))) \<noteq> Closed"])
  show "\<forall>e \<in> set es. e \<noteq> EvAdmin Upstream_enable" using assms(2) by blast
  fix s1 e s2
  assume "sys_step L s1 e s2" "e \<noteq> EvAdmin Upstream_enable"
    "cb_state (breaker (us_mutable (st_heap (sy_state s1) a))) \<noteq> Closed"
  then show "cb_state (breaker (us_mutable (st_heap (sy_state s2) a))) \<noteq> Closed"
    using step_breaker [of L s1 e s2 a] no_success_keeps_tripped unfolding upstream_of_def by metis
qed (rule assms(3))

definition tripped_state :: "(nat \<times> (u64 \<times> cached_value) list) app_state" where
  "tripped_state = upd_upstream 0 (upd_breaker (\<lambda>b. b\<lparr>cb_state := Open\<rparr>)) sample_state"

theorem tripped_breaker_never_closes_witness:
  "\<exists>s. sys_run sample_libs (sys_init tripped_state) [EvProbe True] s
    \<and> cb_state (breaker (us_mutable (st_heap (sy_state s) 0))) \<noteq> Closed"
proof -
  obtain s where s: "sys_run sample_libs (sys_init tripped_state) [EvProbe True] s" using probe_run_one by blast
  have "cb_state (breaker (us_mutable (st_heap (sy_state (sys_init tripped_state)) 0))) \<noteq> Closed"
    by (simp add: sys_init_def tripped_state_def upd_breaker_def upd_mutable_def)
  then show ?thesis using s tripped_breaker_never_closes [OF s] by auto
qed

subsection \<open>Health\<close>

lemma step_health:
  assumes "sys_step L s e s'"
  shows "health (us_mutable (upstream_of s' a)) = health (us_mutable (upstream_of s a))
    \<or> (\<exists>ok. e = EvProbe ok \<and> health (us_mutable (upstream_of s' a)) = (if ok then Healthy else Unhealthy))
    \<or> (e \<in> {EvSkipInitial, EvAdmin Upstream_enable} \<and> health (us_mutable (upstream_of s' a)) = Healthy)
    \<or> (e = EvAdmin Upstream_disable \<and> health (us_mutable (upstream_of s' a)) = Unhealthy)"
proof -
  have "health (us_mutable (apply_probe hc pr u)) = health (us_mutable u)
      \<or> health (us_mutable (apply_probe hc pr u)) = (if probe_ok pr then Healthy else Unhealthy)" for hc pr u
    by (simp add: apply_probe_def Let_def)
  then show ?thesis
    using step_upstream [OF assms, of a]
    by (elim disjE exE conjE)
      (simp_all add: increment_connection_count_def decrement_connection_count_def upd_breaker_def upd_mutable_def)
qed

text \<open>An upstream turns healthy in three ways only: a successful probe, an operator's enable call, or
  the start without initial check. It turns unhealthy in two: a failed probe or a disable call.
  Proxied requests never change the health of an upstream.\<close>

lemma health_changes_only_by_probe_or_operator:
  assumes "sys_step L s e s'"
  shows "(health (us_mutable (st_heap (sy_state s) a)) = Unhealthy \<and> health (us_mutable (st_heap (sy_state s') a)) = Healthy
      \<longrightarrow> e \<in> {EvProbe True, EvSkipInitial, EvAdmin Upstream_enable})
    \<and> (health (us_mutable (st_heap (sy_state s) a)) = Healthy \<and> health (us_mutable (st_heap (sy_state s') a)) = Unhealthy
      \<longrightarrow> e \<in> {EvProbe False, EvAdmin Upstream_disable})"
  using step_health [OF assms, of a] unfolding upstream_of_def by (auto split: if_splits)

end
