(* ===== verification/Gate_Main.thy ===== *)
theory Gate_Main
  imports Gate_System
begin

text \<open>
  \<open>src/main.rs\<close>, \<open>src/telemetry/mod.rs\<close> and \<open>serve\<close> of \<open>src/server/mod.rs\<close>: how the process starts and
  ends. \<open>os_env\<close> holds what the operating system and the servers answer: the fault of binding an address
  while the process holds others, the loading of the TLS key pair, and the error with which a running server
  ends, if any. A listener holds its address until it is dropped. That a second bind of a held address
  fails is not built in; it is the hypothesis \<open>binds_exclusively\<close>, where it is needed. Here a task is only the result it ends with; how the tasks wait for the shutdown
  signal and come to their end is the state machine of \<open>Gate_Shutdown\<close>. Log messages are left out.
\<close>

record os_env =
  bind_fault :: "socket_addr list \<Rightarrow> socket_addr \<Rightarrow> string option"
  pem_result :: "string \<Rightarrow> string \<Rightarrow> string + unit"
  tls_server_end :: "string option"
  main_server_end :: "string option"
  admin_server_end :: "string option"
  metrics_server_end :: "string option"

fun port :: "socket_addr \<Rightarrow> u16" where
  "port (V4 _ p) = p"
| "port (V6 _ p) = p"

definition os_bind :: "os_env \<Rightarrow> socket_addr list \<Rightarrow> socket_addr \<Rightarrow> string + socket_addr list" where
  "os_bind os held addr =
     (case bind_fault os held addr of Some e \<Rightarrow> Inl e | None \<Rightarrow> Inr (addr # held))"

text \<open>The rule of \<open>bind\<close> for an address with a fixed port that a listener of the process holds; port 0
  asks for a free port.\<close>

definition binds_exclusively :: "os_env \<Rightarrow> bool" where
  "binds_exclusively os \<longleftrightarrow>
     (\<forall>held addr. addr \<in> set held \<longrightarrow> port addr \<noteq> 0 \<longrightarrow>
        bind_fault os held addr = Some ''Address already in use (os error 98)'')"

text \<open>How a task ends: with the error of its server under a prefix, or well.\<close>

definition ended :: "string \<Rightarrow> string option \<Rightarrow> string + unit" where
  "ended what e = (case e of Some msg \<Rightarrow> Inl (what @ msg) | None \<Rightarrow> Inr ())"

text \<open>Lines 166 to 194. The listener of \<open>main_listener\<close> is owned by the task for its whole life, also
  where the TLS server binds the address itself.\<close>

definition main_task :: "os_env \<Rightarrow> config \<Rightarrow> socket_addr list \<Rightarrow> string + unit" where
  "main_task os cfg held =
     (if tls_enabled (cfg_tls cfg)
      then try_then (pem_result os (cert_file (cfg_tls cfg)) (key_file (cfg_tls cfg))) (\<lambda>_.
           (case os_bind os held (srv_bind (cfg_server cfg)) of
              Inl e \<Rightarrow> Inl (''Main server (TLS) error: '' @ e)
            | Inr _ \<Rightarrow> ended ''Main server (TLS) error: '' (tls_server_end os)))
      else ended ''Main server error: '' (main_server_end os))"

definition admin_task :: "os_env \<Rightarrow> string + unit" where
  "admin_task os = ended ''Admin server error: '' (admin_server_end os)"

definition metrics_task :: "os_env \<Rightarrow> config \<Rightarrow> string + unit" where
  "metrics_task os cfg =
     (if metrics_enabled (cfg_telemetry cfg) then ended ''Metrics server error: '' (metrics_server_end os) else Inr ())"

text \<open>The listeners that \<open>serve\<close> opens, in order; the metrics listener is opened after the main and the
  admin server were started.\<close>

definition open_listeners :: "os_env \<Rightarrow> config \<Rightarrow> string + socket_addr list" where
  "open_listeners os cfg =
     try_then (os_bind os [] (srv_bind (cfg_server cfg))) (\<lambda>h1.
     try_then (os_bind os h1 (admin_bind (cfg_server cfg))) (\<lambda>h2.
     if metrics_enabled (cfg_telemetry cfg) then os_bind os h2 (metrics_bind (cfg_server cfg)) else Inr h2))"

definition serve_gateway ::
  "('m, 'h) libs \<Rightarrow> os_env \<Rightarrow> db_open \<Rightarrow> (arc \<Rightarrow> instant) \<Rightarrow> instant \<Rightarrow> config \<Rightarrow> heap \<times> arc
     \<Rightarrow> string + unit" where
  "serve_gateway L os open_db clock now config s =
     try_then (build_state L open_db clock now config s) (\<lambda>(st, pools).
     try_then (open_listeners os (st_config st)) (\<lambda>held.
     try_then (main_task os (st_config st) held) (\<lambda>_.
     try_then (metrics_task os (st_config st)) (\<lambda>_.
     admin_task os))))"

text \<open>The router of the integration tests, with the state it serves and the arguments of the health-check task
  that is spawned beside it.\<close>

definition build_test_app ::
  "('m, 'h) libs \<Rightarrow> db_open \<Rightarrow> (arc \<Rightarrow> instant) \<Rightarrow> instant \<Rightarrow> config \<Rightarrow> heap \<times> arc \<Rightarrow> bool
     \<Rightarrow> string + ((server_env \<Rightarrow> 'm service) \<times> 'm app_state \<times> (upstream_pool list \<times> config \<times> bool))" where
  "build_test_app L open_db clock now config s skip_health_check =
     try_then (build_state L open_db clock now config s) (\<lambda>(st, pools).
     Inr (build_router L, st, (pools, st_config st, skip_health_check)))"

subsection \<open>The process\<close>

text \<open>The command line, after \<open>clap\<close> has split it: the value of \<open>--config\<close> if it was given, and whether
  \<open>--skip-initial-health-check\<close> was.\<close>

record cli =
  cli_config :: string
  skip_initial_health_check :: bool

definition cli_parse :: "string option \<Rightarrow> bool \<Rightarrow> cli" where
  "cli_parse config skip =
     \<lparr>cli_config = (case config of Some path \<Rightarrow> path | None \<Rightarrow> ''sorobangate.toml''), skip_initial_health_check = skip\<rparr>"

definition log_filter :: "config \<Rightarrow> string" where
  "log_filter cfg = ''sorobangate='' @ log_level_as_str (srv_log_level (cfg_server cfg))"

text \<open>The subscriber: the filter, or \<open>info\<close> where the filter cannot be parsed, and the output format.\<close>

definition log_subscriber :: "(string \<Rightarrow> 'f option) \<Rightarrow> (string \<Rightarrow> 'f) \<Rightarrow> config \<Rightarrow> 'f \<times> log_format" where
  "log_subscriber try_new filter_new cfg =
     (case try_new (log_filter cfg) of Some f \<Rightarrow> f | None \<Rightarrow> filter_new ''info'', srv_log_format (cfg_server cfg))"

definition main_process ::
  "('m, 'h) libs \<Rightarrow> os_env \<Rightarrow> (string \<Rightarrow> string + string) \<Rightarrow> (string \<Rightarrow> string + config) \<Rightarrow> db_open
     \<Rightarrow> (arc \<Rightarrow> instant) \<Rightarrow> instant \<Rightarrow> cli \<Rightarrow> heap \<times> arc \<Rightarrow> string + unit" where
  "main_process L os read_to_string toml_from_str open_db clock now cli s =
     try_then (config_load read_to_string toml_from_str (cli_config cli)) (\<lambda>config.
     try_then (validate config) (\<lambda>_.
     serve_gateway L os open_db clock now config s))"

text \<open>The two stubs of \<open>src/telemetry/mod.rs\<close> do nothing.\<close>

definition init_tracing :: "string option \<Rightarrow> 's \<Rightarrow> 's" where
  "init_tracing otlp s = s"

definition shutdown_tracing :: "'s \<Rightarrow> 's" where
  "shutdown_tracing s = s"

subsection \<open>Listeners\<close>

lemma os_bind_Inr: "os_bind os held a = Inr h \<Longrightarrow> h = a # held \<and> bind_fault os held a = None"
  by (auto simp: os_bind_def split: option.splits)

lemma open_listeners_held:
  "open_listeners os cfg = Inr held \<Longrightarrow> srv_bind (cfg_server cfg) \<in> set held"
  by (auto simp: open_listeners_def try_then_Inr_iff dest!: os_bind_Inr split: if_splits)

text \<open>C33. With TLS enabled on a fixed port the main server never serves: the address is still held by the
  listener that \<open>serve\<close> opened, so the bind of the TLS server fails, and \<open>serve\<close> reports it, after the
  shutdown signal, as its own error. The operating system is any that refuses to bind an address twice.\<close>

theorem tls_server_never_starts:
  assumes "tls_enabled (cfg_tls config)" and "port (srv_bind (cfg_server config)) \<noteq> 0"
    and "build_state L open_db clock now config s = Inr (st, pools)"
    and "open_listeners os config = Inr held"
    and "pem_result os (cert_file (cfg_tls config)) (key_file (cfg_tls config)) = Inr ()"
    and "binds_exclusively os"
  shows "serve_gateway L os open_db clock now config s
    = Inl (''Main server (TLS) error: '' @ ''Address already in use (os error 98)'')"
proof -
  have c: "st_config st = config\<lparr>cfg_auth := (cfg_auth config)\<lparr>tiers := []\<rparr>\<rparr>"
    using build_state_fields [OF assms(3)] by blast
  have fields: "cfg_server (st_config st) = cfg_server config" "cfg_telemetry (st_config st) = cfg_telemetry config"
    "cfg_tls (st_config st) = cfg_tls config" by (simp_all add: c)
  have "open_listeners os (st_config st) = Inr held" using assms(4) unfolding open_listeners_def fields by simp
  moreover have "main_task os (st_config st) held = Inl (''Main server (TLS) error: '' @ ''Address already in use (os error 98)'')"
    using assms(1,2,5,6) open_listeners_held [OF assms(4)]
    unfolding main_task_def fields by (simp add: os_bind_def binds_exclusively_def)
  ultimately show ?thesis using assms(3) by (simp add: serve_gateway_def)
qed

definition quiet_os :: os_env where
  "quiet_os = \<lparr>bind_fault = (\<lambda>held addr.
       if addr \<in> set held \<and> port addr \<noteq> 0 then Some ''Address already in use (os error 98)'' else None),
     pem_result = (\<lambda>_ _. Inr ()), tls_server_end = None, main_server_end = None,
     admin_server_end = None, metrics_server_end = None\<rparr>"

definition tls_example :: config where
  "tls_example = example_config\<lparr>cfg_tls := tls_config_default\<lparr>tls_enabled := True\<rparr>\<rparr>"

lemma server_defaults:
  "cfg_server tls_example = server_config_default" "cfg_server example_config = server_config_default"
  "metrics_enabled (cfg_telemetry tls_example)" "metrics_enabled (cfg_telemetry example_config)"
  "tls_enabled (cfg_tls tls_example)" "\<not> tls_enabled (cfg_tls example_config)"
  by (simp_all add: tls_example_def example_defs config_struct_defaults config_defaults)

lemma example_listeners:
  "cfg_server cfg = server_config_default \<Longrightarrow> metrics_enabled (cfg_telemetry cfg) \<Longrightarrow>
   \<exists>held. open_listeners quiet_os cfg = Inr held"
  by (simp add: open_listeners_def os_bind_def quiet_os_def config_struct_defaults config_defaults)

theorem tls_server_never_starts_witness:
  "serve_gateway sample_libs quiet_os (\<lambda>_. Inr (None, None)) (\<lambda>_. 0) 0 tls_example (two_upstreams, 0)
    = Inl (''Main server (TLS) error: '' @ ''Address already in use (os error 98)'')"
proof -
  obtain st pools where "build_state sample_libs (\<lambda>_. Inr (None, None)) (\<lambda>_. 0) 0 tls_example (two_upstreams, 0) = Inr (st, pools)"
    by (cases "auth_enabled (cfg_auth tls_example)") (auto simp: build_state_def Let_def split_beta sqlite_new_def)
  moreover obtain held where "open_listeners quiet_os tls_example = Inr held"
    using example_listeners server_defaults by blast
  moreover have "port (srv_bind (cfg_server tls_example)) \<noteq> 0"
    by (simp add: server_defaults config_struct_defaults config_defaults)
  ultimately show ?thesis
    using tls_server_never_starts [of tls_example sample_libs] server_defaults
    by (simp add: quiet_os_def binds_exclusively_def)
qed

text \<open>The process ends well exactly when the configuration could be read, parsed and validated, the
  state could be built, every listener could be opened and every server ended well.\<close>

lemma main_succeeds_iff:
  "main_process L os read_to_string toml_from_str open_db clock now cli s = Inr () \<longleftrightarrow>
     (\<exists>text config st pools held. read_to_string (cli_config cli) = Inr text \<and> toml_from_str text = Inr config \<and> config_valid config
        \<and> build_state L open_db clock now config s = Inr (st, pools)
        \<and> open_listeners os (st_config st) = Inr held \<and> main_task os (st_config st) held = Inr ()
        \<and> metrics_task os (st_config st) = Inr () \<and> admin_task os = Inr ())"
proof -
  have load: "config_load read_to_string toml_from_str (cli_config cli) = Inr config \<longleftrightarrow>
      (\<exists>text. read_to_string (cli_config cli) = Inr text \<and> toml_from_str text = Inr config)" for config
    by (auto simp: config_load_def split: sum.splits)
  show ?thesis
    by (auto simp: main_process_def serve_gateway_def try_then_Inr_iff load validate_ok)
qed

end
