(* ===== verification/Gate_Trace.thy ===== *)
theory Gate_Trace
  imports Gate_Main
begin

text \<open>
  The running gateway seen from its traces. First, the entry points of the program, the router of the
  main listener, the administration API and the health-check task, are runs of the step relation of
  \<open>Gate_System\<close>, so that every invariant proved there holds of them. Second, the response cache under
  interleaving: the cache that the gateway keeps refines the ideal cache of \<open>Memory_Cache\<close> driven by the
  writes and flushes of the trace, however requests, evictions and flushes interleave.
\<close>

subsection \<open>Runs\<close>

lemma sys_run_append: "sys_run L s1 fs s2 \<Longrightarrow> sys_run L s es s1 \<Longrightarrow> sys_run L s (es @ fs) s2"
proof (induction rule: sys_run.induct)
  case (run_snoc s1 fs s2 e s3)
  then show ?case using sys_run.run_snoc by fastforce
qed simp

lemma sys_run_one: "sys_step L s e s' \<Longrightarrow> sys_run L s [e] s'"
  using run_snoc [OF run_nil] by fastforce

lemma sys_run_Cons: "sys_step L s e s1 \<Longrightarrow> sys_run L s1 es s2 \<Longrightarrow> sys_run L s (e # es) s2"
  using sys_run_append [OF _ sys_run_one] by fastforce

inductive_cases sys_run_snocE: "sys_run L s (es @ [e]) s'"

text \<open>A request that runs to its end is a run of one or two steps.\<close>

lemma handler_is_run:
  "\<exists>es. sys_run L s es (s\<lparr>sy_state := snd (proxy_handler L env (sy_state s) req)\<rparr>)"
proof (cases "proxy_begin L env (sy_state s) req")
  case (Pair b st1)
  show ?thesis
  proof (cases b)
    case (Answered r)
    then have "sys_step L s (EvAnswer env req r) (s\<lparr>sy_state := st1\<rparr>)" using begin_answer Pair by blast
    then show ?thesis using sys_run_one Pair Answered by (fastforce simp: proxy_handler_def)
  next
    case (Forwarding f)
    let ?s1 = "s\<lparr>sy_state := st1, sy_flights := add_mset f (sy_flights s)\<rparr>"
    define res where "res = forward_to_upstream L (network env) (st_heap st1 (if_upstream f)) (if_body f)
      (request_timeout_ms (cfg_server (st_config st1)))"
    obtain out st2 where fin: "proxy_finish L env f res st1 = (out, st2)" by fastforce
    have "sys_step L s EvBegin ?s1" using begin_forward Pair Forwarding by blast
    moreover have "sys_step L ?s1 (EvFinish env f res) (?s1\<lparr>sy_state := st2, sy_flights := sy_flights ?s1 - {#f#}\<rparr>)"
      using fin by (intro finish) simp_all
    moreover have "?s1\<lparr>sy_state := st2, sy_flights := sy_flights ?s1 - {#f#}\<rparr> = s\<lparr>sy_state := st2\<rparr>" by simp
    moreover have "snd (proxy_handler L env (sy_state s) req) = st2"
      by (simp add: proxy_handler_def Pair Forwarding fin res_def [symmetric])
    ultimately show ?thesis using sys_run_Cons sys_run_one by metis
  qed
qed

lemma router_is_run:
  "\<exists>es. sys_run L s es (s\<lparr>sy_state := snd (build_router L env (sy_state s) req)\<rparr>)"
proof (rule stack.pass_or_refuse_cases [of L "sy_state s" req env "app_routes L env"])
  fix st1 req1
  assume core: "charged L (sy_state s) st1"
    and eq: "middleware_stack L env (app_routes L env) (sy_state s) req = app_routes L env st1 req1"
  have mid: "sys_step L s EvMiddleware (s\<lparr>sy_state := st1\<rparr>)" by (rule middlewares [OF core])
  obtain es where "sys_run L (s\<lparr>sy_state := st1\<rparr>) es (s\<lparr>sy_state := snd (proxy_handler L (se_proxy env) st1 req1)\<rparr>)"
    using handler_is_run [of L "s\<lparr>sy_state := st1\<rparr>"] by auto
  then have "\<exists>es. sys_run L (s\<lparr>sy_state := st1\<rparr>) es (s\<lparr>sy_state := snd (app_routes L env st1 req1)\<rparr>)"
    using run_nil by (fastforce simp: app_routes_def)
  then show ?thesis using sys_run_Cons [OF mid] eq by (auto simp: build_router_stack)
next
  fix r st1
  assume "charged L (sy_state s) st1" and "middleware_stack L env (app_routes L env) (sy_state s) req = (Respond r, st1)"
  then show ?thesis using sys_run_one [OF middlewares] by (fastforce simp: build_router_stack)
qed

lemma server_run_is_run:
  "\<exists>es. sys_run L s es (s\<lparr>sy_state := snd (server_run L (sy_state s) xs)\<rparr>)"
proof (induction xs arbitrary: s)
  case Nil
  then show ?case using run_nil by fastforce
next
  case (Cons x xs)
  obtain env req where x: "x = (env, req)" by fastforce
  let ?s1 = "s\<lparr>sy_state := snd (build_router L env (sy_state s) req)\<rparr>"
  obtain es where es: "sys_run L s es ?s1" using router_is_run by blast
  obtain fs where "sys_run L ?s1 fs (s\<lparr>sy_state := snd (server_run L (sy_state ?s1) xs)\<rparr>)" using Cons [of ?s1] by auto
  then show ?case using sys_run_append [OF _ es] by (auto simp: x split_beta)
qed

lemma admin_app_is_run:
  "\<exists>es. sys_run L s es (s\<lparr>sy_state := snd (admin_app L path_match jp env (sy_state s) req)\<rparr>)"
proof -
  have handle: "\<exists>es. sys_run L s es (s\<lparr>sy_state := snd (admin_handle L jp env r caps (sy_state s) req)\<rparr>)" for r caps
    using sys_run_one [OF admin [of L jp env r caps s req]] by (metis prod.collapse)
  have nil: "\<exists>es. sys_run L s es (s\<lparr>sy_state := sy_state s\<rparr>)" using run_nil by fastforce
  have strip: "snd (strip_head req x) = snd x" for x :: "outcome \<times> 'a app_state" by (simp add: strip_head_def)
  show ?thesis using handle nil by (auto simp: admin_app_def strip split: list.split option.split prod.split)
qed

lemma upd_upstream_same: "f (st_heap st a) = g (st_heap st a) \<Longrightarrow> upd_upstream a f st = upd_upstream a g st"
  by (simp add: upd_upstream_def upd_arc_def)

lemma upd_upstream_id: "upd_upstream a (\<lambda>u. u) st = st"
  by (simp add: upd_upstream_def upd_arc_def)

lemma check_is_step:
  fixes s :: "'m sys"
  defines "hc \<equiv> cfg_health_check (st_config (sy_state s))"
  shows "\<exists>e. sys_step L s e (s\<lparr>sy_state := upd_upstream a (check_upstream tv uo bo hc pr) (sy_state s)\<rparr>)"
proof -
  have "check_upstream tv uo bo hc pr u = u \<or> check_upstream tv uo bo hc pr u = apply_probe hc pr u" for u
    by (auto simp: check_upstream_def split: option.split)
  then consider "upd_upstream a (check_upstream tv uo bo hc pr) (sy_state s) = sy_state s"
    | "upd_upstream a (check_upstream tv uo bo hc pr) (sy_state s) = upd_upstream a (apply_probe hc pr) (sy_state s)"
    using upd_upstream_same [of "check_upstream tv uo bo hc pr" "sy_state s" a "\<lambda>u. u"]
      upd_upstream_same [of "check_upstream tv uo bo hc pr" "sy_state s" a "apply_probe hc pr"] upd_upstream_id
    by metis
  then show ?thesis
  proof cases
    case 1
    then show ?thesis using middlewares [OF charged_refl, of L s] by auto
  next
    case 2
    then show ?thesis using probe [of L s pr a] by (auto simp: hc_def)
  qed
qed

definition with_heap :: "heap \<Rightarrow> 'm sys \<Rightarrow> 'm sys" where
  "with_heap h s = s\<lparr>sy_state := (sy_state s)\<lparr>st_heap := h\<rparr>\<rparr>"

lemma with_heap_simps [simp]:
  "st_config (sy_state (with_heap h s)) = st_config (sy_state s)" "st_heap (sy_state (with_heap h s)) = h"
  "st_pools (sy_state (with_heap h s)) = st_pools (sy_state s)"
  "with_heap h2 (with_heap h1 s) = with_heap h2 s" "with_heap (st_heap (sy_state s)) s = s"
  by (simp_all add: with_heap_def)

lemma checks_are_run:
  fixes s :: "'m sys"
  defines "hc \<equiv> cfg_health_check (st_config (sy_state s))"
  shows "\<exists>es. sys_run L s es (with_heap (check_in_order (check_upstream tv uo bo hc) probes as (st_heap (sy_state s))) s)"
  unfolding hc_def
proof (induction as arbitrary: s)
  case Nil
  then show ?case using run_nil by fastforce
next
  case (Cons a as)
  let ?chk = "check_upstream tv uo bo (cfg_health_check (st_config (sy_state s)))"
  let ?s1 = "with_heap (upd_arc a (?chk (probes a)) (st_heap (sy_state s))) s"
  obtain e where "sys_step L s e ?s1"
    using check_is_step [of L s a tv uo bo "probes a"] by (auto simp: with_heap_def upd_upstream_def)
  then show ?case using sys_run_Cons [of L s e ?s1] Cons [of ?s1] by fastforce
qed

lemma cycles_are_run:
  fixes s :: "'m sys"
  defines "hc \<equiv> cfg_health_check (st_config (sy_state s))"
  shows "\<exists>es. sys_run L s es
    (with_heap (foldl (\<lambda>h probes. run_health_check_cycle (check_upstream tv uo bo hc) pools probes h) (st_heap (sy_state s)) rounds) s)"
  unfolding hc_def
proof (induction rounds arbitrary: s)
  case Nil
  then show ?case using run_nil by fastforce
next
  case (Cons probes rounds)
  let ?chk = "check_upstream tv uo bo (cfg_health_check (st_config (sy_state s)))"
  let ?s1 = "with_heap (run_health_check_cycle ?chk pools probes (st_heap (sy_state s))) s"
  obtain es where "sys_run L s es ?s1"
    using checks_are_run [of L s tv uo bo] unfolding run_health_check_cycle_def by blast
  then show ?case using sys_run_append Cons [of ?s1] by fastforce
qed

lemma health_checks_are_run:
  fixes s :: "'m sys"
  defines "hc \<equiv> cfg_health_check (st_config (sy_state s))"
  shows "\<exists>es. sys_run L s es (with_heap (snd (run_health_checks interval_panics (check_upstream tv uo bo hc) (st_pools (sy_state s)) hc
      skip first rounds (st_heap (sy_state s)))) s)"
proof -
  define chk where "chk = check_upstream tv uo bo hc"
  define h1 where "h1 = (if skip then mark_all_healthy (st_pools (sy_state s)) (st_heap (sy_state s))
      else run_health_check_cycle chk (st_pools (sy_state s)) first (st_heap (sy_state s)))"
  have "\<exists>es. sys_run L s es (with_heap h1 s)"
    using checks_are_run [of L s tv uo bo] sys_run_one [OF skip_initial [of L s]]
    by (auto simp: h1_def chk_def hc_def run_health_check_cycle_def with_heap_def)
  moreover have "\<exists>es. sys_run L (with_heap h1 s) es
      (with_heap (foldl (\<lambda>h probes. run_health_check_cycle chk (st_pools (sy_state s)) probes h) h1 rounds) s)"
    using cycles_are_run [of L "with_heap h1 s" tv uo bo "st_pools (sy_state s)" rounds] by (simp add: chk_def hc_def)
  moreover have "snd (run_health_checks interval_panics chk (st_pools (sy_state s)) hc skip first rounds (st_heap (sy_state s)))
      = (if interval_panics (from_millis (unat (interval_ms hc))) then h1
         else foldl (\<lambda>h probes. run_health_check_cycle chk (st_pools (sy_state s)) probes h) h1 rounds)"
    by (simp add: run_health_checks_def Let_def h1_def)
  ultimately show ?thesis using sys_run_append unfolding chk_def by (metis (no_types, lifting))
qed

text \<open>The entry points of the program are runs of the system: every sequence of requests through the
  router, every call of the administration API, and the health-check task for any number of rounds take
  the shared state where some run of the step relation takes it. What is proved of all runs holds of
  them.\<close>

lemma entry_points_are_system_runs:
  "(\<exists>es. sys_run L s es (s\<lparr>sy_state := snd (server_run L (sy_state s) xs)\<rparr>))
   \<and> (\<exists>es. sys_run L s es (s\<lparr>sy_state := snd (admin_app L path_match jp env (sy_state s) req)\<rparr>))
   \<and> (\<exists>es. sys_run L s es (s\<lparr>sy_state := (sy_state s)\<lparr>st_heap :=
        snd (run_health_checks interval_panics (check_upstream tv uo bo (cfg_health_check (st_config (sy_state s)))) (st_pools (sy_state s))
          (cfg_health_check (st_config (sy_state s))) skip first rounds (st_heap (sy_state s)))\<rparr>\<rparr>))"
  using server_run_is_run admin_app_is_run health_checks_are_run unfolding with_heap_def by blast

subsection \<open>The cache of a trace\<close>

text \<open>The cache operations of an event: a successful exchange of a cacheable method writes, the flush
  call flushes, and nothing else writes or removes on purpose.\<close>

fun cache_ops_of :: "('m, 'h) libs \<Rightarrow> (string \<rightharpoonup> u64) \<Rightarrow> sys_event \<Rightarrow> cache_op list" where
  "cache_ops_of L ttls (EvFinish env f (Inr (status, d, hs))) =
     (if ttl_for ttls (if_method f) \<noteq> 0 \<and> is_success status
      then [Set (t_set env) (cache_key L (if_body f)) d (ttl_for ttls (if_method f))] else [])"
| "cache_ops_of L ttls (EvAdmin Cache_flush) = [Flush]"
| "cache_ops_of L ttls _ = []"

definition trace_cache :: "('m, 'h) libs \<Rightarrow> (string \<rightharpoonup> u64) \<Rightarrow> sys_event list \<Rightarrow> ideal_cache" where
  "trace_cache L ttls es = snd (ideal_run (concat (map (cache_ops_of L ttls) es)) Map.empty)"

lemma ideal_run_append: "snd (ideal_run (xs @ ys) c) = snd (ideal_run ys (snd (ideal_run xs c)))"
  by (induction xs arbitrary: c) (simp_all add: split_beta)

lemma trace_cache_Nil [simp]: "trace_cache L ttls [] = Map.empty"
  by (simp add: trace_cache_def)

lemma trace_cache_snoc: "trace_cache L ttls (es @ [e]) = snd (ideal_run (cache_ops_of L ttls e) (trace_cache L ttls es))"
  by (simp add: trace_cache_def ideal_run_append)

text \<open>An event that writes a slot of the cache, and the entry it writes.\<close>

fun write_of :: "('m, 'h) libs \<Rightarrow> (string \<rightharpoonup> u64) \<Rightarrow> sys_event \<Rightarrow> (u64 \<times> cached_value) option" where
  "write_of L ttls (EvFinish env f (Inr (status, d, hs))) =
     (if ttl_for ttls (if_method f) \<noteq> 0 \<and> is_success status
      then map_option (\<lambda>t. (hash_to_u64 (cache_key L (if_body f)), \<lparr>cv_data = d, expires_at = t\<rparr>))
             (instant_add (t_set env) (ttl_for ttls (if_method f)))
      else None)"
| "write_of L ttls _ = None"

lemma write_of_SomeD:
  assumes "write_of L ttls e = Some (k, v)"
  shows "\<exists>env f status hs. e = EvFinish env f (Inr (status, cv_data v, hs)) \<and> is_success status
    \<and> k = hash_to_u64 (cache_key L (if_body f)) \<and> expires_at v = t_set env + ttl_for ttls (if_method f)"
  using assms
  by (cases "(L, ttls, e)" rule: write_of.cases) (auto dest: instant_add_SomeD split: if_splits)

lemma ideal_of_event:
  "snd (ideal_run (cache_ops_of L ttls e) c) =
     (case write_of L ttls e of
        Some (k, v) \<Rightarrow> c(k \<mapsto> v)
      | None \<Rightarrow> if e = EvAdmin Cache_flush then Map.empty else c)"
  by (cases "(L, ttls, e)" rule: cache_ops_of.cases) (auto split: option.split)

text \<open>What the ideal cache of a trace holds in a slot is the last write to it, and no flush came after.\<close>

lemma trace_cache_SomeD:
  assumes "trace_cache L ttls es k = Some v"
  shows "\<exists>es1 e es2. es = es1 @ e # es2 \<and> write_of L ttls e = Some (k, v)
    \<and> (\<forall>x \<in> set es2. x \<noteq> EvAdmin Cache_flush \<and> (\<forall>w. write_of L ttls x \<noteq> Some (k, w)))"
  using assms
proof (induction es rule: rev_induct)
  case (snoc e es)
  note step = snoc.prems [unfolded trace_cache_snoc ideal_of_event]
  show ?case
  proof (cases "write_of L ttls e = Some (k, v)")
    case True
    then show ?thesis by (intro exI [of _ es] exI [of _ e] exI [of _ "[]"]) simp
  next
    case False
    then have keep: "trace_cache L ttls es k = Some v" "e \<noteq> EvAdmin Cache_flush" "\<forall>w. write_of L ttls e \<noteq> Some (k, w)"
      using step by (auto split: option.splits prod.splits if_splits)
    obtain es1 x es2 where "es = es1 @ x # es2" "write_of L ttls x = Some (k, v)"
      "\<forall>y \<in> set es2. y \<noteq> EvAdmin Cache_flush \<and> (\<forall>w. write_of L ttls y \<noteq> Some (k, w))"
      using snoc.IH [OF keep(1)] by blast
    then show ?thesis using keep(2,3)
      by (intro exI [of _ es1] exI [of _ x] exI [of _ "es2 @ [e]"]) auto
  qed
qed simp

subsection \<open>The cache of the gateway refines it\<close>

definition cache_within :: "('m, 'h) libs \<Rightarrow> 'm app_state \<Rightarrow> ideal_cache \<Rightarrow> bool" where
  "cache_within L st c \<longleftrightarrow> (\<forall>mc. st_cache st = Some mc \<longrightarrow> moka.refines (lib_moka L) mc c)"

lemma cached_within:
  assumes "moka (lib_moka L)" and "cache_within L st c" and "proxy_cached L env m p b st = (r, st1)"
  shows "cache_within L st1 c \<and> (\<forall>x. r = Some x \<longrightarrow>
    (\<exists>v. c (hash_to_u64 (cache_key L b)) = Some v \<and> t_get env < expires_at v \<and> resp_body x = RawBody (cv_data v)))"
proof (cases "st_cache st")
  case None
  then show ?thesis using assms by (auto simp: proxy_cached_def)
next
  case (Some mc)
  obtain a mc' where g: "cache_get (lib_moka L) (t_get env) (cache_key L b) mc = (a, mc')" by fastforce
  note get = moka.refines_get [OF assms(1) _ g]
  show ?thesis
    using assms(2,3) Some g get [of c]
    by (auto simp: proxy_cached_def Let_def cache_within_def split: if_splits option.splits)
qed

lemma within_frame [simp]:
  "cache_within L (record_metrics cs st) c = cache_within L st c"
  "cache_within L (upd_upstream a g st) c = cache_within L st c"
  "cache_within L (st\<lparr>st_pools := ps\<rparr>) c = cache_within L st c"
  "cache_within L (st\<lparr>st_heap := h\<rparr>) c = cache_within L st c"
  by (simp_all add: cache_within_def)

lemma begin_within:
  assumes "moka (lib_moka L)" and "cache_within L st c" and "proxy_begin L env st req = (r, st1)"
  shows "cache_within L st1 c \<and> (\<forall>x. r = Answered x \<and> is_success (resp_status x) \<longrightarrow>
    (\<exists>b v. req_body req = Inr b \<and> c (hash_to_u64 (cache_key L b)) = Some v \<and> t_get env < expires_at v
       \<and> resp_body x = RawBody (cv_data v)))"
proof -
  have fail: "\<not> is_success (resp_status (json_error_response s code msg))" if "400 \<le> s" for s code msg
    using that by (simp add: json_error_response_def is_success_def)
  show ?thesis
    using assms(2,3) cached_within [OF assms(1,2)]
    by (fastforce simp: proxy_begin_def Let_def fail split: sum.splits option.splits prod.splits)
qed

lemma store_within:
  fixes m :: string and ttls :: "string \<rightharpoonup> u64"
  assumes "moka (lib_moka L)" and "cache_within L st c" and "cache_ttl_table st = ttls"
  defines "ttl \<equiv> ttl_for ttls m"
  shows "cache_within L (case proxy_store L env m s b d st of None \<Rightarrow> st | Some st' \<Rightarrow> st')
    (snd (ideal_run (if ttl \<noteq> 0 \<and> is_success s then [Set (t_set env) (cache_key L b) d ttl] else []) c))"
proof (cases "st_cache st")
  case None
  then show ?thesis by (simp add: cache_within_def proxy_store_def)
next
  case (Some mc)
  then have "moka.refines (lib_moka L) mc c" using assms(2) by (simp add: cache_within_def)
  note set = moka.refines_set [OF assms(1) this, of "t_set env" "cache_key L b" d ttl]
  show ?thesis
  proof (cases "ttl \<noteq> 0 \<and> is_success s")
    case True
    then show ?thesis using Some set assms(2)
      by (auto simp: proxy_store_def Let_def ttl_def assms(3) cache_within_def split_beta simp del: ideal_step.simps split: option.splits)
  next
    case False
    then show ?thesis using Some assms(2) by (auto simp: proxy_store_def Let_def ttl_def assms(3))
  qed
qed

lemma snd_case_pair: "snd (case x of None \<Rightarrow> (a, b) | Some y \<Rightarrow> (c, y)) = (case x of None \<Rightarrow> b | Some y \<Rightarrow> y)"
  by (simp split: option.split)

lemma finish_state:
  fixes f :: in_flight and st :: "'m app_state"
  defines "st1 \<equiv> upd_upstream (if_upstream f) decrement_connection_count st"
  shows "\<exists>cs. snd (proxy_finish L env f (Inr (s, d, hs)) st) =
    (case proxy_store L env (if_method f) s (if_body f) d (record_metrics cs st1) of
       None \<Rightarrow> record_metrics cs st1 | Some st3 \<Rightarrow> st3)"
  unfolding proxy_finish_def Let_def st1_def sum.case prod.case
  by (rule exI) (rule snd_case_pair)

lemma finish_within:
  assumes "moka (lib_moka L)" and "cache_within L st c" and "proxy_finish L env f result st = (out, st1)"
  shows "cache_within L st1 (snd (ideal_run (cache_ops_of L (cache_ttl_table st) (EvFinish env f result)) c))"
proof (cases result)
  case (Inl e)
  then show ?thesis using assms(2,3) by (auto simp: proxy_finish_def Let_def)
next
  case (Inr x)
  obtain s d hs where x: "x = (s, d, hs)" by (metis prod_cases3)
  let ?st2 = "\<lambda>cs. record_metrics cs (upd_upstream (if_upstream f) decrement_connection_count st)"
  have "cache_within L (case proxy_store L env (if_method f) s (if_body f) d (?st2 cs) of None \<Rightarrow> ?st2 cs | Some st3 \<Rightarrow> st3)
      (snd (ideal_run (cache_ops_of L (cache_ttl_table st) (EvFinish env f result)) c))" for cs
    using store_within [OF assms(1), of "?st2 cs" c "cache_ttl_table st" env "if_method f" s "if_body f" d] assms(2)
    unfolding Inr x cache_ops_of.simps by simp
  moreover obtain cs where "st1 = (case proxy_store L env (if_method f) s (if_body f) d (?st2 cs) of
      None \<Rightarrow> ?st2 cs | Some st3 \<Rightarrow> st3)"
    using finish_state [of L env f s d hs st] assms(3) by (auto simp: Inr x)
  ultimately show ?thesis by simp
qed

lemma admin_cache:
  assumes "admin_handle L jp env r caps st req = (out, st1)"
  shows "st_cache st1 = (if r = Cache_flush then map_option (cache_flush (lib_moka L)) (st_cache st) else st_cache st)
    \<and> cache_ttl_table st1 = cache_ttl_table st"
  using assms
  by (cases r)
    (auto simp: admin_defs set_upstream_health_def Let_def
      split: option.splits sum.splits prod.splits list.splits bool.splits if_splits)

lemma step_ttls:
  assumes "sys_step L s e s'"
  shows "cache_ttl_table (sy_state s') = cache_ttl_table (sy_state s)"
  using assms
proof cases
  case (begin_forward env req f st1)
  then show ?thesis using proxy_begin_frame(3) [of L env "sy_state s" req] by simp
next
  case (begin_answer env req r st1)
  then show ?thesis using proxy_begin_frame(3) [of L env "sy_state s" req] by simp
next
  case (finish f env result out st1)
  then show ?thesis using proxy_finish_frame(4) [of L env f result "sy_state s"] by simp
next
  case (admin jp env r caps req out st1)
  then show ?thesis using admin_cache [OF admin(3)] by simp
qed (auto dest!: charged_core simp: same_core_def)

lemma step_within:
  assumes "moka (lib_moka L)" and "sys_step L s e s'" and "cache_within L (sy_state s) c"
  shows "cache_within L (sy_state s') (snd (ideal_run (cache_ops_of L (cache_ttl_table (sy_state s)) e) c))"
  using assms(2)
proof cases
  case (begin_forward env req f st1)
  then show ?thesis using begin_within [OF assms(1,3)] by simp
next
  case (begin_answer env req r st1)
  then show ?thesis using begin_within [OF assms(1,3)] by simp
next
  case (finish f env result out st1)
  then show ?thesis using finish_within [OF assms(1,3)] by simp
next
  case (admin jp env r caps req out st1)
  then show ?thesis
    using admin_cache [OF admin(3)] assms(3) moka.refines_flush [OF assms(1)]
    by (cases r) (auto simp: cache_within_def)
qed (use assms(3) in \<open>auto dest!: charged_core simp: cache_within_def same_core_def\<close>)

lemma run_within:
  assumes "moka (lib_moka L)" and "sys_run L s es s'" and "cache_within L (sy_state s) Map.empty"
  shows "cache_ttl_table (sy_state s') = cache_ttl_table (sy_state s)
    \<and> cache_within L (sy_state s') (trace_cache L (cache_ttl_table (sy_state s)) es)"
  using assms(2,3)
proof (induction rule: sys_run.induct)
  case (run_snoc s es s1 e s2)
  then show ?case using step_within [OF assms(1) run_snoc.hyps(2)] step_ttls [OF run_snoc.hyps(2)]
    by (auto simp: trace_cache_snoc)
qed simp

text \<open>C3. The response cache is exact under every interleaving: whenever a request is answered with a 2xx
  status without contacting an upstream, its body is that of a successful exchange that finished earlier
  in the trace, for a request in the same cache slot, whose time to live has not passed; since then the
  cache was not flushed and no other successful exchange wrote the slot. Evictions can only turn hits
  into misses, and the body of an error is never served.\<close>

theorem cached_answers_are_latest_fresh_success:
  assumes "moka (lib_moka L)" and "st_cache st = Some (memory_cache_new (lib_moka L) mb)"
    and "sys_run L (sys_init st) (es @ [EvAnswer env req r]) s" and "is_success (resp_status r)"
  shows "\<exists>body es1 fenv f status d hs es2. req_body req = Inr body \<and> resp_body r = RawBody d
    \<and> es = es1 @ EvFinish fenv f (Inr (status, d, hs)) # es2 \<and> is_success status
    \<and> hash_to_u64 (cache_key L (if_body f)) = hash_to_u64 (cache_key L body)
    \<and> t_get env < t_set fenv + ttl_for (cache_ttl_table st) (if_method f)
    \<and> (\<forall>x \<in> set es2. x \<noteq> EvAdmin Cache_flush
        \<and> (\<forall>v. write_of L (cache_ttl_table st) x \<noteq> Some (hash_to_u64 (cache_key L body), v)))"
proof -
  obtain s1 where run: "sys_run L (sys_init st) es s1" and step: "sys_step L s1 (EvAnswer env req r) s"
    using assms(3) by (rule sys_run_snocE) auto
  have "cache_within L st Map.empty"
    using assms(2) moka.refines_new [OF assms(1)] by (simp add: cache_within_def)
  then have within: "cache_within L (sy_state s1) (trace_cache L (cache_ttl_table st) es)"
    using run_within [OF assms(1) run] by (simp add: sys_init_def)
  obtain st1 where "proxy_begin L env (sy_state s1) req = (Answered r, st1)"
    using step by (rule sys_step_elim) auto
  from begin_within [OF assms(1) within this] assms(4)
  obtain body v where v: "req_body req = Inr body" "t_get env < expires_at v" "resp_body r = RawBody (cv_data v)"
    and slot: "trace_cache L (cache_ttl_table st) es (hash_to_u64 (cache_key L body)) = Some v"
    by blast
  obtain es1 e es2 where es: "es = es1 @ e # es2"
    and e: "write_of L (cache_ttl_table st) e = Some (hash_to_u64 (cache_key L body), v)"
    and later: "\<forall>x \<in> set es2. x \<noteq> EvAdmin Cache_flush
      \<and> (\<forall>w. write_of L (cache_ttl_table st) x \<noteq> Some (hash_to_u64 (cache_key L body), w))"
    using trace_cache_SomeD [OF slot] by blast
  show ?thesis using v es later write_of_SomeD [OF e] by metis
qed

text \<open>A run in which the first request fills the cache and the second is answered from it.\<close>

definition ok_env :: proxy_env where
  "ok_env = sample_env (UpstreamResponse 200 [] (Inr [5]))"

definition first_flight :: in_flight where
  "first_flight = \<lparr>if_method = ''getHealth'', if_pool = ''main'', if_upstream = 0, if_body = [1], if_start = 0\<rparr>"

definition cached_ok :: response where
  "cached_ok = \<lparr>resp_status = 200, resp_headers = [(''content-type'', as_bytes ''application/json'')], resp_body = RawBody [5]\<rparr>"

lemma ttl_sample [simp]: "ttl_for [''getHealth'' \<mapsto> 5] ''getHealth'' = 5000000000"
  by (simp add: ttl_for_def from_secs_def nanos_per_sec_def)

lemma first_begin:
  "\<exists>st1. proxy_begin sample_libs ok_env sample_state (sample_request [1]) = (Forwarding first_flight, st1)
    \<and> st_cache st1 = Some \<lparr>mc_cache = (1024, []), hit_count = 0, miss_count = 1, eviction_count = 0\<rparr>
    \<and> cache_ttl_table st1 = [''getHealth'' \<mapsto> 5]"
  by (simp add: proxy_begin_def extract_json_rpc_method_def route_def Let_def split_beta ok_env_def proxy_cached_def
      healthy_upstreams_def select_upstream_def select_def cache_get_def memory_cache_new_def first_flight_def fifo_ops_def)

lemma sample_key: "cache_key sample_libs b = [7]"
  by (simp add: cache_key_def compute_cache_key_def) (simp add: sample_libs_def plain_crypto_def)

lemma first_finish:
  assumes "st_cache st1 = Some \<lparr>mc_cache = (1024, []), hit_count = 0, miss_count = 1, eviction_count = 0\<rparr>"
    and "cache_ttl_table st1 = [''getHealth'' \<mapsto> 5]"
  shows "\<exists>out st2. proxy_finish sample_libs ok_env first_flight (Inr (200, [5], [])) st1 = (out, st2)
    \<and> st_cache st2 = Some \<lparr>mc_cache = (1024, [(hash_to_u64 [7], \<lparr>cv_data = [5], expires_at = 5000000000\<rparr>)]),
         hit_count = 0, miss_count = 1, eviction_count = 0\<rparr>
    \<and> cache_ttl_table st2 = [''getHealth'' \<mapsto> 5]"
  using assms
  by (simp add: proxy_finish_def first_flight_def Let_def proxy_store_def is_success_def cache_set_def instant_add_def
      ok_env_def nanos_per_sec_def sample_key fifo_ops_def)

lemma second_answer:
  assumes "st_cache st = Some \<lparr>mc_cache = (1024, [(hash_to_u64 [7], \<lparr>cv_data = [5], expires_at = 5000000000\<rparr>)]),
         hit_count = 0, miss_count = 1, eviction_count = 0\<rparr>"
    and "cache_ttl_table st = [''getHealth'' \<mapsto> 5]"
  shows "\<exists>st1. proxy_begin sample_libs ok_env st (sample_request [2]) = (Answered cached_ok, st1)"
  using assms
  by (simp add: proxy_begin_def extract_json_rpc_method_def Let_def proxy_cached_def cache_get_def sample_key fifo_ops_def
      cached_ok_def ok_env_def sample_env_def)

lemma cached_run:
  "\<exists>s. sys_run sample_libs (sys_init sample_state)
     ([EvBegin, EvFinish ok_env first_flight (Inr (200, [5], []))] @ [EvAnswer ok_env (sample_request [2]) cached_ok]) s"
proof -
  let ?s = "sys_init sample_state"
  obtain st1 where b: "proxy_begin sample_libs ok_env sample_state (sample_request [1]) = (Forwarding first_flight, st1)"
    and st1: "st_cache st1 = Some \<lparr>mc_cache = (1024, []), hit_count = 0, miss_count = 1, eviction_count = 0\<rparr>"
      "cache_ttl_table st1 = [''getHealth'' \<mapsto> 5]"
    using first_begin by blast
  obtain out st2 where f: "proxy_finish sample_libs ok_env first_flight (Inr (200, [5], [])) st1 = (out, st2)"
    and st2: "\<exists>st3. proxy_begin sample_libs ok_env st2 (sample_request [2]) = (Answered cached_ok, st3)"
    using first_finish [OF st1] second_answer by blast
  let ?s1 = "?s\<lparr>sy_state := st1, sy_flights := add_mset first_flight (sy_flights ?s)\<rparr>"
  let ?s2 = "?s1\<lparr>sy_state := st2, sy_flights := sy_flights ?s1 - {#first_flight#}\<rparr>"
  have 1: "sys_step sample_libs ?s EvBegin ?s1" using b by (intro begin_forward) (simp add: sys_init_def)
  have 2: "sys_step sample_libs ?s1 (EvFinish ok_env first_flight (Inr (200, [5], []))) ?s2"
    using f by (intro finish) simp_all
  obtain s3 where 3: "sys_step sample_libs ?s2 (EvAnswer ok_env (sample_request [2]) cached_ok) s3"
    using st2 begin_answer [of sample_libs ok_env ?s2] by fastforce
  from sys_run_Cons [OF 1 sys_run_Cons [OF 2 sys_run_one [OF 3]]] show ?thesis by auto
qed

theorem cached_answers_are_latest_fresh_success_witness:
  "\<exists>s fenv f status hs. sys_run sample_libs (sys_init sample_state)
      ([EvBegin, EvFinish ok_env first_flight (Inr (200, [5], []))] @ [EvAnswer ok_env (sample_request [2]) cached_ok]) s
    \<and> EvFinish fenv f (Inr (status, [5], hs)) \<in> set [EvBegin, EvFinish ok_env first_flight (Inr (200, [5], []))]
    \<and> is_success status"
proof -
  obtain s where run: "sys_run sample_libs (sys_init sample_state)
      ([EvBegin, EvFinish ok_env first_flight (Inr (200, [5], []))] @ [EvAnswer ok_env (sample_request [2]) cached_ok]) s"
    using cached_run by blast
  have "moka (lib_moka sample_libs)" "st_cache sample_state = Some (memory_cache_new (lib_moka sample_libs) 1)"
    "is_success (resp_status cached_ok)" "resp_body cached_ok = RawBody [5]"
    using fifo.moka_axioms by (simp_all add: cached_ok_def is_success_def)
  from cached_answers_are_latest_fresh_success [OF this(1,2) run this(3)] this(4)
  obtain es1 fenv f status hs es2 where
    "[EvBegin, EvFinish ok_env first_flight (Inr (200, [5], []))] = es1 @ EvFinish fenv f (Inr (status, [5], hs)) # es2"
    "is_success status" by fastforce
  then show ?thesis using run by (metis in_set_conv_decomp)
qed

end
