(* ===== verification/Gate_Invariants.thy ===== *)
theory Gate_Invariants
  imports Gate_Trace
begin

text \<open>
  Invariants of the running gateway. Locale \<open>system_invariant\<close> is the contract of a property of the
  shared state that every step keeps; from it follow, once and for all, that every run, every sequence of
  requests through the router, every administration call and the health-check task keep it. The
  well-formedness of the gateway is made of five such properties: the parts that never change, the
  upstreams, the requests in flight, the stored keys and the token buckets. The last section accounts for
  what the request metrics count.
\<close>

locale system_invariant =
  fixes L :: "('m, 'h) libs" and Inv :: "'m sys \<Rightarrow> bool"
  assumes step_keeps: "sys_step L s e s' \<Longrightarrow> Inv s \<Longrightarrow> Inv s'"
begin

lemma run_keeps: "sys_run L s es s' \<Longrightarrow> Inv s \<Longrightarrow> Inv s'"
  by (rule sys_run_invariant [where P = "\<lambda>_. True" and I = Inv]) (auto intro: step_keeps)

lemma entry_points_keep:
  assumes "Inv s"
  shows "Inv (s\<lparr>sy_state := snd (server_run L (sy_state s) xs)\<rparr>)"
    and "Inv (s\<lparr>sy_state := snd (admin_app L path_match jp env (sy_state s) req)\<rparr>)"
    and "Inv (with_heap (snd (run_health_checks interval_panics (check_upstream tv uo bo (cfg_health_check (st_config (sy_state s))))
        (st_pools (sy_state s)) (cfg_health_check (st_config (sy_state s))) skip first rounds (st_heap (sy_state s)))) s)"
  using run_keeps assms server_run_is_run [of L s xs] admin_app_is_run [of L s path_match jp env req]
    health_checks_are_run [of L s interval_panics tv uo bo skip first rounds]
  by blast+

end

lemma system_invariant_conj:
  "system_invariant L I \<Longrightarrow> system_invariant L J \<Longrightarrow> system_invariant L (\<lambda>s. I s \<and> J s)"
  by (auto simp: system_invariant_def)

subsection \<open>What never changes\<close>

definition shape :: "upstream_pool \<Rightarrow> string \<times> load_balancing_algorithm \<times> arc list" where
  "shape p = (up_name p, up_algorithm p, up_upstreams p)"

definition identity :: "upstream_state \<Rightarrow> string \<times> string \<times> u32 \<times> u32 option" where
  "identity u = (us_pool_name u, us_url u, us_weight u, us_max_connections u)"

text \<open>Configuration, routes, times to live and tiers, the shape of the pools, which optional parts exist,
  and who each upstream is.\<close>

definition same_fixed :: "'m app_state \<Rightarrow> 'm app_state \<Rightarrow> bool" where
  "same_fixed st st' \<longleftrightarrow>
     st_config st' = st_config st \<and> st_router st' = st_router st
   \<and> cache_ttl_table st' = cache_ttl_table st \<and> auth_tiers st' = auth_tiers st
   \<and> map shape (st_pools st') = map shape (st_pools st)
   \<and> (st_cache st' = None \<longleftrightarrow> st_cache st = None) \<and> (st_rate_limiter st' = None \<longleftrightarrow> st_rate_limiter st = None)
   \<and> (st_key_store st' = None \<longleftrightarrow> st_key_store st = None) \<and> (st_metrics st' = None \<longleftrightarrow> st_metrics st = None)
   \<and> (\<forall>a. identity (st_heap st' a) = identity (st_heap st a))"

lemma same_fixed_refl [simp]: "same_fixed st st"
  by (simp add: same_fixed_def)

lemma same_fixed_trans: "same_fixed a b \<Longrightarrow> same_fixed b c \<Longrightarrow> same_fixed a c"
  by (simp add: same_fixed_def)

lemma identity_simps [simp]:
  "identity (increment_connection_count u) = identity u" "identity (decrement_connection_count u) = identity u"
  "identity (upd_mutable g u) = identity u" "identity (upd_breaker h u) = identity u"
  "identity (apply_probe hc pr u) = identity u"
  by (simp_all add: identity_def increment_connection_count_def decrement_connection_count_def upd_breaker_def
      upd_mutable_def apply_probe_def Let_def)

lemma identity_step: "sys_step L s e s' \<Longrightarrow> identity (st_heap (sy_state s') a) = identity (st_heap (sy_state s) a)"
  using step_upstream [of L s e s' a] by (auto simp: upstream_of_def)

lemma select_upstream_shape: "shape (snd (select_upstream h r p)) = shape p"
  by (simp add: shape_def select_upstream_frame)

lemma select_in_pool_shape:
  "select_in_pool h r name ps = Some (u, ps') \<Longrightarrow> map shape ps' = map shape ps"
proof (induction ps arbitrary: ps')
  case (Cons p ps)
  then show ?case using select_upstream_shape [of h r p] by (auto split: if_splits prod.splits)
qed simp

lemma begin_fixed:
  "map shape (st_pools (snd (proxy_begin L env st req))) = map shape (st_pools st)"
  "st_cache (snd (proxy_begin L env st req)) = None \<longleftrightarrow> st_cache st = None"
  "st_metrics (snd (proxy_begin L env st req)) = None \<longleftrightarrow> st_metrics st = None"
  by (auto simp: proxy_begin_def proxy_cached_def Let_def split_beta dest: select_in_pool_shape
      split: option.splits sum.splits prod.splits if_splits)

lemma finish_fixed:
  "st_cache (snd (proxy_finish L env f result st)) = None \<longleftrightarrow> st_cache st = None"
  "st_metrics (snd (proxy_finish L env f result st)) = None \<longleftrightarrow> st_metrics st = None"
  by (auto simp: proxy_finish_def proxy_store_def Let_def split: option.splits sum.splits prod.splits if_splits)

lemma admin_fixed:
  assumes "admin_handle L jp env r caps st req = (out, st1)"
  shows "st_config st1 = st_config st \<and> st_router st1 = st_router st \<and> auth_tiers st1 = auth_tiers st
    \<and> st_pools st1 = st_pools st \<and> st_rate_limiter st1 = st_rate_limiter st \<and> st_metrics st1 = st_metrics st
    \<and> (st_key_store st1 = None \<longleftrightarrow> st_key_store st = None)"
  using assms
  by (cases r)
    (auto simp: admin_defs set_upstream_health_def Let_def
      split: option.splits sum.splits prod.splits list.splits bool.splits if_splits)

lemma charged_fixed: "charged L st st' \<Longrightarrow> same_fixed st st'"
  by (induction rule: charged.induct) (simp_all add: same_fixed_def)

lemma step_fixed:
  assumes "sys_step L s e s'"
  shows "same_fixed (sy_state s) (sy_state s')"
  using assms
proof cases
  case (begin_forward env req f st1)
  then show ?thesis using identity_step [OF assms] begin_fixed [of L env "sy_state s" req] proxy_begin_frame [of L env "sy_state s" req]
    by (simp add: same_fixed_def)
next
  case (begin_answer env req r st1)
  then show ?thesis using identity_step [OF assms] begin_fixed [of L env "sy_state s" req] proxy_begin_frame [of L env "sy_state s" req]
    by (simp add: same_fixed_def)
next
  case (finish f env result out st1)
  then show ?thesis
    using identity_step [OF assms] finish_fixed [of L env f result "sy_state s"] proxy_finish_frame [of L env f result "sy_state s"]
    by (simp add: same_fixed_def)
next
  case (admin jp env r caps req out st1)
  then show ?thesis using identity_step [OF assms] admin_fixed [OF admin(3)] admin_cache [OF admin(3)]
    by (simp add: same_fixed_def)
next
  case (middlewares st1)
  then show ?thesis using charged_fixed by simp
qed (use identity_step [OF assms] in \<open>simp_all add: same_fixed_def\<close>)

interpretation fixed_inv: system_invariant L "\<lambda>s. same_fixed st (sy_state s)" for L st
  by unfold_locales (auto intro: same_fixed_trans step_fixed)

subsection \<open>Upstreams\<close>

text \<open>The breaker has its built-in threshold and cooldown and is below the threshold while closed, and
  successes and failures of probes are never both being counted.\<close>

definition upstream_ok :: "upstream_state \<Rightarrow> bool" where
  "upstream_ok u \<longleftrightarrow>
     failure_threshold (breaker (us_mutable u)) = 5 \<and> cooldown (breaker (us_mutable u)) = from_secs 30
   \<and> cb_ok (breaker (us_mutable u))
   \<and> (consecutive_successes (us_mutable u) = 0 \<or> consecutive_failures (us_mutable u) = 0)"

lemma upstream_ok_new [simp]: "upstream_ok (upstream_new t n url w mc)"
  by (simp add: upstream_ok_def upstream_new_def cb_new_def cb_ok_def)

lemma upstream_ok_cb_step:
  "upstream_ok u \<Longrightarrow> upstream_ok (upd_breaker (\<lambda>cb. cb_step cb e) u)"
  using cb_ok_step [of "breaker (us_mutable u)" e] by (simp add: upstream_ok_def upd_breaker_def upd_mutable_def)

lemma upstream_ok_probe:
  assumes "upstream_ok u"
  shows "upstream_ok (apply_probe hc pr u)"
proof -
  have "upstream_ok (upd_breaker (try_half_open (pr_t_elapsed pr) (pr_t_now pr)) u)"
    using upstream_ok_cb_step [OF assms, of "Tick (pr_t_elapsed pr) (pr_t_now pr)"] by simp
  then show ?thesis
    by (auto simp: upstream_ok_def apply_probe_breaker upd_breaker_def upd_mutable_def apply_probe_def Let_def)
qed

lemma upstream_ok_admin:
  assumes "upstream_ok u"
  shows "upstream_ok (upd_mutable (\<lambda>m. m\<lparr>health := x\<rparr>) u)"
    and "upstream_ok (upd_mutable (\<lambda>m. m\<lparr>health := x, breaker := cb_new now 5 (from_secs 30)\<rparr>) u)"
    and "upstream_ok (increment_connection_count u)" and "upstream_ok (decrement_connection_count u)"
  using assms
  by (auto simp: upstream_ok_def upd_mutable_def cb_new_def cb_ok_def increment_connection_count_def decrement_connection_count_def)

lemma upstream_ok_failure: "upstream_ok u \<Longrightarrow> upstream_ok (upd_breaker (record_failure t) (decrement_connection_count u))"
  using upstream_ok_cb_step [of "decrement_connection_count u" "Fail t"] by (simp add: upstream_ok_admin)

interpretation upstream_inv: system_invariant L "\<lambda>s. upstream_ok (st_heap (sy_state s) a)" for L a
proof
  fix s s' :: "'a sys" and e
  assume "sys_step L s e s'" and "upstream_ok (st_heap (sy_state s) a)"
  then show "upstream_ok (st_heap (sy_state s') a)"
    using step_upstream [of L s e s' a] upstream_ok_probe upstream_ok_admin upstream_ok_failure
    by (auto simp: upstream_of_def)
qed

subsection \<open>Requests in flight\<close>

text \<open>A request in flight goes to an upstream of the pool that its method is routed to.\<close>

definition flight_ok :: "'m app_state \<Rightarrow> in_flight \<Rightarrow> bool" where
  "flight_ok st f \<longleftrightarrow> if_pool f = route (st_router st) (if_method f)
   \<and> (\<exists>p \<in> set (st_pools st). up_name p = if_pool f \<and> if_upstream f \<in> set (up_upstreams p))"

lemma shape_mem:
  assumes "map shape ps' = map shape ps" and "p \<in> set ps"
  shows "\<exists>p' \<in> set ps'. shape p' = shape p"
proof -
  have "shape p \<in> shape ` set ps'" using assms by (metis image_eqI image_set)
  then show ?thesis by auto
qed

lemma flight_ok_fixed: "same_fixed st st' \<Longrightarrow> flight_ok st f \<Longrightarrow> flight_ok st' f"
  using shape_mem [of "st_pools st'" "st_pools st"] by (fastforce simp: same_fixed_def flight_ok_def shape_def)

lemma step_flights:
  assumes "sys_step L s e s'" and "f \<in># sy_flights s'"
  shows "f \<in># sy_flights s \<or> flight_ok (sy_state s) f"
  using assms
proof cases
  case (begin_forward env req g st1)
  then show ?thesis using assms(2) proxy_begin_Forwarding [OF begin_forward(3)] by (auto simp: flight_ok_def)
qed (auto dest: in_diffD)

interpretation flight_inv: system_invariant L "\<lambda>s. \<forall>f \<in># sy_flights s. flight_ok (sy_state s) f" for L
proof
  fix s s' :: "'a sys" and e
  assume "sys_step L s e s'" and "\<forall>f \<in># sy_flights s. flight_ok (sy_state s) f"
  then show "\<forall>f \<in># sy_flights s'. flight_ok (sy_state s') f"
    using step_flights [of L s e s'] flight_ok_fixed [OF step_fixed [of L s e s']] by blast
qed

subsection \<open>Stored keys\<close>

definition keys_ok :: "'m app_state \<Rightarrow> bool" where
  "keys_ok st \<longleftrightarrow> (case st_key_store st of None \<Rightarrow> True | Some (SqliteStore t) \<Rightarrow> ids_unique t)"

text \<open>The administration API changes the key table only by one operation of the store.\<close>

definition key_stepped :: "('m, 'h) libs \<Rightarrow> 'm app_state \<Rightarrow> 'm app_state \<Rightarrow> bool" where
  "key_stepped L st st' \<longleftrightarrow> st_key_store st' = st_key_store st
   \<or> (\<exists>t x. st_key_store st = Some (SqliteStore t) \<and> st_key_store st' = Some (SqliteStore (key_step (lib_crypto L) x t)))"

lemma key_steppedI:
  "st_key_store st = Some (SqliteStore t) \<Longrightarrow> d = SqliteStore (key_step (lib_crypto L) x t) \<Longrightarrow>
   key_stepped L st (st\<lparr>st_key_store := Some d\<rparr>)"
  by (auto simp: key_stepped_def)

lemma create_handler_keys: "key_stepped L st (snd (keys_create_handler L env st payload))"
proof (cases "st_key_store st")
  case None
  then show ?thesis by (simp add: keys_create_handler_def key_stepped_def Let_def split: option.split)
next
  case (Some d)
  obtain t where d: "d = SqliteStore t" by (cases d)
  have "key_stepped L st (st\<lparr>st_key_store := Some (snd (dispatch_create_key (lib_crypto L) (adm_fault env)
      (adm_salt env) (adm_clock env) k tier label d))\<rparr>)" for k tier label
    by (rule key_steppedI [where x = "CreateKey (adm_fault env, adm_salt env, adm_clock env) k tier label"]) (simp_all add: Some d)
  moreover have "key_stepped L st st" by (simp add: key_stepped_def)
  ultimately show ?thesis
    by (simp add: keys_create_handler_def Some Let_def split_beta split: option.split sum.split)
qed

lemma delete_handler_keys: "key_stepped L st (snd (keys_delete_handler env st i))"
proof (cases "st_key_store st")
  case None
  then show ?thesis by (simp add: keys_delete_handler_def key_stepped_def)
next
  case (Some d)
  obtain t where d: "d = SqliteStore t" by (cases d)
  have "key_stepped L st (st\<lparr>st_key_store := Some (snd (dispatch_revoke_key (adm_fault env) i d))\<rparr>)"
    by (rule key_steppedI [where x = "RevokeKey (adm_fault env, [], None) i"]) (simp_all add: Some d)
  then show ?thesis by (simp add: keys_delete_handler_def Some Let_def split_beta split: sum.split bool.split)
qed

lemma admin_keys:
  assumes "admin_handle L jp env r caps st req = (out, st1)"
  shows "key_stepped L st st1"
proof -
  have refl: "key_stepped L st st" by (simp add: key_stepped_def)
  consider "r = Keys_create" | "r = Keys_delete" | "st_key_store st1 = st_key_store st"
    using assms by (cases r) (auto simp: admin_defs set_upstream_health_def Let_def split: option.splits list.splits sum.splits)
  then show ?thesis
  proof cases
    case 1
    then show ?thesis using assms refl create_handler_keys [of L st env]
      by (auto split: sum.splits prod.splits option.splits) (metis snd_conv)+
  next
    case 2
    then show ?thesis using assms refl delete_handler_keys [of L st env]
      by (auto simp: some_answer_def with_capture_def split: list.splits)
  qed (simp add: key_stepped_def)
qed

lemma step_keys_frame:
  assumes "sys_step L s e s'"
  shows "key_stepped L (sy_state s) (sy_state s')"
  using assms
proof cases
  case (begin_forward env req f st1)
  then show ?thesis using proxy_begin_frame(5) [of L env "sy_state s" req] by (simp add: key_stepped_def)
next
  case (begin_answer env req r st1)
  then show ?thesis using proxy_begin_frame(5) [of L env "sy_state s" req] by (simp add: key_stepped_def)
next
  case (finish f env result out st1)
  then show ?thesis using proxy_finish_frame(6) [of L env f result "sy_state s"] by (simp add: key_stepped_def)
next
  case (admin jp env r caps req out st1)
  then show ?thesis using admin_keys [OF admin(3)] by simp
qed (auto dest!: charged_core simp: same_core_def key_stepped_def)

interpretation keys_inv: system_invariant L "\<lambda>s. keys_ok (sy_state s)" for L
proof
  fix s s' :: "'a sys" and e
  assume "sys_step L s e s'" and "keys_ok (sy_state s)"
  then show "keys_ok (sy_state s')"
    using step_keys_frame [of L s e s'] ids_unique_step by (fastforce simp: keys_ok_def key_stepped_def)
qed

subsection \<open>Token buckets\<close>

text \<open>The rate and burst that the gateway uses for a bucket, as a table over bucket names.\<close>

definition rate_table :: "'m app_state \<Rightarrow> string \<Rightarrow> u32 \<times> u32" where
  "rate_table st k =
     (let fallback = (ip_fallback_rps (cfg_rate_limit (st_config st)), ip_fallback_burst (cfg_rate_limit (st_config st)))
      in if take 5 k = ''tier:''
         then case auth_tiers st (drop 5 k) of Some t \<Rightarrow> (requests_per_second t, kt_burst t) | None \<Rightarrow> fallback
         else fallback)"

definition tiers_named :: "'m app_state \<Rightarrow> bool" where
  "tiers_named st \<longleftrightarrow> (\<forall>n t. auth_tiers st n = Some t \<longrightarrow> kt_name t = n)"

definition buckets_ok :: "'m app_state \<Rightarrow> bool" where
  "buckets_ok st \<longleftrightarrow> (case st_rate_limiter st of None \<Rightarrow> True | Some (MemoryLimiter l) \<Rightarrow> limiter_ok (rate_table st) l)"

lemma rate_params_table:
  assumes "tiers_named st" and "rate_params L st req = (k, rps, burst)"
  shows "rate_table st k = (rps, burst)"
  using assms
  by (auto simp: rate_params_def rate_table_def tiers_named_def Let_def split: option.splits)

lemma rate_table_cong:
  "st_config st' = st_config st \<Longrightarrow> auth_tiers st' = auth_tiers st \<Longrightarrow> rate_table st' = rate_table st"
  by (intro ext) (simp only: rate_table_def)

lemma rate_table_fixed: "same_fixed st st' \<Longrightarrow> rate_table st' = rate_table st"
  by (rule rate_table_cong) (simp_all add: same_fixed_def)

lemma buckets_ok_check:
  assumes "buckets_ok st" and "tiers_named st" and "st_rate_limiter st = Some d" and "rate_params L st req = (k, rps, burst)"
    and "dispatch_check_rate now k rps burst d = (r, d')"
  shows "buckets_ok (st\<lparr>st_rate_limiter := Some d'\<rparr>)"
proof -
  obtain l where d: "d = MemoryLimiter l" by (cases d)
  have "limiter_ok (rate_table st) l" using assms(1,3) by (simp add: buckets_ok_def d)
  then have "limiter_ok (rate_table st) (snd (check_rate now k rps burst l))"
    using limiter_ok_check [of "rate_table st" l now k rps] rate_params_table [OF assms(2,4)] by simp
  moreover have "d' = MemoryLimiter (snd (check_rate now k rps burst l))" using assms(5) by (simp add: d split_beta)
  moreover have "rate_table (st\<lparr>st_rate_limiter := Some d'\<rparr>) = rate_table st" by (rule rate_table_cong) simp_all
  ultimately show ?thesis by (simp add: buckets_ok_def)
qed

lemma buckets_ok_frame:
  "st_rate_limiter st' = st_rate_limiter st \<Longrightarrow> rate_table st' = rate_table st \<Longrightarrow> buckets_ok st' = buckets_ok st"
  by (simp only: buckets_ok_def)

lemma buckets_ok_charged: "charged L st st' \<Longrightarrow> tiers_named st \<Longrightarrow> buckets_ok st \<Longrightarrow> buckets_ok st' \<and> tiers_named st'"
proof (induction rule: charged.induct)
  case (charged_pass st st1 limiter req k rps burst now u limiter')
  then have ok: "buckets_ok st1" and named: "tiers_named st1" by blast+
  from buckets_ok_check [OF ok named charged_pass.hyps(2-4)] show ?case using named by (simp add: tiers_named_def)
next
  case (charged_reject st st1 limiter req k rps burst now e limiter' l)
  let ?st2 = "st1\<lparr>st_rate_limiter := Some limiter'\<rparr>"
  have ok: "buckets_ok st1" and named: "tiers_named st1" using charged_reject by blast+
  have "rate_table (record_metrics cs ?st2) = rate_table ?st2" for cs by (rule rate_table_cong) simp_all
  then have "buckets_ok (record_metrics cs ?st2)" for cs
    using buckets_ok_check [OF ok named charged_reject.hyps(2-4)] buckets_ok_frame [of "record_metrics cs ?st2" ?st2] by simp
  then show ?case using named by (simp add: tiers_named_def)
qed simp

lemma step_limiter:
  assumes "sys_step L s e s'"
  shows "st_rate_limiter (sy_state s') = st_rate_limiter (sy_state s) \<or> charged L (sy_state s) (sy_state s')"
  using assms
proof cases
  case (begin_forward env req f st1)
  then show ?thesis using proxy_begin_frame(4) [of L env "sy_state s" req] by simp
next
  case (begin_answer env req r st1)
  then show ?thesis using proxy_begin_frame(4) [of L env "sy_state s" req] by simp
next
  case (finish f env result out st1)
  then show ?thesis using proxy_finish_frame(5) [of L env f result "sy_state s"] by simp
next
  case (admin jp env r caps req out st1)
  then show ?thesis using admin_fixed [OF admin(3)] by simp
qed auto

interpretation bucket_inv: system_invariant L "\<lambda>s. tiers_named (sy_state s) \<and> buckets_ok (sy_state s)" for L
proof
  fix s s' :: "'a sys" and e
  assume step: "sys_step L s e s'" and I: "tiers_named (sy_state s) \<and> buckets_ok (sy_state s)"
  have fixed: "same_fixed (sy_state s) (sy_state s')" by (rule step_fixed [OF step])
  then have "tiers_named (sy_state s')" using I by (simp add: tiers_named_def same_fixed_def)
  moreover have "buckets_ok (sy_state s')"
    using step_limiter [OF step] buckets_ok_charged I buckets_ok_frame rate_table_fixed [OF fixed] by metis
  ultimately show "tiers_named (sy_state s') \<and> buckets_ok (sy_state s')" by blast
qed

subsection \<open>The whole gateway\<close>

text \<open>The identities of the upstreams, pool by pool.\<close>

definition roster :: "'m app_state \<Rightarrow> (string \<times> string \<times> u32 \<times> u32 option) list list" where
  "roster st = map (\<lambda>p. map (\<lambda>a. identity (st_heap st a)) (up_upstreams p)) (st_pools st)"

definition configured_roster :: "config \<Rightarrow> (string \<times> string \<times> u32 \<times> u32 option) list list" where
  "configured_roster c =
     map (\<lambda>p. map (\<lambda>u. (pc_name p, uc_url u, uc_weight u, uc_max_connections u)) (pc_upstreams p)) (cfg_pools c)"

definition well_formed :: "config \<Rightarrow> 'm sys \<Rightarrow> bool" where
  "well_formed c s \<longleftrightarrow>
     (let st = sy_state s
      in routable st
       \<and> map (\<lambda>p. (up_name p, up_algorithm p)) (st_pools st) = map (\<lambda>p. (pc_name p, pc_algorithm p)) (cfg_pools c)
       \<and> roster st = configured_roster c
       \<and> distinct (concat (map up_upstreams (st_pools st)))
       \<and> (\<forall>p \<in> set (st_pools st). \<forall>a \<in> set (up_upstreams p). upstream_ok (st_heap st a))
       \<and> (\<forall>f \<in># sy_flights s. flight_ok st f)
       \<and> keys_ok st \<and> buckets_ok st
       \<and> (st_cache st \<noteq> None \<longleftrightarrow> cache_enabled (cfg_cache c))
       \<and> (st_rate_limiter st \<noteq> None \<longleftrightarrow> rl_enabled (cfg_rate_limit c))
       \<and> (st_key_store st \<noteq> None \<longleftrightarrow> auth_enabled (cfg_auth c))
       \<and> (st_metrics st \<noteq> None \<longleftrightarrow> metrics_enabled (cfg_telemetry c)))"

lemma pools_built_roster:
  "pools_built clock h cs ps \<Longrightarrow>
   map (\<lambda>p. map (\<lambda>a. identity (h a)) (up_upstreams p)) ps
     = map (\<lambda>c. map (\<lambda>u. (pc_name c, uc_url u, uc_weight u, uc_max_connections u)) (pc_upstreams c)) cs
   \<and> map (\<lambda>p. (up_name p, up_algorithm p)) ps = map (\<lambda>c. (pc_name c, pc_algorithm c)) cs"
proof (induction cs arbitrary: ps)
  case (Cons c cs)
  then obtain p ps' where ps: "ps = p # ps'" by (auto split: list.splits)
  have "map (\<lambda>a. identity (h a)) (up_upstreams p) = map identity (map h (up_upstreams p))" by simp
  also have "\<dots> = map identity (map2 (\<lambda>a u. upstream_new (clock a) (pc_name c) (uc_url u) (uc_weight u)
      (uc_max_connections u)) (up_upstreams p) (pc_upstreams c))"
    using Cons.prems ps by simp
  also have "\<dots> = map (\<lambda>u. (pc_name c, uc_url u, uc_weight u, uc_max_connections u)) (pc_upstreams c)"
    using Cons.prems ps by (intro nth_equalityI) (simp_all add: upstream_new_def identity_def)
  finally show ?case using Cons ps by simp
qed simp

lemma shape_maps:
  assumes "map shape ps' = map shape ps"
  shows "map up_upstreams ps' = map up_upstreams ps"
    and "map (\<lambda>p. (up_name p, up_algorithm p)) ps' = map (\<lambda>p. (up_name p, up_algorithm p)) ps"
    and "map up_name ps' = map up_name ps"
  using arg_cong [OF assms, of "map (snd \<circ> snd)"] arg_cong [OF assms, of "map (\<lambda>(n, al, as). (n, al))"]
    arg_cong [OF assms, of "map fst"]
  by (simp_all add: shape_def comp_def)

lemma roster_alt: "roster st = map (map (\<lambda>a. identity (st_heap st a))) (map up_upstreams (st_pools st))"
  by (simp add: roster_def comp_def)

lemma roster_fixed:
  assumes "same_fixed st st'"
  shows "roster st' = roster st"
proof -
  have pools: "map up_upstreams (st_pools st') = map up_upstreams (st_pools st)"
    by (rule shape_maps(1)) (use assms in \<open>simp add: same_fixed_def\<close>)
  have "identity (st_heap st' a) = identity (st_heap st a)" for a using assms by (simp add: same_fixed_def)
  then show ?thesis by (simp only: roster_alt pools)
qed

lemma routable_fixed: "same_fixed st st' \<Longrightarrow> routable st \<Longrightarrow> routable st'"
  using shape_maps(3) [of "st_pools st'" "st_pools st"] by (auto simp: same_fixed_def routable_def simp flip: set_map)

lemma sqlite_new_unique:
  assumes "sqlite_new open_db path = Inr t" and "\<forall>path t fault. open_db path = Inr (Some t, fault) \<longrightarrow> ids_unique t"
  shows "ids_unique t"
proof -
  obtain existing fault where o: "open_db path = Inr (existing, fault)"
    using assms(1) by (cases "open_db path") (auto simp: sqlite_new_def)
  show ?thesis using assms o by (cases existing; cases fault) (auto simp: sqlite_new_def ids_unique_def)
qed

lemma build_state_start:
  assumes "build_state L open_db clock now c x = Inr (st, pools)" and "\<forall>path t fault. open_db path = Inr (Some t, fault) \<longrightarrow> ids_unique t"
  shows "keys_ok st" and "buckets_ok st" and "tiers_named st"
    and "st_cache st \<noteq> None \<longleftrightarrow> cache_enabled (cfg_cache c)"
    and "st_metrics st \<noteq> None \<longleftrightarrow> metrics_enabled (cfg_telemetry c)"
    and "distinct (concat (map up_upstreams (st_pools st)))"
proof -
  show "keys_ok st"
    using assms(1) sqlite_new_unique [OF _ assms(2)]
    by (auto simp: build_state_def Let_def try_then_Inr_iff keys_ok_def split: prod.splits if_splits)
  show "buckets_ok st"
    using assms(1) by (auto simp: build_state_def Let_def try_then_Inr_iff buckets_ok_def limiter_ok_def limiter_new_def
        split: prod.splits if_splits)
  show "tiers_named st"
    using build_state_fields [OF assms(1)] tiers_by_name_SomeD by (fastforce simp: tiers_named_def)
  show "st_cache st \<noteq> None \<longleftrightarrow> cache_enabled (cfg_cache c)" "st_metrics st \<noteq> None \<longleftrightarrow> metrics_enabled (cfg_telemetry c)"
    using assms(1) by (auto simp: build_state_def Let_def try_then_Inr_iff split: prod.splits if_splits)
  show "distinct (concat (map up_upstreams (st_pools st)))"
    using build_state_distinct [OF assms(1)] build_state_fields [OF assms(1)] by simp
qed

text \<open>C2. The gateway is well typed at every moment: after any interleaving of requests, probes,
  administration and cancellations from the start with a validated configuration, every method is routed
  to a pool; the pools and their upstreams are those of the configuration, and no two share an upstream
  object; every breaker has threshold 5 and cooldown 30 s and is below its threshold while closed, and
  never counts successes and failures at once; every request in flight goes to an upstream of the pool of
  its method; key identifiers are unique; every token bucket holds between zero and the burst of its tier
  or of the fallback; and cache, rate limiter, key store and metrics exist exactly when configured. It is
  assumed that the primary key of a database found on disk is unique.\<close>

theorem gateway_stays_well_formed:
  assumes "validate c = Inr ()" and "build_state L open_db clock now c x = Inr (st, pools)"
    and "\<forall>path t fault. open_db path = Inr (Some t, fault) \<longrightarrow> ids_unique t"
    and "sys_run L (sys_init st) es s"
  shows "well_formed c s"
proof -
  have built: "pools_built clock (st_heap st) (cfg_pools c) (st_pools st)" by (rule build_state_built [OF assms(2)])
  note start = build_state_start [OF assms(2,3)] and fields = build_state_fields [OF assms(2)]
  have fixed: "same_fixed st (sy_state s)" by (rule fixed_inv.run_keeps [OF assms(4)]) (simp add: sys_init_def)
  note maps = shape_maps [of "st_pools (sy_state s)" "st_pools st"]
  have ups: "upstream_ok (st_heap (sy_state s) a)" if mem: "p \<in> set (st_pools (sy_state s))" "a \<in> set (up_upstreams p)" for p a
  proof (rule upstream_inv.run_keeps [OF assms(4)])
    obtain q where "q \<in> set (st_pools st)" "a \<in> set (up_upstreams q)"
      using mem fixed shape_mem [of "st_pools st" "st_pools (sy_state s)" p] by (fastforce simp: same_fixed_def shape_def)
    then show "upstream_ok (st_heap (sy_state (sys_init st)) a)"
      using pools_built_new [OF built] by (fastforce simp: sys_init_def)
  qed
  have "\<forall>f \<in># sy_flights s. flight_ok (sy_state s) f"
    by (rule flight_inv.run_keeps [OF assms(4)]) (simp add: sys_init_def)
  moreover have "keys_ok (sy_state s)" by (rule keys_inv.run_keeps [OF assms(4)]) (simp add: sys_init_def start)
  moreover have "tiers_named (sy_state s) \<and> buckets_ok (sy_state s)"
    by (rule bucket_inv.run_keeps [OF assms(4)]) (simp add: sys_init_def start)
  moreover have "routable (sy_state s)"
    using routable_fixed [OF fixed] build_state_routable [OF _ assms(2)] assms(1) by (simp add: validate_ok)
  moreover have "roster (sy_state s) = configured_roster c"
    using roster_fixed [OF fixed] pools_built_roster [OF built] by (simp add: roster_def configured_roster_def)
  moreover have "map up_upstreams (st_pools (sy_state s)) = map up_upstreams (st_pools st)"
    "map (\<lambda>p. (up_name p, up_algorithm p)) (st_pools (sy_state s)) = map (\<lambda>p. (pc_name p, pc_algorithm p)) (cfg_pools c)"
    using fixed maps pools_built_roster [OF built] by (simp_all add: same_fixed_def)
  ultimately show ?thesis
    using ups fixed start fields unfolding well_formed_def Let_def same_fixed_def by (simp del: not_None_eq)
qed

theorem gateway_stays_well_formed_witness:
  "\<exists>(s :: (nat \<times> (u64 \<times> cached_value) list) sys) f. f \<in># sy_flights s \<and> well_formed example_config s"
proof -
  obtain st pools f s where b: "build_state sample_libs (\<lambda>_. Inr (None, None)) (\<lambda>_. 0) 0 example_config (two_upstreams, 0) = Inr (st, pools)"
    and run: "sys_run sample_libs (sys_init st) ([] @ [EvSkipInitial] @ [EvBegin]) s"
    and s: "sy_flights s = {#f#}"
    using example_system by blast
  have v: "validate example_config = Inr ()" by (simp add: validate_ok example_config_valid)
  have "f \<in># sy_flights s" using s by simp
  moreover have "well_formed example_config s" using gateway_stays_well_formed [OF v b _ run] by simp
  ultimately show ?thesis by blast
qed

subsection \<open>Before an upstream is healthy\<close>

text \<open>The gateway before any upstream was marked healthy, after \<open>n\<close> successful probes: nothing is in
  flight, nothing is cached, and no upstream has a longer streak of successes.\<close>

definition dark :: "('m, 'h) libs \<Rightarrow> nat \<Rightarrow> 'm sys \<Rightarrow> bool" where
  "dark L n s \<longleftrightarrow>
     sy_flights s = {#} \<and> routable (sy_state s) \<and> cache_within L (sy_state s) Map.empty
   \<and> (\<forall>p \<in> set (st_pools (sy_state s)). \<forall>a \<in> set (up_upstreams p).
        health (us_mutable (upstream_of s a)) = Unhealthy \<and> unat (consecutive_successes (us_mutable (upstream_of s a))) \<le> n)"

abbreviation answered_503 :: "('m, 'h) libs \<Rightarrow> sys_event \<Rightarrow> bool" where
  "answered_503 L e \<equiv>
     \<forall>env req r body m. e = EvAnswer env req r \<and> req_body req = Inr body
         \<and> extract_json_rpc_method (from_slice L) body = Some m \<longrightarrow>
       r = json_error_response 503 (- 32004) ''No healthy upstreams available''"

lemma dark_unavailable:
  "dark L n s \<Longrightarrow> p \<in> set (st_pools (sy_state s)) \<Longrightarrow> a \<in> set (up_upstreams p) \<Longrightarrow> \<not> is_available (st_heap (sy_state s) a)"
  by (auto simp: dark_def upstream_of_def is_available_def)

lemma dark_not_forwarded: "dark L n s \<Longrightarrow> fst (proxy_begin L env (sy_state s) req) \<noteq> Forwarding f"
  using proxy_begin_Forwarding [of L env "sy_state s" req f] dark_unavailable [of L n s] by (metis prod.collapse)

lemma dark_answer:
  assumes "moka (lib_moka L)" and "dark L n s"
    and "req_body req = Inr body" and "extract_json_rpc_method (from_slice L) body = Some m"
  shows "fst (proxy_begin L env (sy_state s) req)
    = Answered (json_error_response 503 (- 32004) ''No healthy upstreams available'')"
proof -
  let ?st = "sy_state s"
  have "\<exists>ps'. select_in_pool (st_heap ?st) (random_draw env) (route (st_router ?st) m) (st_pools ?st) = Some (None, ps')"
    using assms(2) dark_unavailable [OF assms(2)]
    by (intro select_in_pool_all_unavailable) (auto simp: dark_def routable_def)
  moreover have "cache_within L ?st Map.empty" using assms(2) by (simp add: dark_def)
  then have "fst (proxy_cached L env m (route (st_router ?st) m) body ?st) = None"
    using cached_within [OF assms(1)] by (cases "proxy_cached L env m (route (st_router ?st) m) body ?st") (fastforce simp del: not_None_eq)
  ultimately show ?thesis using begin_selects [OF _ assms(3,4)] by auto
qed

text \<open>Such an upstream stays so until the streak reaches the threshold.\<close>

lemma dark_upstream:
  assumes "sys_step L s e s'" and "e \<notin> {EvBegin, EvSkipInitial, EvAdmin Upstream_enable}" and "\<not> is_EvFinish e"
    and "health (us_mutable (upstream_of s a)) = Unhealthy \<and> unat (consecutive_successes (us_mutable (upstream_of s a))) \<le> n"
    and "n + of_bool (e = EvProbe True) < unat (healthy_threshold (cfg_health_check (st_config (sy_state s))))"
  shows "health (us_mutable (upstream_of s' a)) = Unhealthy
    \<and> unat (consecutive_successes (us_mutable (upstream_of s' a))) \<le> n + of_bool (e = EvProbe True)"
proof -
  let ?hc = "cfg_health_check (st_config (sy_state s))" and ?u = "upstream_of s a"
  consider "upstream_of s' a = ?u" | pr where "e = EvProbe (probe_ok pr)" "upstream_of s' a = apply_probe ?hc pr ?u"
    | "upstream_of s' a = upd_mutable (\<lambda>m. m\<lparr>health := Unhealthy\<rparr>) ?u"
    using step_upstream [OF assms(1), of a] assms(2,3) by blast
  then show ?thesis
  proof cases
    case (2 pr)
    show ?thesis
    proof (cases "probe_ok pr")
      case True
      have "unat (consecutive_successes (us_mutable ?u) + 1) \<le> Suc (unat (consecutive_successes (us_mutable ?u)))"
        unfolding unat_word_ariths by (rule le_trans [OF mod_less_eq_dividend]) simp
      then show ?thesis
        using True 2 assms(4,5) by (auto simp: apply_probe_success word_le_nat_alt)
    qed (use 2 assms(4) in \<open>simp add: apply_probe_failure\<close>)
  qed (use assms(4) in \<open>simp_all add: upd_mutable_def\<close>)
qed

lemma dark_step:
  assumes "moka (lib_moka L)" and "sys_step L s e s'" and "dark L n s"
    and "e \<notin> {EvSkipInitial, EvAdmin Upstream_enable}"
    and "n + of_bool (e = EvProbe True) < unat (healthy_threshold (cfg_health_check (st_config (sy_state s))))"
  shows "dark L (n + of_bool (e = EvProbe True)) s' \<and> e \<noteq> EvBegin
    \<and> answered_503 L e"
proof -
  have e: "e \<noteq> EvBegin" "\<not> is_EvFinish e" "sy_flights s' = {#}"
    using assms(2,3) dark_not_forwarded [OF assms(3)]
    by (auto elim!: sys_step_elim simp: dark_def) (metis fst_conv)+
  then have "cache_ops_of L (cache_ttl_table (sy_state s)) e \<in> {[], [Flush]}" 
    by (cases "(L, cache_ttl_table (sy_state s), e)" rule: cache_ops_of.cases) auto
  then have "cache_within L (sy_state s') Map.empty"
    using step_within [OF assms(1,2)] assms(3) by (fastforce simp: dark_def)
  moreover have "routable (sy_state s')"
    using routable_fixed [OF step_fixed [OF assms(2)]] assms(3) by (simp add: dark_def)
  moreover have "\<forall>p \<in> set (st_pools (sy_state s')). \<forall>a \<in> set (up_upstreams p).
      health (us_mutable (upstream_of s' a)) = Unhealthy
      \<and> unat (consecutive_successes (us_mutable (upstream_of s' a))) \<le> n + of_bool (e = EvProbe True)"
  proof (intro ballI)
    fix p a
    assume "p \<in> set (st_pools (sy_state s'))" "a \<in> set (up_upstreams p)"
    then obtain q where "q \<in> set (st_pools (sy_state s))" "a \<in> set (up_upstreams q)"
      using step_fixed [OF assms(2)] shape_mem [of "st_pools (sy_state s)" "st_pools (sy_state s')" p]
      by (fastforce simp: same_fixed_def shape_def)
    then show "health (us_mutable (upstream_of s' a)) = Unhealthy
      \<and> unat (consecutive_successes (us_mutable (upstream_of s' a))) \<le> n + of_bool (e = EvProbe True)"
      using e(1,2) assms(3,4) by (intro dark_upstream [OF assms(2) _ _ _ assms(5)]) (auto simp: dark_def)
  qed
  moreover have "r = json_error_response 503 (- 32004) ''No healthy upstreams available''"
    if "e = EvAnswer env req r" "req_body req = Inr body" "extract_json_rpc_method (from_slice L) body = Some m" for env req r body m
    using assms(2) dark_answer [OF assms(1,3) that(2,3), of env] unfolding that(1) by (auto elim!: sys_step_elim)
  ultimately show ?thesis using e by (auto simp: dark_def)
qed

lemma dark_run:
  assumes "moka (lib_moka L)" and "sys_run L s es s'" and "dark L 0 s"
    and "EvSkipInitial \<notin> set es" and "EvAdmin Upstream_enable \<notin> set es"
    and "count_list es (EvProbe True) < unat (healthy_threshold (cfg_health_check (st_config (sy_state s))))"
  shows "dark L (count_list es (EvProbe True)) s' \<and> same_fixed (sy_state s) (sy_state s') \<and> EvBegin \<notin> set es
    \<and> (\<forall>e \<in> set es. answered_503 L e)"
  using assms(2-6)
proof (induction rule: sys_run.induct)
  case (run_snoc s es s1 e s2)
  have count: "count_list (es @ [e]) (EvProbe True) = count_list es (EvProbe True) + of_bool (e = EvProbe True)" by simp
  have ih: "dark L (count_list es (EvProbe True)) s1" "same_fixed (sy_state s) (sy_state s1)"
    using run_snoc by auto
  then have "count_list es (EvProbe True) + of_bool (e = EvProbe True)
      < unat (healthy_threshold (cfg_health_check (st_config (sy_state s1))))"
    using run_snoc.prems(4) unfolding count by (simp add: same_fixed_def)
  moreover have "e \<notin> {EvSkipInitial, EvAdmin Upstream_enable}" using run_snoc.prems(2,3) by auto
  ultimately have "dark L (count_list (es @ [e]) (EvProbe True)) s2 \<and> e \<noteq> EvBegin \<and> answered_503 L e"
    using dark_step [OF assms(1) run_snoc.hyps(2) ih(1)] unfolding count by blast
  moreover have "same_fixed (sy_state s) (sy_state s2)" using ih(2) step_fixed [OF run_snoc.hyps(2)] by (rule same_fixed_trans)
  ultimately show ?case using run_snoc by auto
qed simp

text \<open>C29. Until it is known that an upstream is healthy, the gateway runs and forwards nothing: as long as the initial
  check is not skipped, no operator enables an upstream, and fewer probes than the healthy threshold have succeeded,
  then, whatever else happens, no request has been forwarded, every well-formed request was answered with status 503, and
  so will be the next one. In particular a gateway whose upstreams all fail their initial check is up and answers.\<close>

theorem gateway_answers_503_until_healthy:
  assumes "moka (lib_moka L)" and "validate c = Inr ()"
    and "build_state L open_db clock now c x = Inr (st, pools)" and "sys_run L (sys_init st) es s"
    and "EvSkipInitial \<notin> set es" and "EvAdmin Upstream_enable \<notin> set es"
    and "count_list es (EvProbe True) < unat (healthy_threshold (cfg_health_check c))"
  shows "EvBegin \<notin> set es
    \<and> (\<forall>env req r body m. EvAnswer env req r \<in> set es \<and> req_body req = Inr body
         \<and> extract_json_rpc_method (from_slice L) body = Some m \<longrightarrow>
       r = json_error_response 503 (- 32004) ''No healthy upstreams available'')
    \<and> (\<forall>env req body m. req_body req = Inr body \<and> extract_json_rpc_method (from_slice L) body = Some m \<longrightarrow>
       fst (proxy_handler L env (sy_state s) req)
         = Respond (json_error_response 503 (- 32004) ''No healthy upstreams available''))"
proof -
  note fields = build_state_fields [OF assms(3)]
  have "routable st" using assms(2,3) validate_ok build_state_routable by blast
  moreover have "cache_within L st Map.empty"
    using fields moka.refines_new [OF assms(1)] by (auto simp: cache_within_def)
  moreover have "health (us_mutable (st_heap st a)) = Unhealthy \<and> consecutive_successes (us_mutable (st_heap st a)) = 0"
    if "p \<in> set (st_pools st)" "a \<in> set (up_upstreams p)" for p a
    using pools_built_new [OF build_state_built [OF assms(3)] that] by (auto simp: upstream_new_def)
  ultimately have "dark L 0 (sys_init st)" by (auto simp: dark_def sys_init_def upstream_of_def)
  moreover have "cfg_health_check (st_config (sy_state (sys_init st))) = cfg_health_check c"
    using fields by (simp add: sys_init_def)
  ultimately have run: "dark L (count_list es (EvProbe True)) s" "EvBegin \<notin> set es"
    "\<forall>e \<in> set es. answered_503 L e"
    using dark_run [OF assms(1,4) _ assms(5,6)] assms(7) by auto
  then show ?thesis using dark_answer [OF assms(1) run(1)] by (auto simp: proxy_handler_alt)
qed

theorem gateway_answers_503_until_healthy_witness:
  "\<exists>st pools s. build_state sample_libs (\<lambda>_. Inr (None, None)) (\<lambda>_. 0) 0 example_config (two_upstreams, 0) = Inr (st, pools)
    \<and> sys_run sample_libs (sys_init st) [EvProbe True, EvProbe False] s
    \<and> fst (proxy_handler sample_libs (sample_env TimedOut) (sy_state s) (sample_request [1]))
        = Respond (json_error_response 503 (- 32004) ''No healthy upstreams available'')"
proof -
  obtain st pools where b: "build_state sample_libs (\<lambda>_. Inr (None, None)) (\<lambda>_. 0) 0 example_config (two_upstreams, 0) = Inr (st, pools)"
    using example_build by blast
  obtain s where run: "sys_run sample_libs (sys_init st) [EvProbe True, EvProbe False] s"
    using sys_run_Cons [OF probe [of _ _ good_probe] sys_run_one [OF probe [of _ _ bad_probe]]] by fastforce
  have v: "validate example_config = Inr ()" by (simp add: validate_ok example_config_valid)
  have m: "extract_json_rpc_method (from_slice sample_libs) [1] = Some ''getHealth''"
    by (simp add: extract_json_rpc_method_def)
  have k: "moka (lib_moka sample_libs)" using fifo.moka_axioms by simp
  have "count_list [EvProbe True, EvProbe False] (EvProbe True) < unat (healthy_threshold (cfg_health_check example_config))"
    by (simp add: example_defs config_struct_defaults config_defaults)
  from gateway_answers_503_until_healthy [OF k v b run _ _ this] m
  have "fst (proxy_handler sample_libs (sample_env TimedOut) (sy_state s) (sample_request [1]))
        = Respond (json_error_response 503 (- 32004) ''No healthy upstreams available'')" by simp
  then show ?thesis using b run by blast
qed

subsection \<open>What the request metrics count\<close>

fun is_cached_answer :: "sys_event \<Rightarrow> bool" where
  "is_cached_answer (EvAnswer env req r) = is_success (resp_status r)"
| "is_cached_answer _ = False"

fun is_hit_call :: "metric_call \<Rightarrow> bool" where
  "is_hit_call (Cache_hits_total_inc _) = True"
| "is_hit_call _ = False"

text \<open>How many of some calls count a request, and how many a cache hit.\<close>

definition tally :: "metric_call list \<Rightarrow> nat \<times> nat" where
  "tally cs = (length (filter is_request_call cs), length (filter is_hit_call cs))"

lemma tally_append [simp]: "tally (cs @ ds) = (fst (tally cs) + fst (tally ds), snd (tally cs) + snd (tally ds))"
  by (simp add: tally_def)

lemma not_success [simp]:
  "\<not> is_success (resp_status (json_error_response 400 c m))" "\<not> is_success (resp_status (json_error_response 500 c m))"
  "\<not> is_success (resp_status (json_error_response 503 c m))"
  by (simp_all add: json_error_response_def json_response_def is_success_def)

text \<open>Each step adds to the calls; \<open>tally\<close> of what it adds.\<close>

lemma cached_calls:
  assumes "proxy_cached L env m pool body st = (r, st1)" and "st_metrics st \<noteq> None"
  shows "\<exists>cs. calls_of (st_metrics st1) = calls_of (st_metrics st) @ cs
    \<and> tally cs = (of_bool (r \<noteq> None), of_bool (r \<noteq> None)) \<and> (\<forall>x. r = Some x \<longrightarrow> is_success (resp_status x))"
  using assms
  by (auto simp: proxy_cached_def Let_def tally_def is_success_def split: option.splits if_splits prod.splits)

lemma begin_calls:
  assumes "st_metrics st \<noteq> None" and "proxy_begin L env st req = (b, st1)"
  defines "hit \<equiv> \<exists>r. b = Answered r \<and> is_success (resp_status r)"
  shows "\<exists>cs. calls_of (st_metrics st1) = calls_of (st_metrics st) @ cs \<and> tally cs = (of_bool hit, of_bool hit)"
proof (cases "\<exists>body m. req_body req = Inr body \<and> extract_json_rpc_method (from_slice L) body = Some m")
  case False
  then have "st1 = st" "\<not> hit" using assms(2) by (auto simp: proxy_begin_def hit_def split: sum.splits option.splits)
  then show ?thesis by (simp add: tally_def)
next
  case True
  then obtain body m where bm: "req_body req = Inr body" "extract_json_rpc_method (from_slice L) body = Some m" by blast
  obtain c st2 where c: "proxy_cached L env m (route (st_router st) m) body st = (c, st2)" by fastforce
  have "st_metrics st1 = st_metrics st2" "hit \<longleftrightarrow> c \<noteq> None"
    using assms(2) bm c cached_calls [OF c assms(1)]
    by (auto simp: proxy_begin_def hit_def Let_def split: option.splits prod.splits)
  then show ?thesis using cached_calls [OF c assms(1)] by auto
qed

lemma finish_calls:
  assumes "st_metrics st \<noteq> None"
  shows "\<exists>cs. calls_of (st_metrics (snd (proxy_finish L env f result st))) = calls_of (st_metrics st) @ cs \<and> tally cs = (1, 0)"
  using assms
  by (auto simp: proxy_finish_def Let_def tally_def dest: proxy_store_SomeD split: sum.split prod.split option.split)

lemma charged_calls:
  "charged L st st' \<Longrightarrow> st_metrics st \<noteq> None \<Longrightarrow>
   \<exists>cs. st_metrics st' \<noteq> None \<and> calls_of (st_metrics st') = calls_of (st_metrics st) @ cs \<and> tally cs = (0, 0)"
proof (induction rule: charged.induct)
  case (charged_reject st st1 limiter req k rps burst now e limiter' l)
  then obtain cs where "calls_of (st_metrics st1) = calls_of (st_metrics st) @ cs" "tally cs = (0, 0)" "st_metrics st1 \<noteq> None"
    by blast
  then show ?case by (intro exI [of _ "cs @ [Rate_limit_rejections_total_inc l]"]) (simp add: tally_def)
qed (auto simp: tally_def)

lemma step_calls:
  assumes "sys_step L s e s'" and "st_metrics (sy_state s) \<noteq> None"
  shows "\<exists>cs. calls_of (st_metrics (sy_state s')) = calls_of (st_metrics (sy_state s)) @ cs
    \<and> tally cs = (of_bool (is_EvFinish e) + of_bool (is_cached_answer e), of_bool (is_cached_answer e))"
  using assms(1)
proof cases
  case (begin_forward env req f st1)
  then show ?thesis using begin_calls [OF assms(2) begin_forward(3)] by simp
next
  case (begin_answer env req r st1)
  then show ?thesis using begin_calls [OF assms(2) begin_answer(3)] by simp
next
  case (finish f env result out st1)
  then show ?thesis using finish_calls [OF assms(2), of L env f result] by simp
next
  case (admin jp env r caps req out st1)
  then show ?thesis using admin_fixed [OF admin(3)] by (simp add: tally_def)
next
  case (middlewares st1)
  then show ?thesis using charged_calls [OF middlewares(3) assms(2)] by auto
qed (simp_all add: tally_def)

lemma run_tally:
  assumes "sys_run L s es s'" and "st_metrics (sy_state s) \<noteq> None"
  shows "st_metrics (sy_state s') \<noteq> None
    \<and> tally (calls_of (st_metrics (sy_state s'))) =
       (fst (tally (calls_of (st_metrics (sy_state s)))) + length (filter is_EvFinish es) + length (filter is_cached_answer es),
        snd (tally (calls_of (st_metrics (sy_state s)))) + length (filter is_cached_answer es))"
  using assms
proof (induction rule: sys_run.induct)
  case (run_snoc s es s1 e s2)
  moreover have "st_metrics (sy_state s2) \<noteq> None"
    using run_snoc step_fixed [OF run_snoc.hyps(2)] by (simp add: same_fixed_def del: not_None_eq)
  moreover obtain cs where "calls_of (st_metrics (sy_state s2)) = calls_of (st_metrics (sy_state s1)) @ cs"
    "tally cs = (of_bool (is_EvFinish e) + of_bool (is_cached_answer e), of_bool (is_cached_answer e))"
    using step_calls [OF run_snoc.hyps(2)] run_snoc by blast
  ultimately show ?case by (auto simp del: not_None_eq)
qed simp

text \<open>C9. With metrics enabled, \<open>sorobangate_requests_total\<close> counts exactly the requests whose exchange with
  an upstream ended plus those answered from the cache, and \<open>sorobangate_cache_hits_total\<close> exactly the latter,
  in every interleaving. Requests refused by a middleware, answered with 400, 500 or 503 by the gateway
  itself, or cancelled by the client are never counted.\<close>

theorem request_metrics_count_served_requests:
  assumes "build_state L open_db clock now c x = Inr (st, pools)" and "metrics_enabled (cfg_telemetry c)"
    and "sys_run L (sys_init st) es s"
  shows "length (filter is_request_call (calls_of (st_metrics (sy_state s))))
      = length (filter is_EvFinish es) + length (filter is_cached_answer es)
    \<and> length (filter is_hit_call (calls_of (st_metrics (sy_state s)))) = length (filter is_cached_answer es)"
proof -
  have "st_metrics st = Some metrics_handle_new"
    using assms(1,2) by (auto simp: build_state_def Let_def try_then_Inr_iff split: prod.splits)
  then show ?thesis
    using run_tally [OF assms(3)] by (simp add: tally_def sys_init_def calls_of_def metrics_handle_new_def)
qed

theorem request_metrics_count_served_requests_witness:
  "\<exists>s :: (nat \<times> (u64 \<times> cached_value) list) sys. sy_flights s \<noteq> {#}
    \<and> filter is_request_call (calls_of (st_metrics (sy_state s))) = []"
proof -
  obtain st pools f s where b: "build_state sample_libs (\<lambda>_. Inr (None, None)) (\<lambda>_. 0) 0 example_config (two_upstreams, 0) = Inr (st, pools)"
    and run: "sys_run sample_libs (sys_init st) ([] @ [EvSkipInitial] @ [EvBegin]) s"
    and s: "sy_flights s = {#f#}"
    using example_system by blast
  have "metrics_enabled (cfg_telemetry example_config)"
    by (simp add: example_config_def config_default_def telemetry_config_default_def)
  from request_metrics_count_served_requests [OF b this run] s show ?thesis by (intro exI [of _ s]) simp
qed

end
