(* ===== verification/Gate_Shutdown.thy ===== *)
theory Gate_Shutdown
  imports Gate_Main
begin

text \<open>
  The second half of \<open>serve\<close> of \<open>src/server/mod.rs\<close>: the three tasks it spawns, the wait for a signal, the
  graceful shutdown and the collection of the results, as a state machine whose steps interleave freely.
  A server task first runs up to the call of \<open>shutdown.notified()\<close> (\<open>Register\<close>), serves connections
  (\<open>Accept\<close>, \<open>Close\<close>), and when its notification arrives (\<open>Wake\<close>) stops accepting and ends when its last
  connection is closed (\<open>Drained\<close>), or, for the TLS server, when ten seconds have passed (\<open>Deadline\<close>).
  A server may fail at any time.

  \<open>tokio::sync::Notify\<close> is a parameter: a record of operations and the laws its documentation states, in
  locale \<open>tokio_notify\<close>. A \<open>Notified\<close> future is woken by \<open>notify_waiters\<close> exactly when it was created before
  that call; no permit is stored for a later one.
\<close>

subsection \<open>Signals\<close>

datatype signal = SigInt | SigTerm | OtherSignal

datatype signal_wait = SigPanic string | SigPending | SigReceived

text \<open>\<open>select!\<close> polls its two branches in an order drawn at random, and each installs its handler when it is
  first polled.\<close>

definition shutdown_signal :: "bool \<Rightarrow> bool \<Rightarrow> bool \<Rightarrow> signal list \<Rightarrow> signal_wait" where
  "shutdown_signal ctrl_c_first int_ok term_ok delivered =
     (let int_err = SigPanic ''failed to install Ctrl+C handler''; term_err = SigPanic ''failed to install SIGTERM handler''
      in if \<not> int_ok \<and> \<not> term_ok then (if ctrl_c_first then int_err else term_err)
         else if \<not> int_ok then int_err
         else if \<not> term_ok then term_err
         else if SigInt \<in> set delivered \<or> SigTerm \<in> set delivered then SigReceived
         else SigPending)"

subsection \<open>Tasks\<close>

datatype task = Main_task | Admin_task | Metrics_task

record task_state =
  tk_server :: bool \<comment> \<open>not the empty task that stands in for disabled metrics\<close>
  tk_tls :: bool
  tk_waiting :: bool \<comment> \<open>\<open>shutdown.notified()\<close> was called\<close>
  tk_stopping :: bool
  tk_conns :: nat
  tk_result :: "(string + unit) option"

record 'n notify_ops =
  ntf_new :: 'n
  ntf_notified :: "task \<Rightarrow> 'n \<Rightarrow> 'n"
  ntf_notify_waiters :: "'n \<Rightarrow> 'n"
  ntf_ready :: "task \<Rightarrow> 'n \<Rightarrow> bool"

datatype serve_phase = AwaitSignal | Joining "task list" | Returned "string + unit" | Crashed string

record 'n shutdown_state =
  sd_notify :: 'n
  sd_tasks :: "task \<Rightarrow> task_state"
  sd_phase :: serve_phase

definition spawned :: "bool \<Rightarrow> bool \<Rightarrow> task_state" where
  "spawned server tls = \<lparr>tk_server = server, tk_tls = tls, tk_waiting = False, tk_stopping = False, tk_conns = 0, tk_result = None\<rparr>"

definition sd_init :: "'n notify_ops \<Rightarrow> config \<Rightarrow> 'n shutdown_state" where
  "sd_init ops cfg =
     \<lparr>sd_notify = ntf_new ops,
      sd_tasks = (\<lambda>t. case t of
          Main_task \<Rightarrow> spawned True (tls_enabled (cfg_tls cfg))
        | Admin_task \<Rightarrow> spawned True False
        | Metrics_task \<Rightarrow> spawned (metrics_enabled (cfg_telemetry cfg)) False),
      sd_phase = AwaitSignal\<rparr>"

text \<open>The error a task ends with: the failure to load the TLS key pair is passed on as it is, that of a
  server gets a prefix.\<close>

datatype fault = is_PemFault: PemFault string | ServerFault string

fun task_error :: "task \<Rightarrow> bool \<Rightarrow> fault \<Rightarrow> string" where
  "task_error t tls (PemFault e) = e"
| "task_error Main_task tls (ServerFault e) = (if tls then ''Main server (TLS) error: '' @ e else ''Main server error: '' @ e)"
| "task_error Admin_task tls (ServerFault e) = ''Admin server error: '' @ e"
| "task_error Metrics_task tls (ServerFault e) = ''Metrics server error: '' @ e"

definition upd_task :: "task \<Rightarrow> (task_state \<Rightarrow> task_state) \<Rightarrow> 'n shutdown_state \<Rightarrow> 'n shutdown_state" where
  "upd_task t f s = s\<lparr>sd_tasks := (sd_tasks s)(t := f (sd_tasks s t))\<rparr>"

definition live :: "'n shutdown_state \<Rightarrow> task \<Rightarrow> bool" where
  "live s t \<longleftrightarrow> tk_result (sd_tasks s t) = None"

subsection \<open>Steps\<close>

datatype sd_event =
    Register task | is_Accept: Accept task | Close task | Wake task | Deadline task | Drained task | Empty task
  | is_Failed: Failed task fault | Signal | Crash | Join

inductive sd_step :: "'n notify_ops \<Rightarrow> 'n shutdown_state \<Rightarrow> sd_event \<Rightarrow> 'n shutdown_state \<Rightarrow> bool" for ops where
  register:
    "live s t \<Longrightarrow> tk_server (sd_tasks s t) \<Longrightarrow> \<not> tk_waiting (sd_tasks s t) \<Longrightarrow>
     sd_step ops s (Register t) (upd_task t (tk_waiting_update (\<lambda>_. True)) (s\<lparr>sd_notify := ntf_notified ops t (sd_notify s)\<rparr>))"
| accept:
    "live s t \<Longrightarrow> tk_server (sd_tasks s t) \<Longrightarrow> \<not> tk_stopping (sd_tasks s t) \<Longrightarrow>
     sd_step ops s (Accept t) (upd_task t (tk_conns_update Suc) s)"
| close:
    "live s t \<Longrightarrow> 0 < tk_conns (sd_tasks s t) \<Longrightarrow> sd_step ops s (Close t) (upd_task t (tk_conns_update (\<lambda>n. n - 1)) s)"
| wake:
    "live s t \<Longrightarrow> tk_waiting (sd_tasks s t) \<Longrightarrow> \<not> tk_stopping (sd_tasks s t) \<Longrightarrow> ntf_ready ops t (sd_notify s) \<Longrightarrow>
     sd_step ops s (Wake t) (upd_task t (tk_stopping_update (\<lambda>_. True)) s)"
| deadline:
    "live s t \<Longrightarrow> tk_stopping (sd_tasks s t) \<Longrightarrow> tk_tls (sd_tasks s t) \<Longrightarrow> 0 < tk_conns (sd_tasks s t) \<Longrightarrow>
     sd_step ops s (Deadline t) (upd_task t (tk_conns_update (\<lambda>_. 0)) s)"
| drained:
    "live s t \<Longrightarrow> tk_stopping (sd_tasks s t) \<Longrightarrow> tk_conns (sd_tasks s t) = 0 \<Longrightarrow>
     sd_step ops s (Drained t) (upd_task t (tk_result_update (\<lambda>_. Some (Inr ()))) s)"
| empty:
    "live s t \<Longrightarrow> \<not> tk_server (sd_tasks s t) \<Longrightarrow> sd_step ops s (Empty t) (upd_task t (tk_result_update (\<lambda>_. Some (Inr ()))) s)"
| failed:
    "live s t \<Longrightarrow> tk_server (sd_tasks s t) \<Longrightarrow> is_PemFault e \<longrightarrow> tk_tls (sd_tasks s t) \<Longrightarrow>
     sd_step ops s (Failed t e) (upd_task t (tk_result_update (\<lambda>_. Some (Inl (task_error t (tk_tls (sd_tasks s t)) e)))) s)"
| signal:
    "sd_phase s = AwaitSignal \<Longrightarrow> shutdown_signal ord i_ok t_ok delivered = SigReceived \<Longrightarrow>
     sd_step ops s Signal (s\<lparr>sd_notify := ntf_notify_waiters ops (sd_notify s),
                             sd_phase := Joining [Main_task, Metrics_task, Admin_task]\<rparr>)"
| crash:
    "sd_phase s = AwaitSignal \<Longrightarrow> shutdown_signal ord i_ok t_ok delivered = SigPanic msg \<Longrightarrow>
     sd_step ops s Crash (s\<lparr>sd_phase := Crashed msg\<rparr>)"
| join_ok:
    "sd_phase s = Joining (t # ts) \<Longrightarrow> tk_result (sd_tasks s t) = Some (Inr ()) \<Longrightarrow> sd_step ops s Join (s\<lparr>sd_phase := Joining ts\<rparr>)"
| join_err:
    "sd_phase s = Joining (t # ts) \<Longrightarrow> tk_result (sd_tasks s t) = Some (Inl e) \<Longrightarrow> sd_step ops s Join (s\<lparr>sd_phase := Returned (Inl e)\<rparr>)"
| join_done:
    "sd_phase s = Joining [] \<Longrightarrow> sd_step ops s Join (s\<lparr>sd_phase := Returned (Inr ())\<rparr>)"

inductive sd_run :: "'n notify_ops \<Rightarrow> 'n shutdown_state \<Rightarrow> sd_event list \<Rightarrow> 'n shutdown_state \<Rightarrow> bool" for ops where
  sd_nil: "sd_run ops s [] s"
| sd_snoc: "sd_run ops s es s1 \<Longrightarrow> sd_step ops s1 e s2 \<Longrightarrow> sd_run ops s (es @ [e]) s2"

inductive_cases sd_signalE: "sd_step ops s Signal s'"

lemma upd_task_simps [simp]:
  "sd_notify (upd_task t f s) = sd_notify s" "sd_phase (upd_task t f s) = sd_phase s"
  "sd_tasks (upd_task t f s) u = (if u = t then f (sd_tasks s t) else sd_tasks s u)"
  by (simp_all add: upd_task_def)

lemma sd_run_invariant:
  assumes "sd_run ops s es s'" and "Q s" and "\<forall>e \<in> set es. P e"
    and "\<And>s1 e s2. sd_step ops s1 e s2 \<Longrightarrow> P e \<Longrightarrow> Q s1 \<Longrightarrow> Q s2"
  shows "Q s'"
  using assms(1-3) by (induction rule: sd_run.induct) (auto intro: assms(4))

subsection \<open>The contract of \<open>Notify\<close>\<close>

text \<open>\<open>created t n\<close>: a \<open>Notified\<close> future of the task exists.\<close>

locale tokio_notify =
  fixes ops :: "'n notify_ops" and created :: "task \<Rightarrow> 'n \<Rightarrow> bool"
  assumes new: "\<not> created t (ntf_new ops)" "\<not> ntf_ready ops t (ntf_new ops)"
    and created_notified: "created u (ntf_notified ops t n) \<longleftrightarrow> u = t \<or> created u n"
    and ready_notified: "ntf_ready ops u (ntf_notified ops t n) \<longleftrightarrow> ntf_ready ops u n"
    and ready_waiters: "ntf_ready ops u (ntf_notify_waiters ops n) \<longleftrightarrow> ntf_ready ops u n \<or> created u n"
begin

text \<open>Before the signal: a future exists for exactly the tasks that called \<open>notified\<close>, and none is ready.\<close>

definition quiet :: "'n shutdown_state \<Rightarrow> bool" where
  "quiet s \<longleftrightarrow> (sd_phase s = AwaitSignal \<longrightarrow>
     (\<forall>t. created t (sd_notify s) = tk_waiting (sd_tasks s t) \<and> \<not> ntf_ready ops t (sd_notify s)
        \<and> \<not> tk_stopping (sd_tasks s t)))"

lemma quiet_init: "quiet (sd_init ops cfg)"
  using new by (simp add: quiet_def sd_init_def spawned_def split: task.split)

lemma quiet_step: "sd_step ops s e s' \<Longrightarrow> quiet s \<Longrightarrow> quiet s'"
  by (induction rule: sd_step.cases) (auto simp: quiet_def created_notified ready_notified split: if_splits)

lemma quiet_run: "sd_run ops s es s' \<Longrightarrow> quiet s \<Longrightarrow> quiet s'"
  by (rule sd_run_invariant [where P = "\<lambda>_. True" and Q = quiet]) (auto intro: quiet_step)

lemma quiet_signal:
  assumes "quiet s" and "sd_step ops s Signal s'"
  shows "(\<forall>t. ntf_ready ops t (sd_notify s') = tk_waiting (sd_tasks s t)) \<and> sd_tasks s' = sd_tasks s
    \<and> sd_phase s' = Joining [Main_task, Metrics_task, Admin_task] \<and> (\<forall>t. \<not> tk_stopping (sd_tasks s t))"
  using assms(2) by (rule sd_signalE) (use assms(1) ready_waiters in \<open>auto simp: quiet_def\<close>)

text \<open>After the signal readiness never changes.\<close>

definition signalled :: "'n shutdown_state \<Rightarrow> bool" where
  "signalled s \<longleftrightarrow> (\<exists>ts. sd_phase s = Joining ts) \<or> (\<exists>r. sd_phase s = Returned r)"

lemma signalled_step:
  "sd_step ops s e s' \<Longrightarrow> signalled s \<Longrightarrow>
   signalled s' \<and> (\<forall>t. ntf_ready ops t (sd_notify s') = ntf_ready ops t (sd_notify s))"
  by (induction rule: sd_step.cases) (auto simp: signalled_def ready_notified)

end

text \<open>A \<open>Notify\<close> as the set of the tasks with a future and the set of those woken.\<close>

definition set_notify :: "(task set \<times> task set) notify_ops" where
  "set_notify = \<lparr>ntf_new = ({}, {}), ntf_notified = (\<lambda>t (c, r). (insert t c, r)),
     ntf_notify_waiters = (\<lambda>(c, r). (c, r \<union> c)), ntf_ready = (\<lambda>t (c, r). t \<in> r)\<rparr>"

interpretation sets: tokio_notify set_notify "\<lambda>t n. t \<in> fst n"
  by unfold_locales (auto simp: set_notify_def)

subsection \<open>Work left\<close>

definition task_work :: "task_state \<Rightarrow> nat" where
  "task_work k = (if tk_result k = None then 1 + of_bool (\<not> tk_waiting k) + of_bool (\<not> tk_stopping k) + tk_conns k else 0)"

fun phase_work :: "serve_phase \<Rightarrow> nat" where
  "phase_work AwaitSignal = 5"
| "phase_work (Joining ts) = Suc (length ts)"
| "phase_work _ = 0"

definition sd_work :: "'n shutdown_state \<Rightarrow> nat" where
  "sd_work s = phase_work (sd_phase s) + task_work (sd_tasks s Main_task) + task_work (sd_tasks s Admin_task)
     + task_work (sd_tasks s Metrics_task)"

lemma sd_work_upd:
  "task_work (f (sd_tasks s t)) < task_work (sd_tasks s t) \<Longrightarrow> sd_work (upd_task t f s) < sd_work s"
  by (cases t) (simp_all add: sd_work_def)

lemma sd_work_notify [simp]: "sd_work (s\<lparr>sd_notify := n\<rparr>) = sd_work s"
  by (simp add: sd_work_def)

text \<open>Every step but an accept does some of the work, and an accept adds one connection to it.\<close>

lemma step_works:
  assumes "sd_step ops s e s'"
  shows "sd_work s' + of_bool (\<not> is_Accept e) \<le> sd_work s + of_bool (is_Accept e)"
  using assms
proof cases
  case (register t)
  then show ?thesis using sd_work_upd [of "tk_waiting_update (\<lambda>_. True)" "s\<lparr>sd_notify := ntf_notified ops t (sd_notify s)\<rparr>" t]
    by (simp add: task_work_def live_def)
next
  case (accept t)
  then show ?thesis by (cases t) (simp_all add: sd_work_def task_work_def live_def)
next
  case (close t)
  then show ?thesis using sd_work_upd [of "tk_conns_update (\<lambda>n. n - 1)" s t] by (simp add: task_work_def live_def)
next
  case (wake t)
  then show ?thesis using sd_work_upd [of "tk_stopping_update (\<lambda>_. True)" s t] by (simp add: task_work_def live_def)
next
  case (deadline t)
  then show ?thesis using sd_work_upd [of "tk_conns_update (\<lambda>_. 0)" s t] by (simp add: task_work_def live_def)
next
  case (drained t)
  then show ?thesis using sd_work_upd [of "tk_result_update (\<lambda>_. Some (Inr ()))" s t] by (simp add: task_work_def live_def)
next
  case (empty t)
  then show ?thesis using sd_work_upd [of "tk_result_update (\<lambda>_. Some (Inr ()))" s t] by (simp add: task_work_def live_def)
next
  case (failed t e)
  then show ?thesis
    using sd_work_upd [of "tk_result_update (\<lambda>_. Some (Inl (task_error t (tk_tls (sd_tasks s t)) e)))" s t]
    by (simp add: task_work_def live_def)
qed (simp_all add: sd_work_def)

lemma run_works: "sd_run ops s es s' \<Longrightarrow> length es + sd_work s' \<le> sd_work s + 2 * length (filter is_Accept es)"
proof (induction rule: sd_run.induct)
  case (sd_snoc s es s1 e s2)
  then show ?case using step_works [OF sd_snoc.hyps(2)] by (cases "is_Accept e") auto
qed simp

subsection \<open>Ready tasks end, others do not\<close>

text \<open>Every server that still runs is stopping or about to be woken.\<close>

definition all_notified :: "'n notify_ops \<Rightarrow> 'n shutdown_state \<Rightarrow> bool" where
  "all_notified ops s \<longleftrightarrow> (\<forall>t. tk_server (sd_tasks s t) \<and> live s t \<longrightarrow>
     tk_waiting (sd_tasks s t) \<and> (tk_stopping (sd_tasks s t) \<or> ntf_ready ops t (sd_notify s)))"

definition returned :: "'n shutdown_state \<Rightarrow> bool" where
  "returned s \<longleftrightarrow> (\<exists>r. sd_phase s = Returned r)"

context tokio_notify
begin

lemma all_notified_step:
  assumes "sd_step ops s e s'" and "all_notified ops s"
  shows "all_notified ops s'"
  using assms
  by (induction rule: sd_step.cases)
    (auto simp: all_notified_def live_def ready_notified ready_waiters split: if_splits)

text \<open>When all are notified and \<open>serve\<close> has not returned, some step that is neither an accept nor a failure is
  possible.\<close>

lemma task_progress:
  assumes "all_notified ops s" and "live s t"
  shows "\<exists>e s'. sd_step ops s e s' \<and> \<not> is_Accept e \<and> \<not> is_Failed e"
proof (cases "tk_server (sd_tasks s t)")
  case False
  then show ?thesis using empty [OF assms(2)] by fastforce
next
  case True
  then have w: "tk_waiting (sd_tasks s t)" "tk_stopping (sd_tasks s t) \<or> ntf_ready ops t (sd_notify s)"
    using assms by (auto simp: all_notified_def)
  consider "\<not> tk_stopping (sd_tasks s t)" | "tk_stopping (sd_tasks s t)" "tk_conns (sd_tasks s t) = 0"
    | "0 < tk_conns (sd_tasks s t)" by blast
  then show ?thesis
  proof cases
    case 1
    then show ?thesis using wake [OF assms(2) w(1)] w(2) by fastforce
  next
    case 2
    then show ?thesis using drained [OF assms(2)] by fastforce
  next
    case 3
    then show ?thesis using close [OF assms(2)] by fastforce
  qed
qed

lemma progress:
  assumes "all_notified ops s" and "signalled s"
  shows "returned s \<or> (\<exists>e s'. sd_step ops s e s' \<and> \<not> is_Accept e \<and> \<not> is_Failed e)"
proof (cases "returned s")
  case False
  then obtain ts where ts: "sd_phase s = Joining ts" using assms(2) by (auto simp: signalled_def returned_def)
  show ?thesis
  proof (cases ts)
    case Nil
    then show ?thesis using ts join_done by fastforce
  next
    case (Cons t us)
    then have ph: "sd_phase s = Joining (t # us)" using ts by simp
    show ?thesis
    proof (cases "tk_result (sd_tasks s t)")
      case None
      then show ?thesis using task_progress [OF assms(1)] by (simp add: live_def)
    next
      case (Some r)
      then have "\<exists>s'. sd_step ops s Join s'" using join_ok [OF ph] join_err [OF ph] by (cases r) auto
      then show ?thesis by fastforce
    qed
  qed
qed simp

lemma after_signal_run:
  assumes "all_notified ops s" and "signalled s" and "sd_run ops s es s'"
  shows "all_notified ops s' \<and> signalled s'"
  by (rule sd_run_invariant [OF assms(3), where P = "\<lambda>_. True" and Q = "\<lambda>s. all_notified ops s \<and> signalled s"])
    (use assms all_notified_step signalled_step in auto)

lemma signal_notifies:
  assumes "quiet s" and "sd_step ops s Signal s'"
    and "\<forall>t. tk_server (sd_tasks s t) \<and> live s t \<longrightarrow> tk_waiting (sd_tasks s t)"
  shows "all_notified ops s' \<and> signalled s'"
  using quiet_signal [OF assms(1,2)] assms(3) by (simp add: all_notified_def signalled_def live_def)

text \<open>A task that has not called \<open>notified\<close> when the signal comes is never woken, and without a failure it runs
  for ever, so \<open>serve\<close> waits for ever.\<close>

definition deaf :: "task \<Rightarrow> 'n shutdown_state \<Rightarrow> bool" where
  "deaf t s \<longleftrightarrow> live s t \<and> tk_server (sd_tasks s t) \<and> \<not> tk_stopping (sd_tasks s t) \<and> \<not> ntf_ready ops t (sd_notify s)
   \<and> (\<exists>ts. sd_phase s = Joining ts \<and> t \<in> set ts) \<and> (\<forall>u e. tk_result (sd_tasks s u) \<noteq> Some (Inl e))"

lemma deaf_step:
  assumes "sd_step ops s e s'" and "\<not> is_Failed e" and "deaf t s"
  shows "deaf t s'"
  using assms by (induction rule: sd_step.cases) (auto simp: deaf_def live_def ready_notified split: if_splits)

lemma deaf_run:
  assumes "sd_run ops s es s'" and "\<forall>e \<in> set es. \<not> is_Failed e" and "deaf t s"
  shows "deaf t s'"
  by (rule sd_run_invariant [OF assms(1), where P = "\<lambda>e. \<not> is_Failed e" and Q = "deaf t"])
    (use assms deaf_step in auto)

end

lemma no_failure_results:
  assumes "sd_run ops s es s'" and "\<forall>e \<in> set es. \<not> is_Failed e" and "\<forall>u e. tk_result (sd_tasks s u) \<noteq> Some (Inl e)"
  shows "\<forall>u e. tk_result (sd_tasks s' u) \<noteq> Some (Inl e)"
  by (rule sd_run_invariant [OF assms(1), where P = "\<lambda>e. \<not> is_Failed e" and Q = "\<lambda>s. \<forall>u e. tk_result (sd_tasks s u) \<noteq> Some (Inl e)"])
    (use assms in \<open>auto elim!: sd_step.cases split: if_splits\<close>)

lemma init_results: "tk_result (sd_tasks (sd_init ops cfg) t) = None"
  by (cases t) (simp_all add: sd_init_def spawned_def)

lemma server_kept:
  assumes "sd_run ops s es s'"
  shows "tk_server (sd_tasks s' t) = tk_server (sd_tasks s t) \<and> tk_tls (sd_tasks s' t) = tk_tls (sd_tasks s t)"
  by (rule sd_run_invariant [OF assms, where P = "\<lambda>_. True"
        and Q = "\<lambda>x. tk_server (sd_tasks x t) = tk_server (sd_tasks s t) \<and> tk_tls (sd_tasks x t) = tk_tls (sd_tasks s t)"])
    (auto elim!: sd_step.cases split: if_splits)

text \<open>Runs of the concrete \<open>Notify\<close> under the example configuration.\<close>

definition sample_start :: "(task set \<times> task set) shutdown_state" where
  "sample_start = sd_init set_notify example_config"

lemma sample_start_tasks [simp]: "sd_tasks sample_start t = spawned True False" "sd_phase sample_start = AwaitSignal"
  by (cases t) (simp_all add: sample_start_def sd_init_def server_defaults)

lemma sample_signal: "sd_phase s = AwaitSignal \<Longrightarrow> \<exists>s1. sd_step ops s Signal s1"
  using signal [of s True True True "[SigTerm]" ops] by (auto simp: shutdown_signal_def)

definition registered :: "task \<Rightarrow> (task set \<times> task set) shutdown_state \<Rightarrow> (task set \<times> task set) shutdown_state" where
  "registered t s = upd_task t (tk_waiting_update (\<lambda>_. True)) (s\<lparr>sd_notify := ntf_notified set_notify t (sd_notify s)\<rparr>)"

lemma registered_simps [simp]:
  "sd_phase (registered t s) = sd_phase s"
  "sd_tasks (registered t s) u = (if u = t then (sd_tasks s t)\<lparr>tk_waiting := True\<rparr> else sd_tasks s u)"
  by (simp_all add: registered_def upd_task_def)

lemma sample_registered:
  "sd_run set_notify sample_start ([] @ [Register Main_task] @ [Register Admin_task] @ [Register Metrics_task])
     (registered Metrics_task (registered Admin_task (registered Main_task sample_start)))"
proof -
  have r: "live s t \<Longrightarrow> tk_server (sd_tasks s t) \<Longrightarrow> \<not> tk_waiting (sd_tasks s t) \<Longrightarrow>
      sd_step set_notify s (Register t) (registered t s)" for s t
    unfolding registered_def by (rule register)
  have "sd_run set_notify sample_start ([] @ [Register Main_task]) (registered Main_task sample_start)"
    by (rule sd_snoc [OF sd_nil r]) (simp_all add: live_def spawned_def)
  then have "sd_run set_notify sample_start (([] @ [Register Main_task]) @ [Register Admin_task])
      (registered Admin_task (registered Main_task sample_start))"
    by (rule sd_snoc [OF _ r]) (simp_all add: live_def spawned_def)
  then have "sd_run set_notify sample_start ((([] @ [Register Main_task]) @ [Register Admin_task]) @ [Register Metrics_task])
      (registered Metrics_task (registered Admin_task (registered Main_task sample_start)))"
    by (rule sd_snoc [OF _ r]) (simp_all add: live_def spawned_def)
  then show ?thesis by simp
qed

subsection \<open>Properties\<close>

text \<open>C7. Graceful shutdown terminates: when the signal comes after every running server has called
  \<open>shutdown.notified()\<close>, every schedule that follows is bounded by the work left at the signal (a constant plus
  the open connections) plus two steps for every connection still accepted before the server is woken, and
  until \<open>serve\<close> has returned some step is possible that is neither a new connection nor a failure. No
  schedule gets stuck, and none runs for ever unless clients keep connecting.\<close>

theorem graceful_shutdown_terminates:
  assumes "tokio_notify ops created" and "sd_run ops (sd_init ops cfg) es s" and "sd_step ops s Signal s1"
    and "\<forall>t. tk_server (sd_tasks s t) \<and> live s t \<longrightarrow> tk_waiting (sd_tasks s t)"
    and "sd_run ops s1 es1 s2"
  shows "length es1 + sd_work s2 \<le> sd_work s1 + 2 * length (filter is_Accept es1)
    \<and> (returned s2 \<or> (\<exists>e s3. sd_step ops s2 e s3 \<and> \<not> is_Accept e \<and> \<not> is_Failed e))"
proof -
  have "tokio_notify.quiet ops created s"
    by (rule tokio_notify.quiet_run [OF assms(1,2) tokio_notify.quiet_init [OF assms(1)]])
  from tokio_notify.signal_notifies [OF assms(1) this assms(3,4)]
  have "all_notified ops s2 \<and> tokio_notify.signalled s2"
    using tokio_notify.after_signal_run [OF assms(1) _ _ assms(5)] by blast
  then show ?thesis using run_works [OF assms(5)] tokio_notify.progress [OF assms(1)] by blast
qed

theorem graceful_shutdown_terminates_witness:
  "\<exists>s1 e s3. (sd_phase s1 = Joining [Main_task, Metrics_task, Admin_task]) \<and> sd_step set_notify s1 e s3 \<and> \<not> is_Accept e \<and> \<not> is_Failed e"
proof -
  let ?s = "registered Metrics_task (registered Admin_task (registered Main_task sample_start))"
  obtain s1 where sig: "sd_step set_notify ?s Signal s1" using sample_signal [of ?s set_notify] by auto
  have "sd_phase s1 = Joining [Main_task, Metrics_task, Admin_task]" using sig by (rule sd_signalE) auto
  moreover have "tk_waiting (sd_tasks ?s t)" for t by (cases t) simp_all
  ultimately show ?thesis
    using graceful_shutdown_terminates [OF sets.tokio_notify_axioms sample_registered [unfolded sample_start_def]
        sig [unfolded sample_start_def] _ sd_nil]
    by (fastforce simp: returned_def sample_start_def)
qed

text \<open>C10. A shutdown signal can be lost: if it comes before a server task has called \<open>shutdown.notified()\<close>
  (for TLS, before the key pair is loaded), that server is never told to stop, since \<open>notify_waiters\<close> stores
  no permit. Unless a server fails, \<open>serve\<close> never returns, in any schedule, although the signal was consumed.\<close>

theorem early_signal_is_lost:
  assumes "tokio_notify ops created" and "sd_run ops (sd_init ops cfg) es s" and "sd_step ops s Signal s1"
    and "tk_server (sd_tasks s t)" and "live s t" and "\<not> tk_waiting (sd_tasks s t)"
    and "sd_run ops s1 es1 s2" and "\<forall>e \<in> set (es @ es1). \<not> is_Failed e"
  shows "live s2 t \<and> \<not> returned s2"
proof -
  have quiet: "tokio_notify.quiet ops created s"
    by (rule tokio_notify.quiet_run [OF assms(1,2) tokio_notify.quiet_init [OF assms(1)]])
  have "\<forall>u e. tk_result (sd_tasks s u) \<noteq> Some (Inl e)"
    by (rule no_failure_results [OF assms(2)]) (use assms(8) in \<open>auto simp: init_results\<close>)
  then have "tokio_notify.deaf ops t s1"
    using tokio_notify.quiet_signal [OF assms(1) quiet assms(3)] assms(4-6)
    by (cases t) (auto simp: tokio_notify.deaf_def [OF assms(1)] live_def)
  then have "tokio_notify.deaf ops t s2"
    using tokio_notify.deaf_run [OF assms(1,7)] assms(8) by auto
  then show ?thesis by (auto simp: tokio_notify.deaf_def [OF assms(1)] returned_def)
qed

theorem early_signal_is_lost_witness:
  "\<exists>s1. sd_step set_notify sample_start Signal s1 \<and> live s1 Main_task \<and> \<not> returned s1"
proof -
  obtain s1 where sig: "sd_step set_notify sample_start Signal s1" using sample_signal [of sample_start set_notify] by auto
  have "live sample_start Main_task" "tk_server (sd_tasks sample_start Main_task)" "\<not> tk_waiting (sd_tasks sample_start Main_task)"
    by (simp_all add: live_def spawned_def)
  then show ?thesis
    using early_signal_is_lost [OF sets.tokio_notify_axioms sd_nil sig [unfolded sample_start_def], of Main_task "[]"] sd_nil sig
    by (fastforce simp: sample_start_def)
qed

subsection \<open>The collected results\<close>

definition outcome_of :: "'n shutdown_state \<Rightarrow> task \<Rightarrow> string + unit" where
  "outcome_of s t = (case tk_result (sd_tasks s t) of Some r \<Rightarrow> r | None \<Rightarrow> Inr ())"

definition collected :: "'n shutdown_state \<Rightarrow> string + unit" where
  "collected s = try_then (outcome_of s Main_task) (\<lambda>_. try_then (outcome_of s Metrics_task) (\<lambda>_. outcome_of s Admin_task))"

definition joined :: "'n shutdown_state \<Rightarrow> bool" where
  "joined s \<longleftrightarrow>
     (case sd_phase s of
        Joining ts \<Rightarrow> \<exists>xs. xs @ ts = [Main_task, Metrics_task, Admin_task] \<and> (\<forall>u \<in> set xs. tk_result (sd_tasks s u) = Some (Inr ()))
      | Returned (Inr _) \<Rightarrow> \<forall>u. tk_result (sd_tasks s u) = Some (Inr ())
      | Returned (Inl e) \<Rightarrow> \<exists>xs t ys. xs @ t # ys = [Main_task, Metrics_task, Admin_task] \<and> tk_result (sd_tasks s t) = Some (Inl e)
            \<and> (\<forall>u \<in> set xs. tk_result (sd_tasks s u) = Some (Inr ()))
      | _ \<Rightarrow> True)"

lemma joined_mono:
  assumes "joined s" and "sd_phase s' = sd_phase s"
    and "\<And>u r. tk_result (sd_tasks s u) = Some r \<Longrightarrow> tk_result (sd_tasks s' u) = Some r"
  shows "joined s'"
proof (cases "sd_phase s")
  case (Returned r)
  then show ?thesis using assms by (cases r) (simp_all add: joined_def, meson)
qed (use assms in \<open>auto simp: joined_def\<close>)

lemma results_final:
  "sd_step ops s e s' \<Longrightarrow> tk_result (sd_tasks s u) = Some r \<Longrightarrow> tk_result (sd_tasks s' u) = Some r"
  by (induction rule: sd_step.cases) (auto simp: live_def)

lemma joined_step:
  assumes "sd_step ops s e s'" and "joined s"
  shows "joined s'"
proof (cases "sd_phase s' = sd_phase s")
  case True
  then show ?thesis using joined_mono [OF assms(2)] results_final [OF assms(1)] by blast
next
  case False
  from assms(1) False show ?thesis
  proof cases
    case (join_ok t ts)
    then obtain xs where "xs @ t # ts = [Main_task, Metrics_task, Admin_task]" "\<forall>u \<in> set xs. tk_result (sd_tasks s u) = Some (Inr ())"
      using assms(2) by (auto simp: joined_def)
    then have "\<exists>ys. ys @ ts = [Main_task, Metrics_task, Admin_task] \<and> (\<forall>u \<in> set ys. tk_result (sd_tasks s u) = Some (Inr ()))"
      using join_ok by (intro exI [of _ "xs @ [t]"]) auto
    then show ?thesis using join_ok by (simp add: joined_def)
  next
    case join_done
    then have "\<forall>u \<in> {Main_task, Metrics_task, Admin_task}. tk_result (sd_tasks s u) = Some (Inr ())"
      using assms(2) by (auto simp: joined_def)
    then have "tk_result (sd_tasks s u) = Some (Inr ())" for u by (cases u) simp_all
    then show ?thesis using join_done by (simp add: joined_def)
  qed (use assms(2) in \<open>auto simp: joined_def\<close>)
qed

text \<open>What \<open>serve\<close> returns is what the model of \<open>serve\<close> in \<open>Gate_Main\<close> computes: the first error in the order
  main, metrics, administration, or success.\<close>

lemma returned_is_collected:
  assumes "sd_run ops (sd_init ops cfg) es s" and "sd_phase s = Returned r"
  shows "r = collected s"
proof -
  have "joined s"
    by (rule sd_run_invariant [OF assms(1), where P = "\<lambda>_. True" and Q = joined])
      (auto simp: joined_def sd_init_def intro: joined_step [unfolded joined_def])
  then show ?thesis using assms(2)
    by (cases r) (auto simp: joined_def collected_def outcome_of_def append_eq_Cons_conv Cons_eq_append_conv)
qed

lemma returned_is_serve_gateway:
  assumes "sd_run ops (sd_init ops (st_config st)) es s" and "sd_phase s = Returned r"
    and "build_state L open_db clock now config x = Inr (st, pools)" and "open_listeners os (st_config st) = Inr held"
    and "outcome_of s Main_task = main_task os (st_config st) held" and "outcome_of s Metrics_task = metrics_task os (st_config st)"
    and "outcome_of s Admin_task = admin_task os"
  shows "r = serve_gateway L os open_db clock now config x"
  using returned_is_collected [OF assms(1,2)] assms(3-7) by (simp add: serve_gateway_def collected_def)

end
