(* ===== verification/Gate_Toml.thy ===== *)
theory Gate_Toml
  imports Gate_Config "HOL-Library.Monad_Syntax"
begin

text \<open>
  How a configuration file becomes a \<open>Config\<close>: the \<open>Deserialize\<close> and \<open>Serialize\<close> implementations that the
  derive attributes of \<open>src/config/mod.rs\<close> ask for, field by field with their \<open>default\<close> and \<open>rename\<close>
  attributes. A document is a tree of TOML values. What the crates \<open>serde\<close> and \<open>toml\<close> do at the leaves, reading
  a boolean, a string, an unsigned integer of some width, a unit variant, an address, a sequence, or a field
  of a struct, is the parameter \<open>de_ops\<close>, with the documented laws in locale \<open>serde_toml\<close>. The result is \<open>None\<close>
  when the deserializer reports an error, whose text is the library's.
\<close>

datatype toml =
    TString string | TInteger int | TFloat string | TBoolean bool | TDatetime string
  | TArray "toml list" | TTable "(string \<times> toml) list"

text \<open>A struct is read from a table by the names of its fields; \<open>serde\<close> also reads one from a sequence, by
  position, where \<open>AtEnd\<close> means that the sequence is too short for the field.\<close>

datatype field = NotStruct | Missing | AtEnd | Present toml

record de_ops =
  de_bool :: "toml \<Rightarrow> bool option"
  de_string :: "toml \<Rightarrow> string option"
  de_uint :: "nat \<Rightarrow> toml \<Rightarrow> nat option" \<comment> \<open>the width in bits\<close>
  de_variant :: "string list \<Rightarrow> toml \<Rightarrow> string option"
  de_addr :: "toml \<Rightarrow> socket_addr option"
  de_seq :: "toml \<Rightarrow> toml list option"
  de_field :: "nat \<Rightarrow> string \<Rightarrow> toml \<Rightarrow> field"
  show_addr :: "socket_addr \<Rightarrow> string"

subsection \<open>Attributes\<close>

text \<open>A field with \<open>#[serde(default ...)]\<close>, one without, and an \<open>Option\<close> without.\<close>

definition with_default :: "de_ops \<Rightarrow> nat \<Rightarrow> string \<Rightarrow> (toml \<Rightarrow> 'a option) \<Rightarrow> 'a \<Rightarrow> toml \<Rightarrow> 'a option" where
  "with_default D i name d dflt v =
     (case de_field D i name v of Present w \<Rightarrow> d w | Missing \<Rightarrow> Some dflt | AtEnd \<Rightarrow> Some dflt | NotStruct \<Rightarrow> None)"

definition required :: "de_ops \<Rightarrow> nat \<Rightarrow> string \<Rightarrow> (toml \<Rightarrow> 'a option) \<Rightarrow> toml \<Rightarrow> 'a option" where
  "required D i name d v = (case de_field D i name v of Present w \<Rightarrow> d w | _ \<Rightarrow> None)"

definition optional :: "de_ops \<Rightarrow> nat \<Rightarrow> string \<Rightarrow> (toml \<Rightarrow> 'a option) \<Rightarrow> toml \<Rightarrow> 'a option option" where
  "optional D i name d v =
     (case de_field D i name v of Present w \<Rightarrow> map_option Some (d w) | Missing \<Rightarrow> Some None | _ \<Rightarrow> None)"

definition de_u32 :: "de_ops \<Rightarrow> toml \<Rightarrow> u32 option" where
  "de_u32 D v = map_option of_nat (de_uint D 32 v)"

definition de_u64 :: "de_ops \<Rightarrow> toml \<Rightarrow> u64 option" where
  "de_u64 D v = map_option of_nat (de_uint D 64 v)"

definition de_vec :: "de_ops \<Rightarrow> (toml \<Rightarrow> 'a option) \<Rightarrow> toml \<Rightarrow> 'a list option" where
  "de_vec D d v = Option.bind (de_seq D v) (\<lambda>vs. those (map d vs))"

text \<open>An enum with the names of its variants: \<open>rename_all = "lowercase"\<close>, and the \<open>rename\<close>s of \<open>TlsVersion\<close>.\<close>

definition de_enum :: "de_ops \<Rightarrow> (string \<times> 'a) list \<Rightarrow> toml \<Rightarrow> 'a option" where
  "de_enum D variants v = Option.bind (de_variant D (map fst variants) v) (map_of variants)"

definition log_levels :: "(string \<times> log_level) list" where
  "log_levels = [(''trace'', Trace), (''debug'', Debug), (''info'', Info), (''warn'', Warn), (''error'', Error)]"

definition log_formats :: "(string \<times> log_format) list" where
  "log_formats = [(''json'', Json), (''pretty'', Pretty)]"

definition algorithms :: "(string \<times> load_balancing_algorithm) list" where
  "algorithms = [(''wrr'', Wrr), (''lc'', Lc), (''random'', Random)]"

definition rate_stores :: "(string \<times> rate_limit_store) list" where
  "rate_stores = [(''memory'', RateMemory), (''redis'', RateRedis)]"

definition key_stores :: "(string \<times> key_store_kind) list" where
  "key_stores = [(''sqlite'', KeySqlite), (''redis'', KeyRedis)]"

definition cache_backends :: "(string \<times> cache_backend) list" where
  "cache_backends = [(''memory'', CacheMemory), (''redis'', CacheRedis)]"

definition tls_versions :: "(string \<times> tls_version) list" where
  "tls_versions = [(''tls1.2'', Tls12), (''tls1.3'', Tls13)]"

lemmas variant_defs = log_levels_def log_formats_def algorithms_def rate_stores_def key_stores_def cache_backends_def tls_versions_def

subsection \<open>Deserialize\<close>

definition de_server_config :: "de_ops \<Rightarrow> toml \<Rightarrow> server_config option" where
  "de_server_config D v = do {
     bind \<leftarrow> with_default D 0 ''bind'' (de_addr D) default_bind v;
     admin \<leftarrow> with_default D 1 ''admin_bind'' (de_addr D) default_admin_bind v;
     metrics \<leftarrow> with_default D 2 ''metrics_bind'' (de_addr D) default_metrics_bind v;
     level \<leftarrow> with_default D 3 ''log_level'' (de_enum D log_levels) Info v;
     format \<leftarrow> with_default D 4 ''log_format'' (de_enum D log_formats) Json v;
     timeout \<leftarrow> with_default D 5 ''request_timeout_ms'' (de_u64 D) default_request_timeout_ms v;
     conns \<leftarrow> with_default D 6 ''max_connections'' (de_u32 D) default_max_connections v;
     workers \<leftarrow> with_default D 7 ''worker_threads'' (de_u64 D) default_worker_threads v;
     Some \<lparr>srv_bind = bind, admin_bind = admin, metrics_bind = metrics, srv_log_level = level, srv_log_format = format,
           request_timeout_ms = timeout, server_max_connections = conns, worker_threads = workers\<rparr>
   }"

definition de_tls_config :: "de_ops \<Rightarrow> toml \<Rightarrow> tls_config option" where
  "de_tls_config D v = do {
     enabled \<leftarrow> with_default D 0 ''enabled'' (de_bool D) False v;
     cert \<leftarrow> with_default D 1 ''cert_file'' (de_string D) '''' v;
     key \<leftarrow> with_default D 2 ''key_file'' (de_string D) '''' v;
     version \<leftarrow> with_default D 3 ''min_version'' (de_enum D tls_versions) Tls12 v;
     Some \<lparr>tls_enabled = enabled, cert_file = cert, key_file = key, min_version = version\<rparr>
   }"

definition de_upstream_config :: "de_ops \<Rightarrow> toml \<Rightarrow> upstream_config option" where
  "de_upstream_config D v = do {
     url \<leftarrow> required D 0 ''url'' (de_string D) v;
     weight \<leftarrow> with_default D 1 ''weight'' (de_u32 D) default_weight v;
     conns \<leftarrow> optional D 2 ''max_connections'' (de_u32 D) v;
     Some \<lparr>uc_url = url, uc_weight = weight, uc_max_connections = conns\<rparr>
   }"

definition de_pool_config :: "de_ops \<Rightarrow> toml \<Rightarrow> pool_config option" where
  "de_pool_config D v = do {
     name \<leftarrow> required D 0 ''name'' (de_string D) v;
     alg \<leftarrow> with_default D 1 ''algorithm'' (de_enum D algorithms) Wrr v;
     ups \<leftarrow> with_default D 2 ''upstreams'' (de_vec D (de_upstream_config D)) [] v;
     Some \<lparr>pc_name = name, pc_algorithm = alg, pc_upstreams = ups\<rparr>
   }"

definition de_health_check_config :: "de_ops \<Rightarrow> toml \<Rightarrow> health_check_config option" where
  "de_health_check_config D v = do {
     interval \<leftarrow> with_default D 0 ''interval_ms'' (de_u64 D) default_health_interval_ms v;
     timeout \<leftarrow> with_default D 1 ''timeout_ms'' (de_u64 D) default_health_timeout_ms v;
     up \<leftarrow> with_default D 2 ''healthy_threshold'' (de_u32 D) default_healthy_threshold v;
     down \<leftarrow> with_default D 3 ''unhealthy_threshold'' (de_u32 D) default_unhealthy_threshold v;
     m \<leftarrow> with_default D 4 ''method'' (de_string D) default_health_method v;
     window \<leftarrow> with_default D 5 ''warm_up_window_secs'' (de_u64 D) default_warm_up_window_secs v;
     Some \<lparr>interval_ms = interval, timeout_ms = timeout, healthy_threshold = up, unhealthy_threshold = down,
           health_method = m, warm_up_window_secs = window\<rparr>
   }"

definition de_routing_rule :: "de_ops \<Rightarrow> toml \<Rightarrow> routing_rule option" where
  "de_routing_rule D v = do {
     methods \<leftarrow> required D 0 ''methods'' (de_vec D (de_string D)) v;
     pool \<leftarrow> required D 1 ''pool'' (de_string D) v;
     Some \<lparr>rr_methods = methods, rr_pool = pool\<rparr>
   }"

definition de_routing_config :: "de_ops \<Rightarrow> toml \<Rightarrow> routing_config option" where
  "de_routing_config D v = do {
     pool \<leftarrow> with_default D 0 ''default_pool'' (de_string D) default_default_pool v;
     rules \<leftarrow> with_default D 1 ''rules'' (de_vec D (de_routing_rule D)) [] v;
     Some \<lparr>rc_default_pool = pool, rc_rules = rules\<rparr>
   }"

definition de_rate_limit_config :: "de_ops \<Rightarrow> toml \<Rightarrow> rate_limit_config option" where
  "de_rate_limit_config D v = do {
     enabled \<leftarrow> with_default D 0 ''enabled'' (de_bool D) default_true v;
     store \<leftarrow> with_default D 1 ''store'' (de_enum D rate_stores) RateMemory v;
     rps \<leftarrow> with_default D 2 ''ip_fallback_rps'' (de_u32 D) default_ip_fallback_rps v;
     burst \<leftarrow> with_default D 3 ''ip_fallback_burst'' (de_u32 D) default_ip_fallback_burst v;
     Some \<lparr>rl_enabled = enabled, rl_store = store, ip_fallback_rps = rps, ip_fallback_burst = burst\<rparr>
   }"

definition de_key_tier :: "de_ops \<Rightarrow> toml \<Rightarrow> key_tier option" where
  "de_key_tier D v = do {
     name \<leftarrow> required D 0 ''name'' (de_string D) v;
     rps \<leftarrow> required D 1 ''requests_per_second'' (de_u32 D) v;
     burst \<leftarrow> required D 2 ''burst'' (de_u32 D) v;
     daily \<leftarrow> required D 3 ''daily_limit'' (de_u64 D) v;
     Some \<lparr>kt_name = name, requests_per_second = rps, kt_burst = burst, daily_limit = daily\<rparr>
   }"

definition de_auth_config :: "de_ops \<Rightarrow> toml \<Rightarrow> auth_config option" where
  "de_auth_config D v = do {
     enabled \<leftarrow> with_default D 0 ''enabled'' (de_bool D) default_true v;
     allow \<leftarrow> with_default D 1 ''allow_unauthenticated'' (de_bool D) default_true v;
     store \<leftarrow> with_default D 2 ''key_store'' (de_enum D key_stores) KeySqlite v;
     path \<leftarrow> with_default D 3 ''db_path'' (de_string D) default_db_path v;
     ts \<leftarrow> with_default D 4 ''tiers'' (de_vec D (de_key_tier D)) [] v;
     Some \<lparr>auth_enabled = enabled, allow_unauthenticated = allow, auth_key_store = store, db_path = path, tiers = ts\<rparr>
   }"

definition de_cache_rule :: "de_ops \<Rightarrow> toml \<Rightarrow> cache_rule option" where
  "de_cache_rule D v = do {
     methods \<leftarrow> required D 0 ''methods'' (de_vec D (de_string D)) v;
     ttl \<leftarrow> with_default D 1 ''ttl_secs'' (de_u64 D) 0 v;
     Some \<lparr>cr_methods = methods, ttl_secs = ttl\<rparr>
   }"

definition de_cache_config :: "de_ops \<Rightarrow> toml \<Rightarrow> cache_config option" where
  "de_cache_config D v = do {
     enabled \<leftarrow> with_default D 0 ''enabled'' (de_bool D) default_true v;
     backend \<leftarrow> with_default D 1 ''backend'' (de_enum D cache_backends) CacheMemory v;
     mb \<leftarrow> with_default D 2 ''max_memory_mb'' (de_u64 D) default_max_memory_mb v;
     url \<leftarrow> optional D 3 ''redis_url'' (de_string D) v;
     rules \<leftarrow> with_default D 4 ''rules'' (de_vec D (de_cache_rule D)) [] v;
     Some \<lparr>cache_enabled = enabled, cc_backend = backend, max_memory_mb = mb, redis_url = url, cc_rules = rules\<rparr>
   }"

definition de_telemetry_config :: "de_ops \<Rightarrow> toml \<Rightarrow> telemetry_config option" where
  "de_telemetry_config D v = do {
     metrics \<leftarrow> with_default D 0 ''metrics_enabled'' (de_bool D) default_metrics_enabled v;
     tracing \<leftarrow> with_default D 1 ''tracing_enabled'' (de_bool D) False v;
     otlp \<leftarrow> optional D 2 ''otlp_endpoint'' (de_string D) v;
     Some \<lparr>metrics_enabled = metrics, tracing_enabled = tracing, otlp_endpoint = otlp\<rparr>
   }"

definition de_config :: "de_ops \<Rightarrow> toml \<Rightarrow> config option" where
  "de_config D v = do {
     server \<leftarrow> with_default D 0 ''server'' (de_server_config D) server_config_default v;
     tls \<leftarrow> with_default D 1 ''tls'' (de_tls_config D) tls_config_default v;
     pools \<leftarrow> with_default D 2 ''pools'' (de_vec D (de_pool_config D)) [] v;
     hc \<leftarrow> with_default D 3 ''health_check'' (de_health_check_config D) health_check_config_default v;
     routing \<leftarrow> with_default D 4 ''routing'' (de_routing_config D) routing_config_default v;
     rate \<leftarrow> with_default D 5 ''rate_limit'' (de_rate_limit_config D) rate_limit_config_default v;
     auth \<leftarrow> with_default D 6 ''auth'' (de_auth_config D) auth_config_default v;
     cache \<leftarrow> with_default D 7 ''cache'' (de_cache_config D) cache_config_default v;
     telemetry \<leftarrow> with_default D 8 ''telemetry'' (de_telemetry_config D) telemetry_config_default v;
     Some \<lparr>cfg_server = server, cfg_tls = tls, cfg_pools = pools, cfg_health_check = hc, cfg_routing = routing,
           cfg_rate_limit = rate, cfg_auth = auth, cfg_cache = cache, cfg_telemetry = telemetry\<rparr>
   }"

text \<open>\<open>toml::de::from_str\<close>: the parser of the TOML grammar, then the above; both report errors as text.\<close>

definition toml_from_str :: "de_ops \<Rightarrow> (string \<Rightarrow> string + toml) \<Rightarrow> (toml \<Rightarrow> string) \<Rightarrow> string \<Rightarrow> string + config" where
  "toml_from_str D parse describe text =
     try_then (parse text) (\<lambda>v. case de_config D v of Some c \<Rightarrow> Inr c | None \<Rightarrow> Inl (describe v))"

subsection \<open>Serialize\<close>

text \<open>An integer of TOML is an \<open>i64\<close>: a larger \<open>u64\<close> cannot be written. An \<open>Option\<close> that is \<open>None\<close> is left out.\<close>

definition en_u32 :: "u32 \<Rightarrow> toml" where
  "en_u32 n = TInteger (uint n)"

definition en_u64 :: "u64 \<Rightarrow> toml option" where
  "en_u64 n = (if uint n < 2 ^ 63 then Some (TInteger (uint n)) else None)"

definition en_enum :: "(string \<times> 'a) list \<Rightarrow> 'a \<Rightarrow> toml" where
  "en_enum variants x = TString (fst (hd (filter (\<lambda>p. snd p = x) variants)))"

definition en_vec :: "('a \<Rightarrow> toml option) \<Rightarrow> 'a list \<Rightarrow> toml option" where
  "en_vec e xs = map_option TArray (those (map e xs))"

definition en_strings :: "string list \<Rightarrow> toml" where
  "en_strings xs = TArray (map TString xs)"

definition en_opt :: "string \<Rightarrow> ('a \<Rightarrow> toml) \<Rightarrow> 'a option \<Rightarrow> (string \<times> toml) list" where
  "en_opt name e x = (case x of None \<Rightarrow> [] | Some y \<Rightarrow> [(name, e y)])"

definition en_server_config :: "de_ops \<Rightarrow> server_config \<Rightarrow> toml option" where
  "en_server_config D c = do {
     timeout \<leftarrow> en_u64 (request_timeout_ms c);
     workers \<leftarrow> en_u64 (worker_threads c);
     Some (TTable [(''bind'', TString (show_addr D (srv_bind c))), (''admin_bind'', TString (show_addr D (admin_bind c))),
       (''metrics_bind'', TString (show_addr D (metrics_bind c))), (''log_level'', en_enum log_levels (srv_log_level c)),
       (''log_format'', en_enum log_formats (srv_log_format c)), (''request_timeout_ms'', timeout),
       (''max_connections'', en_u32 (server_max_connections c)), (''worker_threads'', workers)])
   }"

definition en_tls_config :: "tls_config \<Rightarrow> toml" where
  "en_tls_config c = TTable [(''enabled'', TBoolean (tls_enabled c)), (''cert_file'', TString (cert_file c)),
     (''key_file'', TString (key_file c)), (''min_version'', en_enum tls_versions (min_version c))]"

definition en_upstream_config :: "upstream_config \<Rightarrow> toml" where
  "en_upstream_config c = TTable ([(''url'', TString (uc_url c)), (''weight'', en_u32 (uc_weight c))]
     @ en_opt ''max_connections'' en_u32 (uc_max_connections c))"

definition en_pool_config :: "pool_config \<Rightarrow> toml" where
  "en_pool_config c = TTable [(''name'', TString (pc_name c)), (''algorithm'', en_enum algorithms (pc_algorithm c)),
     (''upstreams'', TArray (map en_upstream_config (pc_upstreams c)))]"

definition en_health_check_config :: "health_check_config \<Rightarrow> toml option" where
  "en_health_check_config c = do {
     interval \<leftarrow> en_u64 (interval_ms c);
     timeout \<leftarrow> en_u64 (timeout_ms c);
     window \<leftarrow> en_u64 (warm_up_window_secs c);
     Some (TTable [(''interval_ms'', interval), (''timeout_ms'', timeout), (''healthy_threshold'', en_u32 (healthy_threshold c)),
       (''unhealthy_threshold'', en_u32 (unhealthy_threshold c)), (''method'', TString (health_method c)),
       (''warm_up_window_secs'', window)])
   }"

definition en_routing_rule :: "routing_rule \<Rightarrow> toml" where
  "en_routing_rule c = TTable [(''methods'', en_strings (rr_methods c)), (''pool'', TString (rr_pool c))]"

definition en_routing_config :: "routing_config \<Rightarrow> toml" where
  "en_routing_config c = TTable [(''default_pool'', TString (rc_default_pool c)),
     (''rules'', TArray (map en_routing_rule (rc_rules c)))]"

definition en_rate_limit_config :: "rate_limit_config \<Rightarrow> toml" where
  "en_rate_limit_config c = TTable [(''enabled'', TBoolean (rl_enabled c)), (''store'', en_enum rate_stores (rl_store c)),
     (''ip_fallback_rps'', en_u32 (ip_fallback_rps c)), (''ip_fallback_burst'', en_u32 (ip_fallback_burst c))]"

definition en_key_tier :: "key_tier \<Rightarrow> toml option" where
  "en_key_tier c = do {
     daily \<leftarrow> en_u64 (daily_limit c);
     Some (TTable [(''name'', TString (kt_name c)), (''requests_per_second'', en_u32 (requests_per_second c)),
       (''burst'', en_u32 (kt_burst c)), (''daily_limit'', daily)])
   }"

definition en_auth_config :: "auth_config \<Rightarrow> toml option" where
  "en_auth_config c = do {
     ts \<leftarrow> en_vec en_key_tier (tiers c);
     Some (TTable [(''enabled'', TBoolean (auth_enabled c)), (''allow_unauthenticated'', TBoolean (allow_unauthenticated c)),
       (''key_store'', en_enum key_stores (auth_key_store c)), (''db_path'', TString (db_path c)), (''tiers'', ts)])
   }"

definition en_cache_rule :: "cache_rule \<Rightarrow> toml option" where
  "en_cache_rule c = do {
     ttl \<leftarrow> en_u64 (ttl_secs c);
     Some (TTable [(''methods'', en_strings (cr_methods c)), (''ttl_secs'', ttl)])
   }"

definition en_cache_config :: "cache_config \<Rightarrow> toml option" where
  "en_cache_config c = do {
     mb \<leftarrow> en_u64 (max_memory_mb c);
     rules \<leftarrow> en_vec en_cache_rule (cc_rules c);
     Some (TTable ([(''enabled'', TBoolean (cache_enabled c)), (''backend'', en_enum cache_backends (cc_backend c)),
       (''max_memory_mb'', mb)] @ en_opt ''redis_url'' TString (redis_url c) @ [(''rules'', rules)]))
   }"

definition en_telemetry_config :: "telemetry_config \<Rightarrow> toml" where
  "en_telemetry_config c = TTable ([(''metrics_enabled'', TBoolean (metrics_enabled c)),
     (''tracing_enabled'', TBoolean (tracing_enabled c))] @ en_opt ''otlp_endpoint'' TString (otlp_endpoint c))"

definition en_config :: "de_ops \<Rightarrow> config \<Rightarrow> toml option" where
  "en_config D c = do {
     server \<leftarrow> en_server_config D (cfg_server c);
     hc \<leftarrow> en_health_check_config (cfg_health_check c);
     auth \<leftarrow> en_auth_config (cfg_auth c);
     cache \<leftarrow> en_cache_config (cfg_cache c);
     Some (TTable [(''server'', server), (''tls'', en_tls_config (cfg_tls c)),
       (''pools'', TArray (map en_pool_config (cfg_pools c))), (''health_check'', hc),
       (''routing'', en_routing_config (cfg_routing c)), (''rate_limit'', en_rate_limit_config (cfg_rate_limit c)),
       (''auth'', auth), (''cache'', cache), (''telemetry'', en_telemetry_config (cfg_telemetry c))])
   }"

text \<open>The keys of a document that \<open>Config\<close> declares.\<close>

definition known_sections :: "string list" where
  "known_sections = [''server'', ''tls'', ''pools'', ''health_check'', ''routing'', ''rate_limit'', ''auth'', ''cache'', ''telemetry'']"

lemma those_None: "x \<in> set xs \<Longrightarrow> f x = None \<Longrightarrow> those (map f xs) = None"
  by (induction xs) (auto split: option.split)

lemma map_of_other: "n \<noteq> k \<Longrightarrow> map_of (kvs1 @ (k, v) # kvs2) n = map_of (kvs1 @ kvs2) n"
  by (induction kvs1) auto

subsection \<open>The contract of the deserializer\<close>

fun addr_ok :: "socket_addr \<Rightarrow> bool" where
  "addr_ok (V4 octets p) \<longleftrightarrow> length octets = 4"
| "addr_ok (V6 segments p) \<longleftrightarrow> length segments = 8"

locale serde_toml =
  fixes D :: de_ops
  assumes bool [simp]: "de_bool D (TBoolean b) = Some b"
    and string [simp]: "de_string D (TString s) = Some s"
    and uint [simp]: "de_uint D w (TInteger n) = (if 0 \<le> n \<and> n < 2 ^ w then Some (nat n) else None)"
    and variant [simp]: "de_variant D names (TString s) = (if s \<in> set names then Some s else None)"
    and addr [simp]: "addr_ok a \<Longrightarrow> de_addr D (TString (show_addr D a)) = Some a"
    and seq [simp]: "de_seq D (TArray vs) = Some vs"
    and table [simp]: "de_field D i name (TTable kvs) = (case map_of kvs name of Some v \<Rightarrow> Present v | None \<Rightarrow> Missing)"
begin

lemma default_table [simp]:
  "with_default D i name d dflt (TTable kvs) = (case map_of kvs name of Some v \<Rightarrow> d v | None \<Rightarrow> Some dflt)"
  by (simp add: with_default_def split: option.split)

lemma required_table [simp]:
  "required D i name d (TTable kvs) = (case map_of kvs name of Some v \<Rightarrow> d v | None \<Rightarrow> None)"
  by (simp add: required_def split: option.split)

lemma optional_table [simp]:
  "optional D i name d (TTable kvs) = (case map_of kvs name of Some v \<Rightarrow> map_option Some (d v) | None \<Rightarrow> Some None)"
  by (simp add: optional_def split: option.split)

lemma u32_en [simp]: "de_u32 D (en_u32 n) = Some n"
  using uint_bounded [of n] by (simp add: de_u32_def en_u32_def)

lemma u64_en: "en_u64 n = Some v \<Longrightarrow> de_u64 D v = Some n"
  using uint_bounded [of n] by (auto simp: de_u64_def en_u64_def split: if_splits)

lemma enum_en [simp]:
  "de_enum D log_levels (en_enum log_levels x1) = Some x1" "de_enum D log_formats (en_enum log_formats x2) = Some x2"
  "de_enum D algorithms (en_enum algorithms x3) = Some x3" "de_enum D rate_stores (en_enum rate_stores x4) = Some x4"
  "de_enum D key_stores (en_enum key_stores x5) = Some x5" "de_enum D cache_backends (en_enum cache_backends x6) = Some x6"
  "de_enum D tls_versions (en_enum tls_versions x7) = Some x7"
  by (cases x1, simp_all add: de_enum_def en_enum_def variant_defs)
    (cases x2, simp_all, cases x3, simp_all, cases x4, simp_all, cases x5, simp_all, cases x6, simp_all, cases x7, simp_all)

lemma those_Some [simp]: "those (map Some xs) = Some xs"
  by (induction xs) simp_all

lemma vec_en: "(\<And>x. de (en x) = Some x) \<Longrightarrow> de_vec D de (TArray (map en xs)) = Some xs"
  by (simp add: de_vec_def comp_def)

lemma those_en:
  assumes "\<And>x v. en x = Some v \<Longrightarrow> de v = Some x"
  shows "those (map en xs) = Some vs \<Longrightarrow> those (map de vs) = Some xs"
  by (induction xs arbitrary: vs) (auto simp: assms split: option.splits)

lemma vec_en_partial:
  assumes "\<And>x v. en x = Some v \<Longrightarrow> de v = Some x" and "en_vec en xs = Some v"
  shows "de_vec D de v = Some xs"
  using assms(2) those_en [of en de, OF assms(1)] by (auto simp: en_vec_def de_vec_def)

lemma strings_en [simp]: "de_vec D (de_string D) (en_strings xs) = Some xs"
  unfolding en_strings_def by (rule vec_en) simp

lemma structs_en [simp]:
  "de_tls_config D (en_tls_config c1) = Some c1" "de_upstream_config D (en_upstream_config c2) = Some c2"
  "de_routing_rule D (en_routing_rule c3) = Some c3" "de_rate_limit_config D (en_rate_limit_config c4) = Some c4"
  "de_telemetry_config D (en_telemetry_config c5) = Some c5"
  by (simp_all add: de_tls_config_def en_tls_config_def de_upstream_config_def en_upstream_config_def de_routing_rule_def
      en_routing_rule_def de_rate_limit_config_def en_rate_limit_config_def de_telemetry_config_def en_telemetry_config_def
      en_opt_def split: option.split)

lemma pool_en [simp]: "de_pool_config D (en_pool_config c) = Some c"
  using vec_en [of "de_upstream_config D" en_upstream_config "pc_upstreams c"]
  by (simp add: de_pool_config_def en_pool_config_def)

lemma routing_en [simp]: "de_routing_config D (en_routing_config c) = Some c"
  using vec_en [of "de_routing_rule D" en_routing_rule "rc_rules c"]
  by (simp add: de_routing_config_def en_routing_config_def)

lemma server_en:
  assumes "en_server_config D c = Some v" and "addr_ok (srv_bind c)" "addr_ok (admin_bind c)" "addr_ok (metrics_bind c)"
  shows "de_server_config D v = Some c"
  using assms by (auto simp: en_server_config_def de_server_config_def bind_eq_Some_conv u64_en)

lemma health_en: "en_health_check_config c = Some v \<Longrightarrow> de_health_check_config D v = Some c"
  by (auto simp: en_health_check_config_def de_health_check_config_def bind_eq_Some_conv u64_en)

lemma tier_en: "en_key_tier c = Some v \<Longrightarrow> de_key_tier D v = Some c"
  by (auto simp: en_key_tier_def de_key_tier_def bind_eq_Some_conv u64_en)

lemma auth_en: "en_auth_config c = Some v \<Longrightarrow> de_auth_config D v = Some c"
  by (auto simp: en_auth_config_def de_auth_config_def bind_eq_Some_conv vec_en_partial [OF tier_en])

lemma rule_en: "en_cache_rule c = Some v \<Longrightarrow> de_cache_rule D v = Some c"
  by (auto simp: en_cache_rule_def de_cache_rule_def bind_eq_Some_conv u64_en)

lemma cache_en: "en_cache_config c = Some v \<Longrightarrow> de_cache_config D v = Some c"
  by (auto simp: en_cache_config_def de_cache_config_def en_opt_def bind_eq_Some_conv u64_en vec_en_partial [OF rule_en]
      split: option.splits)

lemma config_en:
  assumes "en_config D c = Some v"
    and "addr_ok (srv_bind (cfg_server c))" "addr_ok (admin_bind (cfg_server c))" "addr_ok (metrics_bind (cfg_server c))"
  shows "de_config D v = Some c"
  using assms vec_en [of "de_pool_config D" en_pool_config "cfg_pools c"]
  by (auto simp: en_config_def de_config_def bind_eq_Some_conv server_en health_en auth_en cache_en)

text \<open>A key that no struct declares has no effect.\<close>

lemma config_unknown_keys:
  assumes "\<forall>k \<in> set known_sections. map_of kvs' k = map_of kvs k"
  shows "de_config D (TTable kvs') = de_config D (TTable kvs)"
  using assms by (simp add: de_config_def known_sections_def)

end

subsection \<open>A concrete deserializer\<close>

text \<open>It reads a struct from a table only, and writes an address as its bytes; the literals of the defaults are read
  as Rust reads them.\<close>

definition port_text :: "u16 \<Rightarrow> string" where
  "port_text p = [char_of (unat p div 256), char_of (unat p mod 256)]"

definition text_port :: "string \<Rightarrow> u16" where
  "text_port s = of_nat (of_char (s ! 0) * 256 + of_char (s ! 1))"

fun bytes_of_addr :: "socket_addr \<Rightarrow> string" where
  "bytes_of_addr (V4 octets p) = map (\<lambda>b. char_of (unat b)) octets @ port_text p"
| "bytes_of_addr (V6 segments p) = concat (map port_text segments) @ port_text p"

definition addr_of_text :: "string \<Rightarrow> socket_addr option" where
  "addr_of_text s =
     (if s = ''0.0.0.0:8080'' then Some default_bind
      else if s = ''127.0.0.1:9000'' then Some default_admin_bind
      else if s = ''0.0.0.0:9090'' then Some default_metrics_bind
      else if length s = 6 then Some (V4 (map (\<lambda>c. of_nat (of_char c)) (take 4 s)) (text_port (drop 4 s)))
      else if length s = 18 then Some (V6 (map (\<lambda>i. text_port (drop (2 * i) s)) [0..<8]) (text_port (drop 16 s)))
      else None)"

definition plain_toml :: de_ops where
  "plain_toml =
     \<lparr>de_bool = (\<lambda>v. case v of TBoolean b \<Rightarrow> Some b | _ \<Rightarrow> None),
      de_string = (\<lambda>v. case v of TString s \<Rightarrow> Some s | _ \<Rightarrow> None),
      de_uint = (\<lambda>w v. case v of TInteger n \<Rightarrow> if 0 \<le> n \<and> n < 2 ^ w then Some (nat n) else None | _ \<Rightarrow> None),
      de_variant = (\<lambda>names v. case v of TString s \<Rightarrow> if s \<in> set names then Some s else None | _ \<Rightarrow> None),
      de_addr = (\<lambda>v. case v of TString s \<Rightarrow> addr_of_text s | _ \<Rightarrow> None),
      de_seq = (\<lambda>v. case v of TArray vs \<Rightarrow> Some vs | _ \<Rightarrow> None),
      de_field = (\<lambda>i name v. case v of TTable kvs \<Rightarrow> (case map_of kvs name of Some w \<Rightarrow> Present w | None \<Rightarrow> Missing) | _ \<Rightarrow> NotStruct),
      show_addr = bytes_of_addr\<rparr>"

lemma text_port_text [simp]: "text_port (port_text p @ s) = p" "text_port (port_text p) = p"
proof -
  have "unat p < 2 ^ LENGTH(16)" by (rule unsigned_less)
  then have "unat p div 256 < 256" by simp
  then show "text_port (port_text p @ s) = p" "text_port (port_text p) = p"
    by (simp_all add: text_port_def port_text_def flip: of_nat_mult of_nat_add)
qed

lemma length_port_text [simp]: "length (port_text p) = 2"
  by (simp add: port_text_def)

lemma octet_text [simp]: "of_nat (unat (b :: u8) mod 256) = b"
proof -
  have "unat b < 2 ^ LENGTH(8)" by (rule unsigned_less)
  then show ?thesis by simp
qed

lemma segment_text: "i < length segs \<Longrightarrow> text_port (drop (2 * i) (concat (map port_text segs) @ r)) = segs ! i"
proof (induction segs arbitrary: i)
  case (Cons x segs)
  then show ?case by (cases i) simp_all
qed simp

lemma drop_segments: "drop (2 * length segs) (concat (map port_text segs) @ r) = r"
  by (induction segs) simp_all

lemma length_segments: "length (concat (map port_text segs)) = 2 * length segs"
  by (induction segs) simp_all

lemma addr_of_text_by_length:
  "length s = 6 \<Longrightarrow> addr_of_text s = Some (V4 (map (\<lambda>c. of_nat (of_char c)) (take 4 s)) (text_port (drop 4 s)))"
  "length s = 18 \<Longrightarrow> addr_of_text s = Some (V6 (map (\<lambda>i. text_port (drop (2 * i) s)) [0..<8]) (text_port (drop 16 s)))"
  by (auto simp: addr_of_text_def simp del: upt_Suc)

lemma addr_text: "addr_ok a \<Longrightarrow> addr_of_text (bytes_of_addr a) = Some a"
proof (induction a rule: addr_ok.induct)
  case (1 octets p)
  then show ?case by (simp add: addr_of_text_by_length(1) comp_def)
next
  case (2 segments p)
  have "map (\<lambda>i. text_port (drop (2 * i) (bytes_of_addr (V6 segments p)))) [0..<8] = segments"
    using 2 by (intro nth_equalityI) (simp_all add: segment_text del: drop_append)
  moreover have "text_port (drop 16 (bytes_of_addr (V6 segments p))) = p"
    using 2 drop_segments [of segments "port_text p"] by simp
  moreover have "length (bytes_of_addr (V6 segments p)) = 18" using 2 by (simp add: length_segments del: length_concat)
  ultimately show ?case by (simp only: addr_of_text_by_length(2))
qed

interpretation tree: serde_toml plain_toml
  by unfold_locales (simp_all add: plain_toml_def addr_text)

subsection \<open>Properties\<close>

text \<open>C8. Writing a configuration and reading it back gives the same configuration, whenever it can be written at all
  (every \<open>u64\<close> fits the integers of TOML) and its three addresses are addresses.\<close>

theorem config_round_trip:
  assumes "serde_toml D" and "en_config D c = Some v"
    and "addr_ok (srv_bind (cfg_server c))" "addr_ok (admin_bind (cfg_server c))" "addr_ok (metrics_bind (cfg_server c))"
  shows "de_config D v = Some c"
  using serde_toml.config_en [OF assms] .

lemma example_encodes: "\<exists>v. en_config plain_toml example_config = Some v"
  by (simp add: en_config_def en_server_config_def en_health_check_config_def en_auth_config_def en_cache_config_def en_vec_def
      en_u64_def example_defs config_struct_defaults config_defaults)

theorem config_round_trip_witness:
  "\<exists>v. en_config plain_toml example_config = Some v \<and> de_config plain_toml v = Some example_config"
proof -
  obtain v where "en_config plain_toml example_config = Some v" using example_encodes by blast
  then show ?thesis
    using config_round_trip [OF tree.serde_toml_axioms, of example_config v]
    by (simp add: example_defs config_struct_defaults config_defaults)
qed

text \<open>A section with a name that \<open>Config\<close> does not declare is ignored without a message, wherever it stands; and
  an empty file is the default configuration.\<close>

lemma unknown_sections_are_ignored:
  assumes "serde_toml D" and "k \<notin> set known_sections"
  shows "de_config D (TTable (kvs1 @ (k, v) # kvs2)) = de_config D (TTable (kvs1 @ kvs2))
    \<and> de_config D (TTable []) = Some config_default"
proof
  show "de_config D (TTable (kvs1 @ (k, v) # kvs2)) = de_config D (TTable (kvs1 @ kvs2))"
    using assms(2) by (intro serde_toml.config_unknown_keys [OF assms(1)] ballI map_of_other) auto
  show "de_config D (TTable []) = Some config_default"
    using assms(1) by (simp add: de_config_def config_default_def serde_toml.default_table)
qed

text \<open>The key tiers of section 3 of the README, under \<open>api_keys\<close>.\<close>

definition api_keys_tiers :: toml where
  "api_keys_tiers = TTable [(''tiers'', TArray [TTable [(''name'', TString ''free''), (''requests_per_second'', TInteger 10),
     (''burst'', TInteger 20), (''daily_limit'', TInteger 50000)]])]"

lemma readme_tiers_are_lost:
  "de_config plain_toml (TTable [(''api_keys'', api_keys_tiers)]) = Some config_default \<and> tiers (cfg_auth config_default) = []"
proof -
  have "''api_keys'' \<notin> set known_sections" by (simp add: known_sections_def)
  from unknown_sections_are_ignored [OF tree.serde_toml_axioms this, of "[]" api_keys_tiers "[]"]
  show ?thesis by (simp add: config_struct_defaults)
qed

text \<open>C39. A document in which some upstream of some pool has no \<open>url\<close>, or a weight that is negative or does not fit
  32 bits, is refused as a whole, whatever else it says.\<close>

theorem bad_upstream_refuses_document:
  assumes "serde_toml D" and "map_of kvs ''pools'' = Some (TArray ps)" and "TTable pkvs \<in> set ps"
    and "map_of pkvs ''upstreams'' = Some (TArray us)" and "TTable ukvs \<in> set us"
    and "map_of ukvs ''url'' = None \<or> (\<exists>n. map_of ukvs ''weight'' = Some (TInteger n) \<and> (n < 0 \<or> 2 ^ 32 \<le> n))"
  shows "de_config D (TTable kvs) = None"
proof -
  note laws = serde_toml.default_table [OF assms(1)] serde_toml.required_table [OF assms(1)] serde_toml.seq [OF assms(1)]
    serde_toml.uint [OF assms(1)]
  have "de_upstream_config D (TTable ukvs) = None"
    using assms(6) by (auto simp: de_upstream_config_def laws de_u32_def split: bind_splits option.splits)
  then have "de_vec D (de_upstream_config D) (TArray us) = None"
    using assms(5) by (simp add: de_vec_def laws those_None)
  then have "de_pool_config D (TTable pkvs) = None"
    using assms(4) by (auto simp: de_pool_config_def laws split: bind_splits option.splits)
  then have "de_vec D (de_pool_config D) (TArray ps) = None"
    using assms(3) by (simp add: de_vec_def laws those_None)
  then show ?thesis using assms(2) by (auto simp: de_config_def laws split: bind_splits)
qed

definition heavy_upstream :: "(string \<times> toml) list" where
  "heavy_upstream = [(''url'', TString ''http://rpc:8000''), (''weight'', TInteger (2 ^ 32))]"

definition heavy_pool :: "(string \<times> toml) list" where
  "heavy_pool = [(''name'', TString ''default''), (''upstreams'', TArray [TTable heavy_upstream])]"

theorem bad_upstream_refuses_document_witness:
  "de_config plain_toml (TTable [(''pools'', TArray [TTable heavy_pool])]) = None"
  by (rule bad_upstream_refuses_document [OF tree.serde_toml_axioms, where ps = "[TTable heavy_pool]" and pkvs = heavy_pool
        and us = "[TTable heavy_upstream]" and ukvs = heavy_upstream])
    (simp_all add: heavy_pool_def heavy_upstream_def)

subsection \<open>The quick start\<close>

text \<open>The minimal configuration of the README: one pool, and no routing section.\<close>

definition quick_start :: toml where
  "quick_start = TTable
     [(''server'', TTable [(''bind'', TString ''0.0.0.0:8080'')]),
      (''pools'', TArray [TTable [(''name'', TString ''testnet''), (''algorithm'', TString ''wrr''),
         (''upstreams'', TArray [TTable [(''url'', TString ''https://soroban-testnet.stellar.org''), (''weight'', TInteger 1)]])]])]"

definition quick_start_config :: config where
  "quick_start_config = config_default\<lparr>cfg_pools := [\<lparr>pc_name = ''testnet'', pc_algorithm = Wrr,
     pc_upstreams = [\<lparr>uc_url = ''https://soroban-testnet.stellar.org'', uc_weight = 1, uc_max_connections = None\<rparr>]\<rparr>]\<rparr>"

lemma quick_start_decodes:
  assumes "serde_toml D" and "de_addr D (TString ''0.0.0.0:8080'') = Some default_bind"
  shows "de_config D quick_start = Some quick_start_config"
proof -
  note laws = serde_toml.default_table [OF assms(1)] serde_toml.required_table [OF assms(1)] serde_toml.optional_table [OF assms(1)]
    serde_toml.seq [OF assms(1)] serde_toml.uint [OF assms(1)] serde_toml.string [OF assms(1)] serde_toml.variant [OF assms(1)]
  have "de_server_config D (TTable [(''bind'', TString ''0.0.0.0:8080'')]) = Some server_config_default"
    by (simp add: de_server_config_def laws assms(2) server_config_default_def)
  moreover have "de_vec D (de_pool_config D) (TArray [TTable [(''name'', TString ''testnet''), (''algorithm'', TString ''wrr''),
      (''upstreams'', TArray [TTable [(''url'', TString ''https://soroban-testnet.stellar.org''), (''weight'', TInteger 1)]])]])
    = Some (cfg_pools quick_start_config)"
    by (simp add: de_vec_def de_pool_config_def de_upstream_config_def de_enum_def de_u32_def algorithms_def laws quick_start_config_def)
  ultimately show ?thesis
    by (simp add: de_config_def quick_start_def laws quick_start_config_def config_default_def)
qed

text \<open>C38. The quick start of the README does not start: its file is read, but validation refuses it, because the
  default pool of a file without a routing section is \<open>default\<close> and the only pool is \<open>testnet\<close>.\<close>

theorem quick_start_is_refused:
  assumes "serde_toml D" and "de_addr D (TString ''0.0.0.0:8080'') = Some default_bind"
    and "read_to_string path = Inr text" and "parse text = Inr quick_start"
  shows "try_then (config_load read_to_string (toml_from_str D parse describe) path) validate
    = Inl (''routing.default_pool '' @ quoted ''default'' @ '' does not match any defined pool'')"
proof -
  have "config_load read_to_string (toml_from_str D parse describe) path = Inr quick_start_config"
    using assms(3,4) quick_start_decodes [OF assms(1,2)] by (simp add: config_load_def toml_from_str_def)
  moreover have "validate quick_start_config = Inl (''routing.default_pool '' @ quoted ''default'' @ '' does not match any defined pool'')"
    by (simp add: validate_def validate_pool_def validate_upstream_def quick_start_config_def config_struct_defaults
        config_defaults ensure_def)
  ultimately show ?thesis by simp
qed

theorem quick_start_is_refused_witness:
  "try_then (config_load (\<lambda>_. Inr ''quick'') (toml_from_str plain_toml (\<lambda>_. Inr quick_start) (\<lambda>_. ''bad'')) ''sorobangate.toml'') validate
    = Inl (''routing.default_pool '' @ quoted ''default'' @ '' does not match any defined pool'')"
  by (rule quick_start_is_refused [OF tree.serde_toml_axioms]) (simp_all add: plain_toml_def addr_of_text_def)

end
