(* ===== verification/Pool_Tests.thy ===== *)
theory Pool_Tests
  imports Health_Check
begin

text \<open>
  The unit tests of \<open>pool/circuit_breaker.rs\<close>, \<open>pool/balancer.rs\<close> and \<open>pool/health.rs\<close>, translated to the model. A
  test is a function of what its run reads from the environment, the clock and the random numbers, and is
  true when all its assertions hold. The lemmas show that the tests pass on every clock that respects the
  sleeps of the test and on every sequence of random numbers; where a test also relies on the machine
  being fast enough, the lemma says by how much.
\<close>

subsection \<open>Circuit breaker\<close>

definition test_closed_accepts_requests :: "instant \<Rightarrow> bool" where
  "test_closed_accepts_requests t0 =
     (let cb = cb_new t0 3 (from_secs 30) in cb_is_available cb \<and> cb_state cb = Closed)"

definition test_failure_threshold_opens_circuit :: "instant \<Rightarrow> instant \<Rightarrow> instant \<Rightarrow> instant \<Rightarrow> bool" where
  "test_failure_threshold_opens_circuit t0 t1 t2 t3 =
     (let cb0 = cb_new t0 3 (from_secs 30); cb1 = record_failure t1 cb0;
          cb2 = record_failure t2 cb1; cb3 = record_failure t3 cb2
      in cb_state cb0 = Closed \<and> cb_state cb1 = Closed \<and> failure_count cb1 = 1
       \<and> cb_state cb2 = Closed \<and> failure_count cb2 = 2 \<and> cb_state cb3 = Open \<and> \<not> cb_is_available cb3)"

definition test_open_rejects_requests :: "instant \<Rightarrow> instant \<Rightarrow> bool" where
  "test_open_rejects_requests t0 t1 =
     (let cb = record_failure t1 (cb_new t0 1 (from_secs 30)) in cb_state cb = Open \<and> \<not> cb_is_available cb)"

definition test_half_open_transition_after_cooldown :: "instant \<Rightarrow> instant \<Rightarrow> instant \<Rightarrow> instant \<Rightarrow> bool" where
  "test_half_open_transition_after_cooldown t0 t1 t2 t3 =
     (let cb1 = record_failure t1 (cb_new t0 1 (from_millis 1)); cb2 = try_half_open t2 t3 cb1
      in cb_state cb1 = Open \<and> cb_state cb2 = HalfOpen \<and> cb_is_available cb2)"

definition test_half_open_no_transition_before_cooldown :: "instant \<Rightarrow> instant \<Rightarrow> instant \<Rightarrow> instant \<Rightarrow> bool" where
  "test_half_open_no_transition_before_cooldown t0 t1 t2 t3 =
     (let cb1 = record_failure t1 (cb_new t0 1 (from_secs 30)); cb2 = try_half_open t2 t3 cb1
      in cb_state cb1 = Open \<and> cb_state cb2 = Open)"

definition test_half_open_success_closes :: "instant \<Rightarrow> instant \<Rightarrow> instant \<Rightarrow> instant \<Rightarrow> instant \<Rightarrow> bool" where
  "test_half_open_success_closes t0 t1 t2 t3 t4 =
     (let cb2 = try_half_open t2 t3 (record_failure t1 (cb_new t0 1 (from_millis 1))); cb3 = record_success t4 cb2
      in cb_state cb2 = HalfOpen \<and> cb_state cb3 = Closed \<and> cb_is_available cb3 \<and> failure_count cb3 = 0)"

definition test_half_open_failure_reopens :: "instant \<Rightarrow> instant \<Rightarrow> instant \<Rightarrow> instant \<Rightarrow> instant \<Rightarrow> bool" where
  "test_half_open_failure_reopens t0 t1 t2 t3 t4 =
     (let cb2 = try_half_open t2 t3 (record_failure t1 (cb_new t0 1 (from_millis 1))); cb3 = record_failure t4 cb2
      in cb_state cb2 = HalfOpen \<and> cb_state cb3 = Open \<and> \<not> cb_is_available cb3)"

definition test_success_in_closed_resets_failure_count :: "instant \<Rightarrow> instant \<Rightarrow> instant \<Rightarrow> instant \<Rightarrow> bool" where
  "test_success_in_closed_resets_failure_count t0 t1 t2 t3 =
     (let cb2 = record_failure t2 (record_failure t1 (cb_new t0 3 (from_secs 30))); cb3 = record_success t3 cb2
      in failure_count cb2 = 2 \<and> failure_count cb3 = 0 \<and> cb_state cb3 = Closed)"

definition test_record_failure_in_open_resets_timer :: "instant \<Rightarrow> instant \<Rightarrow> instant \<Rightarrow> instant \<Rightarrow> instant \<Rightarrow> bool" where
  "test_record_failure_in_open_resets_timer t0 t1 t2 t3 t4 =
     (let cb1 = record_failure t1 (cb_new t0 1 (from_millis 10)); cb3 = try_half_open t3 t4 (record_failure t2 cb1)
      in cb_state cb1 = Open \<and> cb_state cb3 = Open)"

lemmas breaker_test_defs = test_closed_accepts_requests_def test_failure_threshold_opens_circuit_def
  test_open_rejects_requests_def test_half_open_transition_after_cooldown_def
  test_half_open_no_transition_before_cooldown_def test_half_open_success_closes_def
  test_half_open_failure_reopens_def test_success_in_closed_resets_failure_count_def
  test_record_failure_in_open_resets_timer_def

lemma breaker_tests_pass_always:
  "test_closed_accepts_requests t0" "test_failure_threshold_opens_circuit t0 t1 t2 t3" "test_open_rejects_requests t0 t1"
  "test_success_in_closed_resets_failure_count t0 t1 t2 t3"
  by (simp_all add: breaker_test_defs cb_defs Let_def word_le_nat_alt)

lemma breaker_tests_pass_after_sleep:
  assumes "t1 + from_millis 2 \<le> t2"
  shows "test_half_open_transition_after_cooldown t0 t1 t2 t3" "test_half_open_success_closes t0 t1 t2 t3 t4"
    "test_half_open_failure_reopens t0 t1 t2 t3 t4"
  using assms by (simp_all add: breaker_test_defs cb_defs Let_def from_millis_def)

lemma breaker_tests_pass_in_time:
  "t2 < t1 + from_secs 30 \<Longrightarrow> test_half_open_no_transition_before_cooldown t0 t1 t2 t3"
  "t3 < t2 + from_millis 10 \<Longrightarrow> test_record_failure_in_open_resets_timer t0 t1 t2 t3 t4"
  by (auto simp: breaker_test_defs cb_defs Let_def from_millis_def from_secs_def nanos_per_sec_def)

subsection \<open>Balancer\<close>

text \<open>The helper of the tests, and the store that holds a vector of upstreams at addresses 0, 1, ...\<close>

definition test_upstream :: "string \<Rightarrow> u32 \<Rightarrow> bool \<Rightarrow> i64 \<Rightarrow> upstream_state" where
  "test_upstream url weight is_healthy connections =
     (let cb = cb_new 0 5 (from_secs 30)
      in \<lparr>us_pool_name = ''test'', us_url = url, us_weight = weight, us_max_connections = None,
          us_mutable =
            \<lparr>health = (if is_healthy then Healthy else Unhealthy),
             breaker = (if is_healthy then cb else cb_run cb (replicate 5 (Fail 0))),
             consecutive_successes = 0, consecutive_failures = 0\<rparr>,
          connection_count = connections, latency_ns = 0\<rparr>)"

definition test_healthy :: "string \<Rightarrow> u32 \<Rightarrow> upstream_state" where
  "test_healthy url weight = test_upstream url weight True 0"

definition vec :: "upstream_state list \<Rightarrow> heap" where
  "vec us a = (if a < length us then us ! a else hd us)"

definition test_wrr_empty_returns_none :: bool where
  "test_wrr_empty_returns_none = (fst (weighted_round_robin (vec [test_healthy ''a'' 1]) [] 0) = None)"

definition urls :: "heap \<Rightarrow> arc option list \<Rightarrow> string option list" where
  "urls h = map (map_option (\<lambda>a. us_url (h a)))"

definition test_wrr_single_upstream_always_returns_it :: bool where
  "test_wrr_single_upstream_always_returns_it =
     (let h = vec [test_healthy ''a'' 1] in urls h (wrr_run h [0] 10 0) = replicate 10 (Some ''a''))"

text \<open>The ratio of the counts is compared as a quotient of rationals.\<close>

definition test_wrr_distribution_proportional_to_weights :: bool where
  "test_wrr_distribution_proportional_to_weights =
     (let h = vec [test_healthy ''heavy'' 3, test_healthy ''light'' 1]; us = urls h (wrr_run h [0, 1] 400 0);
          heavy = count_list us (Some ''heavy''); light = count_list us (Some ''light'')
      in None \<notin> set us \<and> 200 < heavy \<and> 50 < light \<and> 2 * light \<le> heavy \<and> heavy \<le> 4 * light)"

definition test_wrr_cycles_correctly :: bool where
  "test_wrr_cycles_correctly =
     (let h = vec [test_healthy ''a'' 1, test_healthy ''b'' 2]
      in urls h (wrr_run h [0, 1] 6 0) = map Some [''a'', ''b'', ''b'', ''a'', ''b'', ''b''])"

definition test_wrr_zero_weight_treated_as_one :: bool where
  "test_wrr_zero_weight_treated_as_one =
     (let h = vec [test_healthy ''a'' 0, test_healthy ''b'' 1] in urls h (wrr_run h [0, 1] 2 0) = map Some [''a'', ''b''])"

definition test_lc_empty_returns_none :: bool where
  "test_lc_empty_returns_none = (least_connections (vec [test_healthy ''a'' 1]) [] = None)"

definition test_lc_picks_upstream_with_fewest_connections :: bool where
  "test_lc_picks_upstream_with_fewest_connections =
     (let h = vec [test_upstream ''busy'' 1 True 10, test_upstream ''idle'' 1 True 2, test_upstream ''medium'' 1 True 5]
      in urls h [least_connections h [0, 1, 2]] = [Some ''idle''])"

definition test_lc_returns_single_upstream :: bool where
  "test_lc_returns_single_upstream =
     (let h = vec [test_healthy ''only'' 1] in urls h [least_connections h [0]] = [Some ''only''])"

definition test_lc_picks_first_when_tied :: bool where
  "test_lc_picks_first_when_tied =
     (let h = vec [test_upstream ''a'' 1 True 5, test_upstream ''b'' 1 True 5]
      in urls h [least_connections h [0, 1]] = [Some ''a''])"

definition test_random_empty_returns_none :: "nat \<Rightarrow> bool" where
  "test_random_empty_returns_none r = (random_choice r [] = None)"

text \<open>A loop of random choices is driven by the list of numbers drawn.\<close>

definition test_random_never_returns_unhealthy :: "nat list \<Rightarrow> bool" where
  "test_random_never_returns_unhealthy draws =
     (let h = vec [test_healthy ''good'' 1, test_healthy ''good2'' 1]
      in list_all (\<lambda>r. case random_choice r [0, 1] of Some a \<Rightarrow> is_available (h a) | None \<Rightarrow> False) draws)"

definition test_random_returns_from_available_set :: "nat list \<Rightarrow> bool" where
  "test_random_returns_from_available_set draws =
     (let us = [''x'', ''y'', ''z'']; h = vec (map (\<lambda>u. test_healthy u 1) us)
      in list_all (\<lambda>r. case random_choice r [0, 1, 2] of Some a \<Rightarrow> us_url (h a) \<in> set us | None \<Rightarrow> False) draws)"

definition test_trait_dispatch_wrr :: "nat \<Rightarrow> bool" where
  "test_trait_dispatch_wrr r =
     (let h = vec [test_healthy ''a'' 1] in urls h [fst (balancer_select h [0] r (WeightedRoundRobin 0))] = [Some ''a''])"

definition test_trait_dispatch_lc :: "nat \<Rightarrow> bool" where
  "test_trait_dispatch_lc r =
     (let h = vec [test_upstream ''busy'' 1 True 10, test_upstream ''idle'' 1 True 1]
      in urls h [fst (balancer_select h [0, 1] r LeastConnections)] = [Some ''idle''])"

definition test_trait_dispatch_random :: "nat \<Rightarrow> bool" where
  "test_trait_dispatch_random r =
     (let h = vec [test_healthy ''a'' 1] in urls h [fst (balancer_select h [0] r RandomBalancer)] = [Some ''a''])"

definition test_select_dispatches :: "load_balancing_algorithm \<Rightarrow> nat \<Rightarrow> bool" where
  "test_select_dispatches alg r =
     (let h = vec [test_healthy ''a'' 1] in urls h [fst (select h [0] alg r 0)] = [Some ''a''])"

definition test_select_empty_returns_none :: "nat \<Rightarrow> bool" where
  "test_select_empty_returns_none r = (fst (select (vec [test_healthy ''a'' 1]) [] Wrr r 0) = None)"

lemma vec_simps [simp]: "vec (u # us) 0 = u" "a < length us \<Longrightarrow> vec (u # us) (Suc a) = us ! a"
  by (simp_all add: vec_def)

lemma test_upstream_simps [simp]:
  "us_url (test_upstream url w hl c) = url" "us_weight (test_upstream url w hl c) = w"
  "connection_count (test_upstream url w hl c) = c" "is_available (test_upstream url w True c)"
  by (simp_all add: test_upstream_def Let_def is_available_def cb_new_def cb_is_available_def)

text \<open>The URLs of a round-robin run from counter 0 repeat one cycle.\<close>

definition url_cycle :: "heap \<Rightarrow> arc list \<Rightarrow> string option list" where
  "url_cycle h healthy = map (\<lambda>i. Some (us_url (h (healthy ! i)))) (weighted_from h 0 healthy)"

lemma urls_wrr_run:
  assumes "healthy \<noteq> []" and "n \<le> 2 ^ 64"
  shows "urls h (wrr_run h healthy n 0) = map (\<lambda>j. url_cycle h healthy ! ((0 + j) mod length (url_cycle h healthy))) [0..<n]"
proof -
  have "length (weighted_from h 0 healthy) \<noteq> 0" using assms(1) by simp
  then have "j mod length (weighted_from h 0 healthy) < length (weighted_from h 0 healthy)" for j by simp
  then show ?thesis using wrr_run_indices [of healthy 0 n h] assms by (simp add: urls_def url_cycle_def)
qed

lemma weights: "unat (max (0 :: u32) 1) = 1" "unat (max (1 :: u32) 1) = 1" "unat (max (2 :: u32) 1) = 2" "unat (max (3 :: u32) 1) = 3"
  by (simp_all add: max_def word_le_nat_alt)

lemma small_replicates: "replicate 2 x = [x, x]" "replicate 3 x = [x, x, x]"
  by (simp_all add: numeral_2_eq_2 numeral_3_eq_3)

lemma url_cycle_simps [simp]:
  "url_cycle (vec [test_healthy u 1]) [0] = [Some u]"
  "url_cycle (vec [test_healthy ''heavy'' 3, test_healthy ''light'' 1]) [0, Suc 0]
     = [Some ''heavy'', Some ''heavy'', Some ''heavy'', Some ''light'']"
  "url_cycle (vec [test_healthy ''a'' 1, test_healthy ''b'' 2]) [0, Suc 0] = [Some ''a'', Some ''b'', Some ''b'']"
  "url_cycle (vec [test_healthy ''a'' 0, test_healthy ''b'' 1]) [0, Suc 0] = [Some ''a'', Some ''b'']"
  by (simp_all add: url_cycle_def test_healthy_def weights small_replicates del: max_0_1)

lemma wrr_tests_pass:
  "test_wrr_empty_returns_none" "test_wrr_single_upstream_always_returns_it" "test_wrr_cycles_correctly"
  "test_wrr_zero_weight_treated_as_one"
proof -
  show "test_wrr_empty_returns_none" by (simp add: test_wrr_empty_returns_none_def weighted_round_robin_def)
  show "test_wrr_single_upstream_always_returns_it"
    by (simp add: test_wrr_single_upstream_always_returns_it_def urls_wrr_run del: wrr_run.simps)
      (simp add: map_replicate_const)
  show "test_wrr_cycles_correctly"
    by (simp add: test_wrr_cycles_correctly_def urls_wrr_run del: wrr_run.simps) (simp add: upt_rec)
  show "test_wrr_zero_weight_treated_as_one"
    by (simp add: test_wrr_zero_weight_treated_as_one_def urls_wrr_run del: wrr_run.simps) (simp add: upt_rec)
qed

lemma wrr_distribution_test_passes: "test_wrr_distribution_proportional_to_weights"
proof -
  let ?h = "vec [test_healthy ''heavy'' 3, test_healthy ''light'' 1]"
  let ?c = "url_cycle ?h [0, Suc 0]"
  let ?us = "urls ?h (wrr_run ?h [0, Suc 0] (100 * length ?c) 0)"
  have us: "?us = map (\<lambda>j. ?c ! ((0 + j) mod length ?c)) [0..<100 * length ?c]"
    by (rule urls_wrr_run) (simp_all only: url_cycle_simps, simp_all)
  have count: "count (mset ?us) u = 100 * count (mset ?c) u" for u
    unfolding us by (rule count_cycles)
  have "None \<notin># mset ?us" using count [of None] by (simp add: count_eq_zero_iff del: in_multiset_in_set)
  then show ?thesis using count [of "Some ''heavy''"] count [of "Some ''light''"]
    by (simp add: test_wrr_distribution_proportional_to_weights_def count_mset)
qed

lemma lc_tests_pass:
  "test_lc_empty_returns_none" "test_lc_picks_upstream_with_fewest_connections" "test_lc_returns_single_upstream"
  "test_lc_picks_first_when_tied"
  by (simp_all add: test_lc_empty_returns_none_def test_lc_picks_upstream_with_fewest_connections_def
      test_lc_returns_single_upstream_def test_lc_picks_first_when_tied_def urls_def active_connections_def test_healthy_def
      numeral_2_eq_2)

text \<open>The contract of the balancer carries the random tests: a choice is a candidate.\<close>

lemma random_choice_cases:
  "healthy \<noteq> [] \<Longrightarrow> \<forall>a \<in> set healthy. P a \<Longrightarrow> (case random_choice r healthy of Some a \<Rightarrow> P a | None \<Rightarrow> False)"
  using rnd.pick_None [of r healthy] rnd.pick_in [of r healthy] by (auto split: option.split)

lemma random_tests_pass:
  "test_random_empty_returns_none r" "test_random_never_returns_unhealthy draws" "test_random_returns_from_available_set draws"
proof -
  show "test_random_empty_returns_none r" by (simp add: test_random_empty_returns_none_def random_choice_def)
  show "test_random_never_returns_unhealthy draws"
    unfolding test_random_never_returns_unhealthy_def Let_def list_all_iff
    by (intro ballI random_choice_cases) (auto simp: test_healthy_def)
  show "test_random_returns_from_available_set draws"
    unfolding test_random_returns_from_available_set_def Let_def list_all_iff
    by (intro ballI random_choice_cases) (auto simp: test_healthy_def numeral_2_eq_2)
qed

lemma dispatch_tests_pass:
  "test_trait_dispatch_wrr r" "test_trait_dispatch_lc r" "test_trait_dispatch_random r"
  "test_select_dispatches alg r" "test_select_empty_returns_none r"
  by (cases alg; simp add: test_trait_dispatch_wrr_def test_trait_dispatch_lc_def test_trait_dispatch_random_def
      test_select_dispatches_def test_select_empty_returns_none_def select_def weighted_round_robin_def urls_def
      random_choice_def active_connections_def test_healthy_def)+

subsection \<open>Health checker\<close>

text \<open>The test writes the fields under the mutex itself.\<close>

definition test_health_status_transitions :: "instant \<Rightarrow> bool" where
  "test_health_status_transitions t0 =
     (let s0 = us_mutable (upstream_new t0 ''test'' ''http://localhost:9999'' 1 None);
          success = (\<lambda>m. m\<lparr>consecutive_successes := consecutive_successes m + 1, consecutive_failures := 0\<rparr>);
          failure = (\<lambda>m. m\<lparr>consecutive_failures := consecutive_failures m + 1, consecutive_successes := 0\<rparr>);
          s1 = success s0;
          s2 = success s1;
          s3 = (if 2 \<le> consecutive_successes s2 then s2\<lparr>health := Healthy\<rparr> else s2);
          s4 = failure s3;
          s5 = failure s4;
          s6 = failure s5;
          s7 = (if 3 \<le> consecutive_failures s6 then s6\<lparr>health := Unhealthy\<rparr> else s6)
      in health s0 = Unhealthy \<and> consecutive_successes s0 = 0 \<and> consecutive_failures s0 = 0
       \<and> consecutive_successes s1 = 1 \<and> health s1 = Unhealthy
       \<and> health s3 = Healthy \<and> health s4 = Healthy \<and> health s7 = Unhealthy)"

definition test_initial_health_is_unhealthy :: "instant \<Rightarrow> bool" where
  "test_initial_health_is_unhealthy t0 =
     (health (us_mutable (upstream_new t0 ''test'' ''http://localhost:9999'' 1 None)) = Unhealthy)"

definition test_healthy_upstream_filtering :: "instant \<Rightarrow> instant \<Rightarrow> bool" where
  "test_healthy_upstream_filtering t0 t1 =
     (let h = vec [upd_mutable (\<lambda>m. m\<lparr>health := Healthy\<rparr>) (upstream_new t0 ''test'' ''http://healthy:8080'' 1 None),
                   upstream_new t1 ''test'' ''http://unhealthy:8080'' 1 None];
          pool = \<lparr>up_name = ''test'', up_upstreams = [0, 1], up_algorithm = Wrr, wrr_counter = 0\<rparr>;
          hs = healthy_upstreams h pool
      in length hs = 1 \<and> us_url (h (hs ! 0)) = ''http://healthy:8080'')"

definition test_circuit_breaker_blocks_healthy_upstream :: "instant \<Rightarrow> instant \<Rightarrow> instant \<Rightarrow> instant \<Rightarrow> instant \<Rightarrow> instant \<Rightarrow> bool" where
  "test_circuit_breaker_blocks_healthy_upstream t0 t1 t2 t3 t4 t5 =
     (let u = upd_mutable (\<lambda>m. m\<lparr>health := Healthy, breaker := record_failure t5 (record_failure t4
                (record_failure t3 (record_failure t2 (record_failure t1 (breaker m)))))\<rparr>)
              (upstream_new t0 ''test'' ''http://healthy-but-cb-open:8080'' 1 None);
          pool = \<lparr>up_name = ''test'', up_upstreams = [0], up_algorithm = Wrr, wrr_counter = 0\<rparr>
      in \<not> cb_is_available (breaker (us_mutable u)) \<and> \<not> is_available u \<and> length (healthy_upstreams (vec [u]) pool) = 0)"

lemma health_tests_pass:
  "test_health_status_transitions t0" "test_initial_health_is_unhealthy t0" "test_healthy_upstream_filtering t0 t1"
  "test_circuit_breaker_blocks_healthy_upstream t0 t1 t2 t3 t4 t5"
proof -
  have five: "cb_state (cb_run (cb_new t0 5 (from_secs 30)) (map Fail [t1, t2, t3, t4, t5])) = Open"
    by (simp add: cb_defs Let_def word_le_nat_alt)
  then show "test_circuit_breaker_blocks_healthy_upstream t0 t1 t2 t3 t4 t5"
    by (simp add: test_circuit_breaker_blocks_healthy_upstream_def Let_def upd_mutable_def upstream_new_def is_available_def
        cb_is_available_def healthy_upstreams_def)
  show "test_healthy_upstream_filtering t0 t1"
    by (simp add: test_healthy_upstream_filtering_def healthy_upstreams_def upd_mutable_def upstream_new_def is_available_def
        cb_is_available_def cb_new_def)
  show "test_health_status_transitions t0" "test_initial_health_is_unhealthy t0"
    by (simp_all add: test_health_status_transitions_def test_initial_health_is_unhealthy_def upstream_new_def Let_def
        word_le_nat_alt)
qed

end
