(* ===== verification/Store_Tests.thy ===== *)
theory Store_Tests
  imports Memory_Cache Token_Bucket Key_Store
begin

text \<open>
  The unit tests of \<open>cache/memory.rs\<close>, \<open>rate_limit/token_bucket.rs\<close>, \<open>auth/mod.rs\<close> and \<open>auth/store/sqlite.rs\<close>,
  translated to the model as in theory \<open>Pool_Tests\<close>. The cache tests run on a store that keeps its promises and
  evicts only when full; the tests of the key store run on any hash functions that meet
  \<open>password_hashing\<close>; the tests of the rate limiter that do not sleep run at one instant.
\<close>

subsection \<open>Memory cache\<close>

definition test_cache :: "'m moka_ops \<Rightarrow> 'm memory_cache" where
  "test_cache ops = memory_cache_new ops 64"

definition test_cache_hit :: "'m moka_ops \<Rightarrow> instant \<Rightarrow> instant \<Rightarrow> bool" where
  "test_cache_hit ops t0 t1 =
     (let key = as_bytes ''test-key''; val = as_bytes ''test-value''
      in fst (cache_run ops [Set t0 key val (from_secs 60), Get t1 key] (test_cache ops)) = [None, Some val])"

definition test_cache_miss :: "'m moka_ops \<Rightarrow> instant \<Rightarrow> bool" where
  "test_cache_miss ops t0 = (fst (cache_get ops t0 (as_bytes ''nonexistent'') (test_cache ops)) = None)"

definition test_cache_delete :: "'m moka_ops \<Rightarrow> instant \<Rightarrow> instant \<Rightarrow> bool" where
  "test_cache_delete ops t0 t1 =
     (let key = as_bytes ''delete-key'';
          c1 = snd (cache_step ops (Set t0 key (as_bytes ''value'') (from_secs 60)) (test_cache ops));
          (deleted, c2) = cache_delete ops key c1
      in deleted \<and> fst (cache_get ops t1 key c2) = None)"

definition test_cache_expiry :: "'m moka_ops \<Rightarrow> instant \<Rightarrow> instant \<Rightarrow> instant \<Rightarrow> bool" where
  "test_cache_expiry ops t0 t1 t2 =
     (let key = as_bytes ''expire-key''
      in map (\<lambda>r. r \<noteq> None)
           (fst (cache_run ops [Set t0 key (as_bytes ''value'') (from_millis 10), Get t1 key, Get t2 key] (test_cache ops)))
         = [False, True, False])"

definition test_cache_flush :: "'m moka_ops \<Rightarrow> instant \<Rightarrow> bool" where
  "test_cache_flush ops t =
     (let k1 = as_bytes ''k1''; k2 = as_bytes ''k2''
      in map (\<lambda>r. r \<noteq> None)
           (fst (cache_run ops [Set t k1 (as_bytes ''v1'') (from_secs 60), Set t k2 (as_bytes ''v2'') (from_secs 60),
              Get t k1, Get t k2, Flush, Get t k1, Get t k2] (test_cache ops)))
         = [False, False, True, True, False, False, False])"

definition test_cache_stats :: "'m moka_ops \<Rightarrow> instant \<Rightarrow> bool" where
  "test_cache_stats ops t =
     (let c0 = test_cache ops; key = as_bytes ''hit-key'';
          c1 = snd (cache_run ops [Get t (as_bytes ''miss1''), Get t (as_bytes ''miss2''),
                 Set t key (as_bytes ''val'') (from_secs 60), Get t key] c0)
      in cs_hit_count (get_cache_stats ops c0) = 0 \<and> cs_miss_count (get_cache_stats ops c0) = 0
       \<and> cs_hit_count (get_cache_stats ops c1) = 1 \<and> cs_miss_count (get_cache_stats ops c1) = 2)"

definition test_cache_different_ttls :: "'m moka_ops \<Rightarrow> instant \<Rightarrow> instant \<Rightarrow> bool" where
  "test_cache_different_ttls ops t0 t1 =
     (let k1 = as_bytes ''short''; k2 = as_bytes ''long''
      in map (\<lambda>r. r \<noteq> None)
           (fst (cache_run ops [Set t0 k1 (as_bytes ''v'') (from_millis 5), Set t0 k2 (as_bytes ''v'') (from_secs 60),
              Get t0 k1, Get t0 k2, Get t1 k1, Get t1 k2] (test_cache ops)))
         = [False, False, True, True, False, True])"

definition test_hash_to_u64_deterministic :: bool where
  "test_hash_to_u64_deterministic = (hash_to_u64 (as_bytes ''hello-world'') = hash_to_u64 (as_bytes ''hello-world''))"

definition test_hash_to_u64_different_keys :: bool where
  "test_hash_to_u64_different_keys = (hash_to_u64 (as_bytes ''key-a'') \<noteq> hash_to_u64 (as_bytes ''key-b''))"

lemma unat_hash: "unat (hash_to_u64 k) = le_nat (take 8 k @ replicate (8 - length k) 0)"
proof -
  let ?b = "take (min (length k) 8) k @ replicate (8 - min (length k) 8) (0 :: u8)"
  have b: "?b = take 8 k @ replicate (8 - length k) 0" by (cases "length k \<le> 8") simp_all
  have "le_nat ?b < 256 ^ 8" using le_nat_bound [of ?b] by simp
  then show ?thesis by (simp add: hash_to_u64_def Let_def unat_of_nat b)
qed

lemma hash_eq_iff:
  "hash_to_u64 a = hash_to_u64 b \<longleftrightarrow> take 8 a @ replicate (8 - length a) 0 = take 8 b @ replicate (8 - length b) 0"
proof -
  have "length (take 8 k @ replicate (8 - length k) (0 :: u8)) = 8" for k by simp
  then show ?thesis unfolding word_unat_eq_iff unat_hash using le_nat_inj by metis
qed

lemma test_keys_differ:
  "hash_to_u64 (as_bytes ''k1'') \<noteq> hash_to_u64 (as_bytes ''k2'')" "hash_to_u64 (as_bytes ''short'') \<noteq> hash_to_u64 (as_bytes ''long'')"
  "hash_to_u64 (as_bytes ''key-a'') \<noteq> hash_to_u64 (as_bytes ''key-b'')"
  by (simp_all add: hash_eq_iff as_bytes_def)

lemma hash_tests_pass: "test_hash_to_u64_deterministic" "test_hash_to_u64_different_keys"
  by (simp_all add: test_hash_to_u64_deterministic_def test_hash_to_u64_different_keys_def test_keys_differ)

lemmas cache_test_defs = test_cache_hit_def test_cache_miss_def test_cache_delete_def test_cache_expiry_def
  test_cache_flush_def test_cache_stats_def test_cache_different_ttls_def

lemma test_cache_fifo: "test_cache fifo_ops = \<lparr>mc_cache = (65536, []), hit_count = 0, miss_count = 0, eviction_count = 0\<rparr>"
  by (simp add: test_cache_def memory_cache_new_def fifo_ops_def)

text \<open>The clock of the tests: early enough that an instant plus a minute is an instant.\<close>

definition early :: "instant \<Rightarrow> bool" where
  "early t \<longleftrightarrow> t < 2 ^ 62 * nanos_per_sec"

lemma early_add [simp]:
  "early t \<Longrightarrow> instant_add t (from_secs 60) = Some (t + from_secs 60)"
  "early t \<Longrightarrow> instant_add t (from_millis 10) = Some (t + from_millis 10)"
  "early t \<Longrightarrow> instant_add t (from_millis 5) = Some (t + from_millis 5)"
  by (simp_all add: early_def instant_add_def from_secs_def from_millis_def nanos_per_sec_def)

lemma fifo_simps:
  "moka_get fifo_ops k (n, es) = (map_of es k, (n, es))"
  "moka_insert fifo_ops k v (n, es) = (n, take n ((k, v) # filter (\<lambda>e. fst e \<noteq> k) es))"
  "moka_invalidate fifo_ops k (n, es) = (n, filter (\<lambda>e. fst e \<noteq> k) es)"
  "moka_invalidate_all fifo_ops (n, es) = (n, [])"
  by (simp_all add: fifo_ops_def)

lemmas fifo_eval = test_cache_fifo fifo_simps cache_get_def cache_set_def cache_delete_def cache_flush_def get_cache_stats_def
  test_keys_differ test_keys_differ [symmetric]

lemmas test_times = from_millis_def from_secs_def nanos_per_sec_def

lemma cache_tests_pass:
  assumes "early t0"
  shows "t1 < t0 + from_secs 60 \<Longrightarrow> test_cache_hit fifo_ops t0 t1" "test_cache_miss fifo_ops t0"
    "test_cache_delete fifo_ops t0 t1" "test_cache_flush fifo_ops t0" "test_cache_stats fifo_ops t0"
  using assms by (simp_all add: cache_test_defs fifo_eval Let_def)

lemma cache_expiry_tests_pass:
  assumes "early t0"
  shows "t1 < t0 + from_millis 10 \<Longrightarrow> t0 + from_millis 20 \<le> t2 \<Longrightarrow> test_cache_expiry fifo_ops t0 t1 t2"
    "t0 + from_millis 10 \<le> t1 \<Longrightarrow> t1 < t0 + from_secs 60 \<Longrightarrow> test_cache_different_ttls fifo_ops t0 t1"
  using assms by (simp_all add: cache_test_defs fifo_eval Let_def) (simp_all add: test_times)

subsection \<open>Token buckets\<close>

text \<open>A test is given the readings of the clock, one per call.\<close>

definition test_burst_allowed :: "instant list \<Rightarrow> bool" where
  "test_burst_allowed ts =
     (fst (serve (\<lambda>_. (5, 10)) limiter_new (map (\<lambda>t. (t, ''test_burst_allowed'')) ts)) = replicate 10 True @ [False])"

definition test_different_keys_independent :: "instant list \<Rightarrow> bool" where
  "test_different_keys_independent ts =
     (let rs = zip ts (replicate 11 ''key_a'' @ [''key_b'']); oks = fst (serve (\<lambda>_. (5, 10)) limiter_new rs)
      in drop 10 (decisions_for ''key_a'' rs oks) = [False] \<and> decisions_for ''key_b'' rs oks = [True])"

definition test_refill_over_time :: "instant \<Rightarrow> instant \<Rightarrow> instant \<Rightarrow> bool" where
  "test_refill_over_time t0 t1 t2 =
     (fst (serve (\<lambda>_. (10, 1)) limiter_new (map (\<lambda>t. (t, ''test_refill'')) [t0, t1, t2])) = [True, False, True])"

definition test_sustained_over_rate_rejected :: "instant \<Rightarrow> instant \<Rightarrow> bool" where
  "test_sustained_over_rate_rejected t0 t1 =
     (fst (serve (\<lambda>_. (1, 1)) limiter_new (map (\<lambda>t. (t, ''test_sustained'')) [t0, t1])) = [True, False])"

definition test_ip_fallback_uses_separate_bucket :: "instant list \<Rightarrow> bool" where
  "test_ip_fallback_uses_separate_bucket ts =
     (let rs = zip ts (replicate 11 ''ip:192.168.1.1'' @ [''ip:10.0.0.1'']); oks = fst (serve (\<lambda>_. (5, 10)) limiter_new rs);
          first = decisions_for ''ip:192.168.1.1'' rs oks
      in first ! 0 \<and> drop 10 first = [False] \<and> decisions_for ''ip:10.0.0.1'' rs oks = [True])"

lemma decisions_at_once:
  assumes "times_of k rs = replicate n t"
  shows "decisions_for k rs (fst (serve rates limiter_new rs))
    = replicate (min n (unat (snd (rates k)))) True @ replicate (n - unat (snd (rates k))) False"
  using serve_new_key_at_once [of limiter_new k rates n t] filter_key_times [of k rs]
  by (simp add: keys_do_not_interfere assms limiter_new_def map_replicate)

lemma two_key_times:
  assumes "a \<noteq> b"
  shows "times_of a (zip (replicate 12 t) (replicate 11 a @ [b])) = replicate 11 t"
    "times_of b (zip (replicate 12 t) (replicate 11 a @ [b])) = replicate 1 t"
proof -
  have "replicate 12 t = replicate 11 t @ [t]" by (simp add: numeral_eq_Suc)
  then have "zip (replicate 12 t) (replicate 11 a @ [b]) = replicate 11 (t, a) @ [(t, b)]" by (simp add: zip_replicate)
  then show "times_of a (zip (replicate 12 t) (replicate 11 a @ [b])) = replicate 11 t"
    "times_of b (zip (replicate 12 t) (replicate 11 a @ [b])) = replicate 1 t"
    using assms by (simp_all add: times_of_def filter_replicate)
qed

lemma bucket_tests_pass_at_once:
  "test_burst_allowed (replicate 11 t)" "test_different_keys_independent (replicate 12 t)"
  "test_sustained_over_rate_rejected t t" "test_ip_fallback_uses_separate_bucket (replicate 12 t)"
proof -
  have ten: "min 11 (unat (10 :: u32)) = 10" "11 - unat (10 :: u32) = 1" "min 1 (unat (10 :: u32)) = 1" "1 - unat (10 :: u32) = 0"
    by simp_all
  show "test_burst_allowed (replicate 11 t)"
    using serve_new_key_at_once [of limiter_new "''test_burst_allowed''" "\<lambda>_. (5, 10)" 11 t]
    by (simp add: test_burst_allowed_def limiter_new_def map_replicate)
  have two: "drop 10 (decisions_for a (zip (replicate 12 t) (replicate 11 a @ [b]))
        (fst (serve (\<lambda>_. (5, 10)) limiter_new (zip (replicate 12 t) (replicate 11 a @ [b]))))) = [False]
    \<and> decisions_for a (zip (replicate 12 t) (replicate 11 a @ [b]))
        (fst (serve (\<lambda>_. (5, 10)) limiter_new (zip (replicate 12 t) (replicate 11 a @ [b])))) ! 0
    \<and> decisions_for b (zip (replicate 12 t) (replicate 11 a @ [b]))
        (fst (serve (\<lambda>_. (5, 10)) limiter_new (zip (replicate 12 t) (replicate 11 a @ [b])))) = [True]"
    if "a \<noteq> b" for a b
    unfolding decisions_at_once [OF two_key_times(1) [OF that]] decisions_at_once [OF two_key_times(2) [OF that]] snd_conv ten
    by (simp add: nth_append)
  have "''key_a'' \<noteq> ''key_b''" "''ip:192.168.1.1'' \<noteq> ''ip:10.0.0.1''" by simp_all
  note two [OF this(1)] two [OF this(2)]
  then show "test_different_keys_independent (replicate 12 t)" "test_ip_fallback_uses_separate_bucket (replicate 12 t)"
    unfolding test_different_keys_independent_def test_ip_fallback_uses_separate_bucket_def Let_def by iprover+
  show "test_sustained_over_rate_rejected t t"
    using serve_new_key_at_once [of limiter_new "''test_sustained''" "\<lambda>_. (1, 1)" 2 t]
    by (simp add: test_sustained_over_rate_rejected_def limiter_new_def numeral_2_eq_2 map_replicate)
qed

text \<open>The sleep of 200 ms refills at ten per second the one token that is needed, whatever the rounding: 0.2 seconds
  are more than an eighth of a second, which \<open>f64\<close> represents.\<close>

lemma sleep_refills:
  assumes "200000000 \<le> d"
  shows "1 \<le> f64_mul (as_secs_f64 d) 10"
proof -
  have eighth: "is_f64 (1 / 8)" using is_f64I [of 1 "- 3"] by (simp add: exp2_def)
  have "1 / 8 \<le> as_secs_f64 d"
  proof (cases "d < nanos_per_sec")
    case True
    have "f64_round (of_nat d) \<ge> of_nat 200000000"
      using assms by (intro f64.rnd_ge_nat) simp_all
    then have "1 / 8 \<le> f64_round (of_nat d) / of_nat nanos_per_sec" by (simp add: nanos_per_sec_def field_simps)
    then have "f64_round (1 / 8) \<le> f64_round (f64_round (f64_round (of_nat d) / of_nat nanos_per_sec))"
      using f64.rnd_mono f64.rnd_exact [OF eighth] by metis
    moreover have "as_secs_f64 d = f64_round (f64_round (f64_round (of_nat d) / of_nat nanos_per_sec))"
      using True f64.rnd_nat [of 0] by (simp add: f64_ops)
    ultimately show ?thesis using f64.rnd_exact [OF eighth] by simp
  next
    case False
    then have "of_nat 1 \<le> as_secs_f64 d" by (intro as_secs_f64_ge) simp_all
    then show ?thesis by simp
  qed
  then show ?thesis using f64.rnd_ge_nat [of 1 "as_secs_f64 d * 10"] by (simp add: f64_mul_def)
qed

lemma refill_test_passes:
  assumes "t + from_millis 200 \<le> t2"
  shows "test_refill_over_time t t t2"
proof -
  let ?b = "fresh_bucket t 1"
  have one: "f64_of_nat (Suc 0) = 1" using f64_of_u32 [of 1] by simp
  have ten: "f64_of_nat 10 = 10" using f64_of_u32 [of 10] by simp
  have b: "last_refill ?b = t" "tokens ?b = 1" by (simp_all add: fresh_bucket_def one)
  have taken: "bucket_run 10 1 ?b [t] = ([True], \<lparr>tokens = 0, last_refill = t\<rparr>)"
    using bucket_run_same_instant [OF bucket_ok_fresh b(1), of 1 10] b by (intro prod_eqI) simp_all
  have "bucket_ok 1 \<lparr>tokens = 0, last_refill = t\<rparr>" using is_f64_of_nat [of 0] by (simp add: bucket_ok_def)
  then have "bucket_run 10 1 \<lparr>tokens = 0, last_refill = t\<rparr> [t] = ([False], \<lparr>tokens = 0, last_refill = t\<rparr>)"
    using bucket_run_empty_same_instant [of 1 "\<lparr>tokens = 0, last_refill = t\<rparr>" t 10 1] by simp
  then have first: "bucket_run 10 1 ?b [t, t] = ([True, False], \<lparr>tokens = 0, last_refill = t\<rparr>)"
    using taken bucket_run_append [of 10 1 ?b "[t]" "[t]"] by simp
  have "1 \<le> f64_add 0 (f64_mul (as_secs_f64 (t2 - t)) 10)"
    using sleep_refills [of "t2 - t"] assms f64.rnd_ge_nat [of 1 "f64_mul (as_secs_f64 (t2 - t)) 10"]
    by (simp add: f64_add_def from_millis_def)
  then have "fst (bucket_run 10 1 \<lparr>tokens = 0, last_refill = t\<rparr> [t2]) = [True]"
    by (simp add: bucket_check_def refill_def take_token_def one ten)
  then show ?thesis
    using serve_one_key_None [of limiter_new "''test_refill''" "[t, t, t2]" "\<lambda>_. (10, 1)"] first
      bucket_run_append [of 10 1 ?b "[t, t]" "[t2]"]
    by (simp add: test_refill_over_time_def limiter_new_def)
qed

subsection \<open>API keys in requests\<close>

definition header_insert :: "string \<Rightarrow> string \<Rightarrow> header_map \<Rightarrow> header_map" where
  "header_insert name val hs =
     (map ascii_lower name, as_bytes val) # filter (\<lambda>h. fst h \<noteq> map ascii_lower name) hs"

definition test_extract_bearer_token :: "(bytes \<Rightarrow> string option) \<Rightarrow> (string \<Rightarrow> (string \<times> string) list) \<Rightarrow> bool" where
  "test_extract_bearer_token to_str form_parse =
     (extract_api_key to_str form_parse (header_insert ''Authorization'' ''Bearer sk_test_abc123'' []) None = Some ''sk_test_abc123'')"

definition test_extract_x_api_key :: "(bytes \<Rightarrow> string option) \<Rightarrow> (string \<Rightarrow> (string \<times> string) list) \<Rightarrow> bool" where
  "test_extract_x_api_key to_str form_parse =
     (extract_api_key to_str form_parse (header_insert ''X-API-Key'' ''sk_test_xyz789'' []) None = Some ''sk_test_xyz789'')"

definition test_extract_query_param :: "(bytes \<Rightarrow> string option) \<Rightarrow> (string \<Rightarrow> (string \<times> string) list) \<Rightarrow> bool" where
  "test_extract_query_param to_str form_parse =
     (extract_api_key to_str form_parse [] (Some ''api_key=sk_test_query'') = Some ''sk_test_query'')"

definition test_bearer_takes_precedence :: "(bytes \<Rightarrow> string option) \<Rightarrow> (string \<Rightarrow> (string \<times> string) list) \<Rightarrow> bool" where
  "test_bearer_takes_precedence to_str form_parse =
     (extract_api_key to_str form_parse (header_insert ''X-API-Key'' ''sk_header'' (header_insert ''Authorization'' ''Bearer sk_bearer'' []))
        (Some ''api_key=sk_query'') = Some ''sk_bearer'')"

definition test_no_key_returns_none :: "(bytes \<Rightarrow> string option) \<Rightarrow> (string \<Rightarrow> (string \<times> string) list) \<Rightarrow> bool" where
  "test_no_key_returns_none to_str form_parse = (extract_api_key to_str form_parse [] None = None)"

definition test_empty_bearer_ignored :: "(bytes \<Rightarrow> string option) \<Rightarrow> (string \<Rightarrow> (string \<times> string) list) \<Rightarrow> bool" where
  "test_empty_bearer_ignored to_str form_parse =
     (extract_api_key to_str form_parse (header_insert ''Authorization'' ''Bearer '' []) None = None)"

definition test_wrong_auth_scheme_ignored :: "(bytes \<Rightarrow> string option) \<Rightarrow> (string \<Rightarrow> (string \<times> string) list) \<Rightarrow> bool" where
  "test_wrong_auth_scheme_ignored to_str form_parse =
     (extract_api_key to_str form_parse (header_insert ''Authorization'' ''Basic dXNlcjpwYXNz'' []) None = None)"

lemmas auth_test_defs = test_extract_bearer_token_def test_extract_x_api_key_def test_extract_query_param_def
  test_bearer_takes_precedence_def test_no_key_returns_none_def test_empty_bearer_ignored_def test_wrong_auth_scheme_ignored_def

text \<open>The values of the headers are visible ASCII text, which \<open>to_str\<close> returns, and the query is one pair.\<close>

lemma auth_tests_pass:
  assumes "\<forall>v \<in> {''Bearer sk_test_abc123'', ''sk_test_xyz789'', ''Bearer sk_bearer'', ''Bearer '', ''Basic dXNlcjpwYXNz''}.
      to_str (as_bytes v) = Some v"
    and "form_parse ''api_key=sk_test_query'' = [(''api_key'', ''sk_test_query'')]"
  shows "test_extract_bearer_token to_str form_parse" "test_extract_x_api_key to_str form_parse"
    "test_extract_query_param to_str form_parse" "test_bearer_takes_precedence to_str form_parse"
    "test_no_key_returns_none to_str form_parse" "test_empty_bearer_ignored to_str form_parse"
    "test_wrong_auth_scheme_ignored to_str form_parse"
  using assms
  by (simp_all add: auth_test_defs extract_api_key_def header_api_key_def query_api_key_def header_get_def header_insert_def
      strip_prefix_def del: list.map)

subsection \<open>SQLite key store\<close>

text \<open>A test is given the hash functions, and a salt and the time since the epoch per creation. \<open>unwrap\<close> of an error fails
  the test.\<close>

definition unwraps :: "('e + 'a) option \<Rightarrow> bool" where
  "unwraps r = (case r of Some (Inr _) \<Rightarrow> True | _ \<Rightarrow> False)"

definition test_create_and_lookup :: "'h crypto \<Rightarrow> bytes \<Rightarrow> duration \<Rightarrow> bool" where
  "test_create_and_lookup c salt d =
     (let key = ''sk_test_create_lookup''; (r, t) = sqlite_create_key c None salt (Some d) key ''premium'' ''test key'' []
      in unwraps r \<and>
         (case sqlite_lookup c None key t of
            Inr (Some e) \<Rightarrow> ke_tier e = ''premium'' \<and> ke_label e = ''test key'' \<and> \<not> is_revoked e
          | _ \<Rightarrow> False))"

definition test_lookup_nonexistent :: "'h crypto \<Rightarrow> bool" where
  "test_lookup_nonexistent c = (sqlite_lookup c None ''sk_nonexistent'' [] = Inr None)"

definition test_revoked_key_rejected :: "'h crypto \<Rightarrow> bytes \<Rightarrow> duration \<Rightarrow> bool" where
  "test_revoked_key_rejected c salt d =
     (let key = ''sk_test_revoked''; (r, t) = sqlite_create_key c None salt (Some d) key ''basic'' ''to revoke'' [];
          (revoked, t1) = sqlite_revoke_key None (sha256_id c key) t
      in unwraps r \<and> \<not> isl revoked \<and>
         (case sqlite_lookup c None key t1 of Inr (Some e) \<Rightarrow> is_revoked e | _ \<Rightarrow> False))"

definition test_list_keys :: "'h crypto \<Rightarrow> (key_table \<Rightarrow> key_table) \<Rightarrow> bytes \<Rightarrow> bytes \<Rightarrow> duration \<Rightarrow> duration \<Rightarrow> bool" where
  "test_list_keys c order_by salt1 salt2 d1 d2 =
     (let (r1, t1) = sqlite_create_key c None salt1 (Some d1) ''sk_test_list_1'' ''tier1'' ''key 1'' [];
          (r2, t2) = sqlite_create_key c None salt2 (Some d2) ''sk_test_list_2'' ''tier2'' ''key 2'' t1
      in unwraps r1 \<and> unwraps r2 \<and>
         (case sqlite_list_keys order_by None t2 of Inr keys \<Rightarrow> length keys = 2 | Inl _ \<Rightarrow> False))"

lemma sqlite_tests_pass:
  assumes "password_hashing c" and "\<And>pw salt. \<exists>h. hash_password c pw salt = Inr h"
  shows "test_create_and_lookup c salt d" "test_lookup_nonexistent c" "test_revoked_key_rejected c salt d"
proof -
  have new: "\<exists>h ph. sqlite_create_key c None salt (Some d) key tier label [] =
        (let e = \<lparr>ke_id = sha256_id c key, key_hash = h, ke_tier = tier, ke_label = label, is_revoked = False,
              created_at = word_of_nat (d div nanos_per_sec)\<rparr> in (Some (Inr e), [e]))
      \<and> password_hash_new c h = Inr ph \<and> verify_password c (as_bytes key) ph" for key tier label
    using assms(2) [of "as_bytes key" salt] password_hashing.verify_own [OF assms(1), of "as_bytes key" salt]
    by (auto simp: sqlite_create_key_def hash_key_def sql_insert_def sql_select_id_def Let_def)
  show "test_create_and_lookup c salt d"
    using new [of "''sk_test_create_lookup''" "''premium''" "''test key''"]
    by (auto simp: test_create_and_lookup_def unwraps_def sqlite_lookup_def sql_select_id_def Let_def)
  show "test_lookup_nonexistent c" by (simp add: test_lookup_nonexistent_def sqlite_lookup_def sql_select_id_def)
  show "test_revoked_key_rejected c salt d"
    using new [of "''sk_test_revoked''" "''basic''" "''to revoke''"]
    by (auto simp: test_revoked_key_rejected_def unwraps_def sqlite_lookup_def sqlite_revoke_key_def sql_revoke_def sql_select_id_def Let_def)
qed

text \<open>Listing two keys needs their SHA-256 digests to differ and the ordering to keep the rows.\<close>

lemma list_keys_test_passes:
  assumes "\<And>pw salt. \<exists>h. hash_password c pw salt = Inr h" and "\<And>t. mset (order_by t) = mset t"
    and "sha256_id c ''sk_test_list_1'' \<noteq> sha256_id c ''sk_test_list_2''"
  shows "test_list_keys c order_by salt1 salt2 d1 d2"
proof -
  obtain h1 h2 where "hash_password c (as_bytes ''sk_test_list_1'') salt1 = Inr h1"
    "hash_password c (as_bytes ''sk_test_list_2'') salt2 = Inr h2" using assms(1) by blast
  moreover have "length (order_by t) = length t" for t using assms(2) [of t] by (metis size_mset)
  ultimately show ?thesis
    using assms(3)
    by (simp add: test_list_keys_def sqlite_create_key_def hash_key_def sql_insert_def sql_select_id_def sqlite_list_keys_def unwraps_def Let_def)
qed

end
