(* ===== verification/Spec2Isabelle.thy ===== *)
theory Spec2Isabelle
  imports Gate_Invariants Gate_Shutdown Gate_Toml Pool_Tests Store_Tests
begin

text \<open>
  \<^bold>\<open>SorobanGate: a verification library.\<close>

  SorobanGate is a gateway in front of Soroban JSON-RPC servers, written in Rust. This development models
  the program under \<open>src/src\<close> as HOL functions and proves what makes it correct. A request enters through
  the router of \<open>server/mod.rs\<close>, passes the middlewares (authentication, rate limit), and reaches
  \<open>server/proxy.rs\<close>, which looks into the response cache, routes the method to a pool, selects an upstream of
  the pool with a load balancer among those that are healthy and whose circuit breaker accepts, forwards
  the request, and stores a successful answer. A background task probes the upstreams. An administration API on
  its own listener shows and changes all of this.

  \<^bold>\<open>Theories and sources.\<close>
  \<^item> \<open>Gate_Prelude\<close>: machine words, instants and durations, Rust's \<open>?\<close> on sums, insertion loops.
  \<^item> \<open>Circuit_Breaker\<close> (\<open>pool/circuit_breaker.rs\<close>): the record of the breaker and its methods; runs of
    method calls; when it opens, how long it stays open, that a closed breaker is below its threshold.
  \<^item> \<open>Upstream\<close> (\<open>pool/mod.rs\<close>, \<open>UpstreamState\<close>): one upstream object. The objects are shared through \<open>Arc\<close>,
    so they live in a store, \<open>heap\<close>, addressed by \<open>arc\<close>.
  \<^item> \<open>Balancer\<close> (\<open>pool/balancer.rs\<close>): the three algorithms and the trait; locale \<open>balancer\<close> is the contract of
    the trait (the choice is one of the candidates, and there is one if there are candidates), interpreted by
    each algorithm and by the dispatch; weighted round robin is exactly proportional.
  \<^item> \<open>Upstream_Pool\<close> (\<open>pool/mod.rs\<close>, \<open>UpstreamPool\<close>, \<open>create_pools\<close>): candidates, selection, construction.
  \<^item> \<open>Health_Check\<close> (\<open>pool/health.rs\<close>): the probe, a cycle over all upstreams, the background task; locale \<open>threshold_streak\<close>
    for the two counters of a probe, when a failed upstream returns to service, independence of the order in which the
    concurrent probes complete, what the task does to each upstream, the zero interval. For which periods
    \<open>tokio::time::interval\<close> panics is a parameter.
  \<^item> \<open>F64\<close> and \<open>Token_Bucket\<close> (\<open>rate_limit/\<close>): IEEE double rounding on the rationals, with locale \<open>rounding\<close> for
    what the proofs need of it, and the token buckets; locale \<open>rate_limiter\<close>; capacity, envelope, burst, refill.
  \<^item> \<open>Gate_Config\<close> (\<open>config/mod.rs\<close>, \<open>config/validate.rs\<close>): the configuration structs with their defaults,
    loading, and validation, which is shown to decide a declarative predicate.
  \<^item> \<open>Gate_Toml\<close> (\<open>config/mod.rs\<close>, the \<open>serde\<close> attributes): from a TOML document to a \<open>Config\<close> and back, field by field.
    Locale \<open>serde_toml\<close> is what \<open>serde\<close> and \<open>toml\<close> promise at the leaves; round trip, defaults, ignored sections, refused
    documents, and the quick start of the README.
  \<^item> \<open>Gate_Http\<close>, \<open>Gate_Routing\<close> (\<open>routing/mod.rs\<close>): JSON values, headers, requests and responses; the method table.
  \<^item> \<open>Memory_Cache\<close> (\<open>cache/mod.rs\<close>, \<open>cache/memory.rs\<close>): cache key, TTL table, the cache. Locale \<open>moka\<close> is what the
    documentation of the \<open>moka\<close> crate promises; locale \<open>response_cache\<close> is what the cache promises its clients. The
    cache refines an ideal unbounded cache with expiry.
  \<^item> \<open>Key_Store\<close> (\<open>auth/mod.rs\<close>, \<open>auth/store/sqlite.rs\<close>): extraction of the key from a request, the table of keys and
    the SQL statements on it; locale \<open>password_hashing\<close> is the contract of \<open>argon2\<close>, locale \<open>key_store\<close> that of the trait.
  \<^item> \<open>Gate_Metrics\<close> (\<open>metrics/mod.rs\<close>): labels and the calls on the registered metrics, in order.
  \<^item> \<open>App_State\<close>, \<open>Proxy_Handler\<close> (\<open>server/proxy.rs\<close>): the shared state and the proxy handler on every branch.
  \<^item> \<open>Gate_Server\<close> (\<open>server/mod.rs\<close>): construction of the state, handlers, middlewares, router. Locale \<open>middleware\<close> is
    the contract of one layer, interpreted by each layer and by the whole stack: of the shared state a layer changes
    only what \<open>charged\<close> allows, charges at the rate limiter and the count of rejections. The unwraps behind the guards
    of a middleware are branches that panic. No run of requests panics. Without authentication the gateway is its routes
    behind a token bucket per address (\<open>gated_run\<close>); the health checks bring a new gateway into service.
  \<^item> \<open>Admin_Api\<close> (\<open>server/admin.rs\<close>): the routes and handlers of the administration listener.
  \<^item> \<open>Gate_System\<close>: requests in flight, probes, administration calls and cancelled requests interleaved, as a
    step relation; invariants of all runs by rule induction.
  \<^item> \<open>Gate_Main\<close> (\<open>main.rs\<close>, \<open>telemetry/mod.rs\<close>, \<open>serve\<close>): how the process starts and ends; the listeners and their results. What
    binding an address does is a parameter; \<open>binds_exclusively\<close> is the hypothesis that a held address cannot be bound again.
  \<^item> \<open>Gate_Shutdown\<close> (\<open>serve\<close> and \<open>shutdown_signal\<close>): the server tasks, the signal and the graceful shutdown as a state
    machine; locale \<open>tokio_notify\<close> is the contract of \<open>Notify\<close>. Shutdown terminates when every server waits for the
    notification, by a measure of the work left and progress; an early signal is lost; what \<open>serve\<close> returns agrees with \<open>Gate_Main\<close>.
  \<^item> \<open>Gate_Trace\<close>: the entry points of the program are runs of \<open>Gate_System\<close>, and the response cache refines the
    ideal cache driven by the trace of any interleaving.
  \<^item> \<open>Gate_Invariants\<close>: locale \<open>system_invariant\<close>, the contract of a property that every step keeps, and its consequence for
    every entry point; its instances make up the well-formedness of the running gateway (fixed parts, upstreams, requests in
    flight, keys, buckets); that nothing is forwarded before an upstream is known to be healthy; what the request metrics count.
  \<^item> \<open>Pool_Tests\<close>, \<open>Store_Tests\<close>: the unit tests of the modules, run on the model. They tie the definitions to what the
    authors of the program expect of each method.
  \<^item> This theory: the properties that need the administration API, the key store and the router together.

  \<^bold>\<open>How the code is modelled.\<close> A struct is a record and an enum a datatype, with the source's names where HOL allows
  them and a prefix where a field name is used twice (\<open>cfg_\<close>, \<open>st_\<close>, \<open>us_\<close>, \<open>up_\<close>). Integers keep their width: words, with
  the wrapping addition of a release build and of the atomics. \<open>from_ne_bytes\<close> is read as on a little-endian machine. A
  floating-point value is the rational it denotes, and every operation on it rounds. A method that changes its object
  returns the new one; a handler takes and returns the shared state. A \<open>Result\<close> is a sum with the error on the left, and a
  panic is \<open>None\<close> or the outcome \<open>Panicked\<close>. The values that the environment decides are arguments: the readings of the
  clock, the random draws, the answers of the network, the faults of the database, in records such as \<open>proxy_env\<close> and
  \<open>server_env\<close>. Functions of other crates are fields of \<open>libs\<close> (JSON, URL and header parsing, SHA-256, \<open>argon2\<close>, \<open>moka\<close>, the metrics
  encoder); where a property needs something of them, it assumes the locale that states their contract, and the witnesses
  instantiate it with a concrete implementation. All recursion is structural, so there is no fuel.

  \<^bold>\<open>Interleaving.\<close> A step of \<open>Gate_System\<close> is the code between two await points, run as one piece. On a runtime with several threads
  two such sections can overlap; they meet only in single atomic operations, in the sections under one mutex and in single calls of the
  cache, and the properties of runs concern what these leave behind.

  \<^bold>\<open>Fuel and bounds.\<close> No definition needs fuel. The schedules of \<open>Gate_Shutdown\<close> may be infinite only if clients connect for ever; their
  length is bounded by \<open>sd_work\<close> and the number of accepted connections.

  \<^bold>\<open>Not modelled.\<close> Log messages and the trace layer of \<open>tower\<close>; the TLS handshake and the inside of \<open>axum\<close> and \<open>axum_server\<close> (a server is
  what \<open>Gate_Shutdown\<close> says of a task); panics of a server task, which would reach \<open>serve\<close> as a join error; the splitting of the command
  line by \<open>clap\<close>; the grammars of JSON, TOML, URLs, socket addresses and percent encoding, which are parameters; the Redis stores, whose
  files are empty; the integration tests and benchmarks.
\<close>

section \<open>Properties that span components\<close>

lemma revoked_refused:
  assumes "st_key_store st = Some (SqliteStore t)" and "auth_enabled (cfg_auth (st_config st))"
    and "extract_api_key (to_str L) (form_parse L) (req_headers req) (req_query req) = Some k"
    and "sqlite_lookup (lib_crypto L) (db_fault env) k t = Inr (Some e)" and "is_revoked e"
  shows "build_router L env st req = (Respond (auth_error_response 403 (- 32003) ''API key has been revoked''), st)"
  using assms by (simp add: build_router_def gateway_middleware_def auth_middleware_def)

lemma found_lookup: "found c k t = Some e \<Longrightarrow> sqlite_lookup c None k t = Inr (Some e)"
  by (auto simp: found_def split: sum.splits)

text \<open>C12. Revocation is final and immediate: after an operator deletes a key through the administration
  API, and whatever keys are created and deleted afterwards, every request that presents the key is
  answered with status 403 and changes nothing, even where unauthenticated requests are allowed.\<close>

theorem revoked_key_is_refused_forever:
  assumes "password_hashing (lib_crypto L)"
    and "st_key_store st0 = Some (SqliteStore t)"
    and "sqlite_lookup (lib_crypto L) None k t = Inr (Some e)" and "adm_fault aenv = None"
    and "st_key_store (snd (keys_delete_handler aenv st0 (sha256_id (lib_crypto L) k))) = Some (SqliteStore t1)"
    and "st_key_store st = Some (SqliteStore (key_run (lib_crypto L) ops t1))"
    and "auth_enabled (cfg_auth (st_config st))" and "db_fault env = None"
    and "extract_api_key (to_str L) (form_parse L) (req_headers req) (req_query req) = Some k"
  shows "build_router L env st req = (Respond (auth_error_response 403 (- 32003) ''API key has been revoked''), st)"
proof -
  let ?i = "sha256_id (lib_crypto L) k"
  have "t1 = snd (sqlite_revoke_key None ?i t)"
    using keys_delete_store [OF assms(2), of aenv ?i] assms(4,5) by simp
  then have "found (lib_crypto L) k (key_run (lib_crypto L) ops t1) = Some (e\<lparr>is_revoked := True\<rparr>)"
    using password_hashing.revoked_run [OF assms(1,3) refl] by simp
  then have "sqlite_lookup (lib_crypto L) (db_fault env) k (key_run (lib_crypto L) ops t1) = Inr (Some (e\<lparr>is_revoked := True\<rparr>))"
    using assms(8) by (simp add: found_lookup)
  then show ?thesis by (rule revoked_refused [OF assms(6,7,9)]) simp
qed

definition bearer_libs :: "(nat \<times> (u64 \<times> cached_value) list, string) libs" where
  "bearer_libs = sample_libs\<lparr>to_str := (\<lambda>_. Some ''sk'')\<rparr>"

definition key_request :: request where
  "key_request = (sample_request [1])\<lparr>req_headers := [(''x-api-key'', [115, 107])]\<rparr>"

definition admin_sample_env :: admin_env where
  "admin_sample_env = \<lparr>t_admin = 0, adm_fault = None, adm_salt = [], adm_clock = Some 0\<rparr>"

lemma key_request_key:
  "extract_api_key (to_str bearer_libs) (form_parse bearer_libs) (req_headers key_request) (req_query key_request) = Some ''sk''"
  by (simp add: extract_api_key_def header_api_key_def header_get_def key_request_def bearer_libs_def del: list.map)

lemma bearer_crypto [simp]: "lib_crypto bearer_libs = plain_crypto"
  by (simp add: bearer_libs_def sample_libs_def)

theorem revoked_key_is_refused_forever_witness:
  "\<exists>st1. st_key_store (snd (keys_delete_handler admin_sample_env auth_sample_state (sha256_id plain_crypto ''sk'')))
       = Some (SqliteStore st1)
    \<and> build_router bearer_libs (sample_server_env TimedOut) (auth_sample_state\<lparr>st_key_store := Some (SqliteStore st1)\<rparr>) key_request
      = (Respond (auth_error_response 403 (- 32003) ''API key has been revoked''),
         auth_sample_state\<lparr>st_key_store := Some (SqliteStore st1)\<rparr>)"
proof -
  have store: "st_key_store auth_sample_state = Some (SqliteStore [sample_entry])" by (simp add: auth_sample_state_def)
  obtain t1 where t1: "st_key_store (snd (keys_delete_handler admin_sample_env auth_sample_state (sha256_id plain_crypto ''sk'')))
      = Some (SqliteStore t1)"
    using keys_delete_store [OF store] by blast
  have "build_router bearer_libs (sample_server_env TimedOut) (auth_sample_state\<lparr>st_key_store := Some (SqliteStore t1)\<rparr>) key_request
      = (Respond (auth_error_response 403 (- 32003) ''API key has been revoked''),
         auth_sample_state\<lparr>st_key_store := Some (SqliteStore t1)\<rparr>)"
    using revoked_key_is_refused_forever [of bearer_libs auth_sample_state "[sample_entry]" "''sk''" sample_entry
        admin_sample_env t1 "auth_sample_state\<lparr>st_key_store := Some (SqliteStore t1)\<rparr>" "[]"
        "sample_server_env TimedOut" key_request] store t1 sample_entry_found plain.password_hashing_axioms key_request_key
    by (simp add: key_run_def admin_sample_env_def sample_server_env_def) (simp add: auth_sample_state_def)
  then show ?thesis using t1 by blast
qed

text \<open>C13. A key created through the administration API (status 201) authenticates the next request that
  presents it, with the tier that the call asked for or \<open>default\<close>.\<close>

theorem created_key_authenticates:
  assumes "password_hashing (lib_crypto L)" and "st_key_store st = Some (SqliteStore t)"
    and "json_get_str ''key'' payload = Some k"
    and "keys_create_handler L aenv st payload = (Some r, st1)" and "resp_status r = 201"
    and "auth_enabled (cfg_auth (st_config st))"
    and "extract_api_key (to_str L) (form_parse L) (req_headers req) (req_query req) = Some k"
  shows "auth_middleware L None next st1 req = next st1 (req\<lparr>
      ext_tier := Some (case json_get_str ''tier'' payload of Some x \<Rightarrow> x | None \<Rightarrow> ''default''),
      ext_key_id := Some (sha256_id (lib_crypto L) k)\<rparr>)"
proof -
  let ?tier = "case json_get_str ''tier'' payload of Some x \<Rightarrow> x | None \<Rightarrow> ''default''"
  let ?label = "case json_get_str ''label'' payload of Some l \<Rightarrow> l | None \<Rightarrow> []"
  obtain x t1 where c: "sqlite_create_key (lib_crypto L) (adm_fault aenv) (adm_salt aenv) (adm_clock aenv) k ?tier ?label t
      = (x, t1)" by fastforce
  then have x: "(\<exists>entry. x = Some (Inr entry)) \<and> st1 = st\<lparr>st_key_store := Some (SqliteStore t1)\<rparr>"
    using assms(2-5) by (auto simp: keys_create_handler_def Let_def split: option.splits sum.splits if_splits)
  have "try_create (lib_crypto L) (adm_fault aenv, adm_salt aenv, adm_clock aenv) k ?tier ?label t = Some t1"
    using c x by (auto simp: try_create_def)
  then obtain e where e: "found (lib_crypto L) k t1 = Some e" "ke_tier e = ?tier" "\<not> is_revoked e"
    using password_hashing.created_found [OF assms(1)] by blast
  have l: "sqlite_lookup (lib_crypto L) None k t1 = Inr (Some e)" using e(1) by (rule found_lookup)
  then have "ke_id e = sha256_id (lib_crypto L) k" using sqlite_lookup_SomeD by blast
  then show ?thesis using l e(2,3) assms(6,7) x by (simp add: auth_middleware_def)
qed

lemma created_key_shape:
  "hash_password c (as_bytes k) salt = Inr h \<Longrightarrow>
   \<exists>entry t1. sqlite_create_key c None salt (Some d) k tier label [] = (Some (Inr entry), t1)"
  by (simp add: sqlite_create_key_def hash_key_def sql_insert_def sql_select_id_def Let_def)

theorem created_key_authenticates_witness:
  "\<exists>st1. auth_middleware bearer_libs None (\<lambda>st req. (Respond (json_response 200 (JString (the (ext_tier req)))), st)) st1 key_request
     = (Respond (json_response 200 (JString ''premium'')), st1)"
proof -
  let ?st = "auth_sample_state\<lparr>st_key_store := Some (SqliteStore [])\<rparr>"
  let ?payload = "JObject [(''key'', JString ''sk''), (''tier'', JString ''premium'')]"
  have p: "json_get_str ''key'' ?payload = Some ''sk''" "json_get_str ''tier'' ?payload = Some ''premium''"
    by (simp_all add: json_get_str_def)
  have hash: "\<exists>h. hash_password plain_crypto pw salt = Inr h" for pw salt by (simp add: plain_crypto_def)
  then obtain entry t1 where "sqlite_create_key plain_crypto None [] (Some 0) ''sk'' ''premium'' [] [] = (Some (Inr entry), t1)"
    by (metis (no_types, lifting) created_key_shape)
  then obtain r st1 where c: "keys_create_handler bearer_libs admin_sample_env ?st ?payload = (Some r, st1)" and r: "resp_status r = 201"
    by (simp add: keys_create_handler_def json_get_str_def admin_sample_env_def)
  show ?thesis
    using created_key_authenticates [OF _ _ p(1) c r, of "[]" key_request
        "\<lambda>st req. (Respond (json_response 200 (JString (the (ext_tier req)))), st)"]
      plain.password_hashing_axioms key_request_key p(2)
    by (auto simp: auth_sample_state_def)
qed

text \<open>C11. A tier with burst 0 refuses every request: whoever presents a live key of such a tier is answered with 429,
  at any time and in any state of the buckets. The README presents such a tier as one without a limit.\<close>

theorem zero_burst_tier_refuses_every_request:
  assumes "auth_enabled (cfg_auth (st_config st))" and "st_key_store st = Some store"
    and "extract_api_key (to_str L) (form_parse L) (req_headers req) (req_query req) = Some key"
    and "dispatch_lookup (lib_crypto L) (db_fault env) key store = Inr (Some entry)" and "\<not> is_revoked entry"
    and "auth_tiers st (ke_tier entry) = Some t" and "kt_burst t = 0"
    and "rl_enabled (cfg_rate_limit (st_config st))" and "st_rate_limiter st = Some limiter"
  shows "fst (build_router L env st req) = Respond rate_limit_response"
proof -
  let ?req = "req\<lparr>ext_tier := Some (ke_tier entry), ext_key_id := Some (ke_id entry)\<rparr>"
  have refuse: "\<exists>d. dispatch_check_rate now k rps 0 limiter = (Inl RateLimited, d)" for now k rps
    by (cases limiter) (simp add: check_rate_zero_burst split_beta)
  have params: "rate_params L st ?req = (''tier:'' @ kt_name t, requests_per_second t, 0)"
    using assms(6,7) by (simp add: rate_params_def)
  have "fst (rate_limit_middleware L now next st ?req) = Respond rate_limit_response" for now "next"
  proof -
    obtain d where "dispatch_check_rate now (''tier:'' @ kt_name t) (requests_per_second t) 0 limiter = (Inl RateLimited, d)"
      using refuse by blast
    then show ?thesis using assms(8,9) by (simp add: rate_limit_middleware_def params Let_def)
  qed
  then show ?thesis
    using assms(1-5) by (simp add: build_router_def gateway_middleware_def auth_middleware_def)
qed

theorem zero_burst_tier_refuses_every_request_witness:
  "\<exists>st :: (nat \<times> (u64 \<times> cached_value) list) app_state.
     fst (build_router bearer_libs (sample_server_env TimedOut) st key_request) = Respond rate_limit_response"
proof -
  let ?t = "\<lparr>kt_name = ''basic'', requests_per_second = 0, kt_burst = 0, daily_limit = 0\<rparr>"
  let ?st = "auth_sample_state\<lparr>auth_tiers := [''basic'' \<mapsto> ?t], st_rate_limiter := Some (MemoryLimiter limiter_new)\<rparr>"
  have st: "auth_enabled (cfg_auth (st_config ?st))" "st_key_store ?st = Some (SqliteStore [sample_entry])"
    "rl_enabled (cfg_rate_limit (st_config ?st))"
    by (simp_all add: auth_sample_state_def example_config_def config_struct_defaults)
  have "dispatch_lookup (lib_crypto bearer_libs) (db_fault (sample_server_env TimedOut)) ''sk'' (SqliteStore [sample_entry])
      = Inr (Some sample_entry)"
    using sample_entry_found by (simp add: sample_server_env_def)
  from zero_burst_tier_refuses_every_request [OF st(1,2) key_request_key this, of ?t] st(3) show ?thesis
    by (intro exI [of _ ?st]) (simp add: sample_entry_def)
qed

text \<open>C18. The failure that brings the count to the threshold takes the upstream out of rotation: after the
  request that fails, the upstream is not available, and no pool selects it in that state, under any
  algorithm and random draw.\<close>

theorem failure_at_threshold_removes_upstream:
  assumes "proxy_begin L env st req = (Forwarding f, st1)"
    and "forward_to_upstream L (network env) (st_heap st (if_upstream f)) (if_body f)
          (request_timeout_ms (cfg_server (st_config st))) = Inl e"
    and "breaker (us_mutable (st_heap st (if_upstream f))) = cb"
    and "cb_state cb = Closed" and "unat (failure_count cb) + 1 = unat (failure_threshold cb)"
  shows "\<not> is_available (st_heap (snd (proxy_handler L env st req)) (if_upstream f))
    \<and> fst (select_upstream (st_heap (snd (proxy_handler L env st req))) r pool) \<noteq> Some (if_upstream f)"
proof -
  let ?h = "st_heap (snd (proxy_handler L env st req))"
  have "?h (if_upstream f) = upd_breaker (record_failure (t_fail env)) (st_heap st (if_upstream f))"
    using assms(1,2) by (simp add: proxy_handler_heap)
  moreover have "cb_state (record_failure (t_fail env) cb) = Open"
  proof -
    have "unat (failure_count cb + 1) = unat (failure_threshold cb)"
      using assms(5) unat_lt_numeral_u32 [of "failure_threshold cb"] by (subst unat_Suc_word) simp_all
    then have "failure_count cb + 1 = failure_threshold cb" by (simp add: word_unat_eq_iff)
    then show ?thesis using assms(4) by (simp add: record_failure_def)
  qed
  ultimately have u: "\<not> is_available (?h (if_upstream f))"
    using assms(3) by (simp add: is_available_def upd_breaker_def upd_mutable_def cb_is_available_def)
  then have "fst (select_upstream ?h r pool) \<noteq> Some (if_upstream f)"
    using select_upstream_SomeD by (metis prod.collapse)
  then show ?thesis using u by blast
qed

definition worn_state :: "(nat \<times> (u64 \<times> cached_value) list) app_state" where
  "worn_state = sample_state\<lparr>st_heap := (\<lambda>a. upd_breaker (\<lambda>b. b\<lparr>failure_count := 4\<rparr>) (st_heap sample_state a))\<rparr>"

lemma worn_fields:
  "st_cache worn_state = st_cache sample_state" "st_router worn_state = st_router sample_state"
  "st_pools worn_state = st_pools sample_state"
  by (simp_all add: worn_state_def)

theorem failure_at_threshold_removes_upstream_witness:
  "\<not> is_available (st_heap (snd (proxy_handler sample_libs (sample_env TimedOut) worn_state (sample_request [1]))) 0)"
proof -
  let ?f = "\<lparr>if_method = ''getHealth'', if_pool = ''main'', if_upstream = 0, if_body = [1], if_start = 0\<rparr>"
  have av: "is_available (st_heap worn_state a)" for a
    using sample_available [of a] by (simp add: worn_state_def is_available_def upd_breaker_def upd_mutable_def cb_is_available_def)
  have "fst (proxy_begin sample_libs (sample_env TimedOut) worn_state (sample_request [1])) = Forwarding ?f"
    using begin_selects [of sample_libs "sample_env TimedOut" "''getHealth''" worn_state "[1]" "sample_request [1]"]
      new_cache_misses [of sample_libs worn_state 1] fifo.moka_axioms av
    by (simp add: extract_json_rpc_method_def route_def healthy_upstreams_def select_upstream_def select_def worn_fields)
  then have "proxy_begin sample_libs (sample_env TimedOut) worn_state (sample_request [1])
      = (Forwarding ?f, snd (proxy_begin sample_libs (sample_env TimedOut) worn_state (sample_request [1])))"
    by (metis prod.collapse)
  then show ?thesis
    using failure_at_threshold_removes_upstream [of sample_libs "sample_env TimedOut" worn_state "sample_request [1]" ?f]
    by (simp add: forward_to_upstream_def worn_state_def upd_breaker_def upd_mutable_def)
      (simp add: sample_state_def upd_mutable_def upstream_new_def cb_new_def)
qed

end
